(* ===== verification/GoTime.thy ===== *)
theory GoTime
  imports Prelude
begin

text \<open>
  The parts of Go's package \<open>time\<close> the operator uses, and \<open>parseDuration\<close> of
  \<open>internal/controller/helpers.go\<close>, which wraps \<open>time.ParseDuration\<close>.

  A \<open>time.Time\<close> is the number of nanoseconds since January 1 of the year 1 UTC, so Go's zero
  time is 0; a \<open>time.Duration\<close> is an integer inside the int64 range. \<open>time.ParseDuration\<close>
  is modelled with its uint64 guards, its one unguarded wrap-around (the sum of the segments)
  and its float64 arithmetic on fractions, where every rounding is done exactly as IEEE 754
  does it for the values that occur (no subnormal numbers, no infinities).
\<close>

section \<open>Times and durations\<close>

type_synonym duration = int
type_synonym time = int

abbreviation Nanosecond :: duration where "Nanosecond \<equiv> 1"
abbreviation Second :: duration where "Second \<equiv> 1000000000"
abbreviation Minute :: duration where "Minute \<equiv> 60000000000"
abbreviation Hour :: duration where "Hour \<equiv> 3600000000000"

definition is_int64 :: "int \<Rightarrow> bool" where
  "is_int64 d \<longleftrightarrow> - (2 ^ 63) \<le> d \<and> d < 2 ^ 63"

definition clamp64 :: "int \<Rightarrow> int" where
  "clamp64 d = (if d < - (2 ^ 63) then - (2 ^ 63) else if 2 ^ 63 \<le> d then 2 ^ 63 - 1 else d)"

definition time_IsZero :: "time \<Rightarrow> bool" where
  "time_IsZero t \<longleftrightarrow> t = 0"

definition time_Add :: "time \<Rightarrow> duration \<Rightarrow> time" where
  "time_Add t d = t + d"

text \<open>\<open>Time.Sub\<close> saturates at the largest and smallest duration.\<close>

definition time_Sub :: "time \<Rightarrow> time \<Rightarrow> duration" where
  "time_Sub t u = clamp64 (t - u)"

definition time_Before :: "time \<Rightarrow> time \<Rightarrow> bool" where
  "time_Before t u \<longleftrightarrow> t < u"

lemma clamp64_id [simp]: "is_int64 d \<Longrightarrow> clamp64 d = d"
  by (simp add: clamp64_def is_int64_def)

lemma clamp64_is_int64 [simp]: "is_int64 (clamp64 d)"
  by (simp add: clamp64_def is_int64_def)

lemma clamp64_le_0 [simp]: "clamp64 d \<le> 0 \<longleftrightarrow> d \<le> 0"
  by (simp add: clamp64_def)

lemma clamp64_le_iff:
  "is_int64 w \<Longrightarrow> w < 2 ^ 63 - 1 \<Longrightarrow> clamp64 d \<le> w \<longleftrightarrow> d \<le> w"
  by (auto simp: clamp64_def is_int64_def)

section \<open>float64 arithmetic on non-negative values\<close>

text \<open>
  A non-negative float64 is a fraction \<open>(n, d)\<close>. \<open>float64\<close> rounds a fraction to the nearest
  value with a 53-bit significand, ties to even.
\<close>

definition round_half_even :: "int \<Rightarrow> int \<Rightarrow> int" where
  "round_half_even n d =
     (let q = n div d; r = n mod d
      in if 2 * r < d then q else if d < 2 * r then q + 1 else if even q then q else q + 1)"

function norm_small :: "int \<Rightarrow> int \<Rightarrow> int \<Rightarrow> int \<times> int" where
  "norm_small n d k =
     (if n \<le> 0 \<or> 2 ^ 52 * d \<le> n then (round_half_even n d, k) else norm_small (2 * n) d (2 * k))"
  by pat_completeness auto
termination
  by (relation "measure (\<lambda>(n, d, k). nat (2 ^ 52 * d - n))") auto

function norm_big :: "int \<Rightarrow> int \<Rightarrow> int \<Rightarrow> int \<times> int" where
  "norm_big n d k =
     (if d \<le> 0 \<or> n < 2 ^ 53 * d then (round_half_even n d * k, 1) else norm_big n (2 * d) (2 * k))"
  by pat_completeness auto
termination
  by (relation "measure (\<lambda>(n, d, k). nat (n + 1 - 2 ^ 53 * d))") auto

declare norm_small.simps [simp del] norm_big.simps [simp del]

definition float64 :: "int \<times> int \<Rightarrow> int \<times> int" where
  "float64 x = (case x of (n, d) \<Rightarrow>
     if n = 0 then (0, 1) else if n < 2 ^ 52 * d then norm_small n d 1 else norm_big n d 1)"

definition float64_mul :: "int \<times> int \<Rightarrow> int \<times> int \<Rightarrow> int \<times> int" where
  "float64_mul x y = float64 (fst x * fst y, snd x * snd y)"

definition float64_div :: "int \<times> int \<Rightarrow> int \<times> int \<Rightarrow> int \<times> int" where
  "float64_div x y = float64 (fst x * snd y, snd x * fst y)"

text \<open>\<open>uint64(float64(f) * (float64(unit) / scale))\<close> of \<open>time.ParseDuration\<close>.\<close>

definition fraction_ns :: "int \<Rightarrow> int \<Rightarrow> int \<Rightarrow> int" where
  "fraction_ns f scale unt =
     (let q = float64_div (float64 (unt, 1)) (float64 (scale, 1));
          p = float64_mul (float64 (f, 1)) q
      in fst p div snd p)"

section \<open>time.ParseDuration\<close>

datatype duration_error = InvalidDuration | MissingUnit | UnknownUnit string

definition unitMap :: "string \<Rightarrow> int option" where
  "unitMap u =
     (if u = ''ns'' then Some 1
      else if u = ''us'' \<or> u = [CHR 0xC2, CHR 0xB5, CHR ''s''] \<or> u = [CHR 0xCE, CHR 0xBC, CHR ''s'']
      then Some 1000
      else if u = ''ms'' then Some 1000000
      else if u = ''s'' then Some 1000000000
      else if u = ''m'' then Some 60000000000
      else if u = ''h'' then Some 3600000000000
      else None)"

fun leadingInt :: "int \<Rightarrow> string \<Rightarrow> (int \<times> string) option" where
  "leadingInt x [] = Some (x, [])"
| "leadingInt x (c # cs) =
     (if \<not> is_digit c then Some (x, c # cs)
      else if x > 2 ^ 63 div 10 then None
      else (let x' = x * 10 + digit_val c in if x' > 2 ^ 63 then None else leadingInt x' cs))"

fun leadingFraction :: "int \<Rightarrow> int \<Rightarrow> bool \<Rightarrow> string \<Rightarrow> int \<times> int \<times> string" where
  "leadingFraction x scale overflow [] = (x, scale, [])"
| "leadingFraction x scale overflow (c # cs) =
     (if \<not> is_digit c then (x, scale, c # cs)
      else if overflow then leadingFraction x scale True cs
      else if x > (2 ^ 63 - 1) div 10 then leadingFraction x scale True cs
      else (let y = x * 10 + digit_val c
            in if y > 2 ^ 63 then leadingFraction x scale True cs
               else leadingFraction y (scale * 10) False cs))"

definition is_unit_char :: "char \<Rightarrow> bool" where
  "is_unit_char c \<longleftrightarrow> c \<noteq> CHR ''.'' \<and> \<not> is_digit c"

text \<open>One number and its unit: the value in nanoseconds and what is left of the string.\<close>

definition parse_segment :: "string \<Rightarrow> duration_error + (int \<times> string)" where
  "parse_segment s =
     (if s = [] \<or> \<not> (hd s = CHR ''.'' \<or> is_digit (hd s)) then Inl InvalidDuration
      else case leadingInt 0 s of
        None \<Rightarrow> Inl InvalidDuration
      | Some (v, s1) \<Rightarrow>
          (let pre = length s1 \<noteq> length s;
               (f, scale, s2, post) =
                 (if s1 \<noteq> [] \<and> hd s1 = CHR ''.''
                  then (case leadingFraction 0 1 False (tl s1) of
                          (f, scale, s2) \<Rightarrow> (f, scale, s2, length s2 \<noteq> length (tl s1)))
                  else (0, 1, s1, False))
           in if \<not> pre \<and> \<not> post then Inl InvalidDuration
              else let u = takeWhile is_unit_char s2; s3 = dropWhile is_unit_char s2
              in if u = [] then Inl MissingUnit
              else case unitMap u of
                None \<Rightarrow> Inl (UnknownUnit u)
              | Some unt \<Rightarrow>
                  if v > 2 ^ 63 div unt then Inl InvalidDuration
                  else let v' = v * unt + (if f > 0 then fraction_ns f scale unt else 0)
                  in if f > 0 \<and> v' > 2 ^ 63 then Inl InvalidDuration else Inr (v', s3)))"

lemma leadingInt_length: "leadingInt x s = Some (y, r) \<Longrightarrow> length r \<le> length s"
  by (induction x s rule: leadingInt.induct) (auto simp: Let_def split: if_splits)

lemma leadingFraction_length: "leadingFraction x sc ov s = (y, sc', r) \<Longrightarrow> length r \<le> length s"
  by (induction x sc ov s rule: leadingFraction.induct) (auto simp: Let_def split: if_splits)

lemma unit_consumed: "takeWhile P s \<noteq> [] \<Longrightarrow> length (dropWhile P s) < length s"
  by (cases s) (auto simp: length_dropWhile_le less_Suc_eq_le split: if_splits)

lemma parse_segment_shorter: "parse_segment s = Inr (v, r) \<Longrightarrow> length r < length s"
  by (auto simp: parse_segment_def Let_def split: if_splits option.splits prod.splits
      dest!: leadingInt_length leadingFraction_length unit_consumed)

function parse_segments :: "int \<Rightarrow> string \<Rightarrow> duration_error + int" where
  "parse_segments d s =
     (if s = [] then Inr d
      else case parse_segment s of
        Inl e \<Rightarrow> Inl e
      | Inr (v, r) \<Rightarrow>
          (let d' = (d + v) mod 2 ^ 64
           in if d' > 2 ^ 63 then Inl InvalidDuration else parse_segments d' r))"
  by pat_completeness auto
termination
  by (relation "measure (\<lambda>(d, s). length s)") (auto dest: parse_segment_shorter)

declare parse_segments.simps [simp del]

definition ParseDuration :: "string \<Rightarrow> duration_error + duration" where
  "ParseDuration orig =
     (let neg = (orig \<noteq> [] \<and> hd orig = CHR ''-'');
          s = (if orig \<noteq> [] \<and> (hd orig = CHR ''-'' \<or> hd orig = CHR ''+'') then tl orig else orig)
      in if s = ''0'' then Inr 0
         else if s = [] then Inl InvalidDuration
         else case parse_segments 0 s of
           Inl e \<Rightarrow> Inl e
         | Inr d \<Rightarrow>
             if neg then Inr (- d)
             else if d > 2 ^ 63 - 1 then Inl InvalidDuration
             else Inr d)"

section \<open>Time.Format(time.RFC3339) in UTC\<close>

text \<open>
  The proleptic Gregorian calendar counted from January 1 of the year 1: 146097 days in 400
  years, 36524 in a century that ends in no leap year, 1461 in 4 years, 365 in a year.
\<close>

definition is_leap :: "int \<Rightarrow> bool" where
  "is_leap y \<longleftrightarrow> 4 dvd y \<and> (\<not> 100 dvd y \<or> 400 dvd y)"

definition month_lengths :: "int \<Rightarrow> int list" where
  "month_lengths y = [31, if is_leap y then 29 else 28, 31, 30, 31, 30, 31, 31, 30, 31, 30, 31]"

text \<open>The year (from 1) and the day of the year (from 0) of a day number.\<close>

definition year_day :: "int \<Rightarrow> int \<times> int" where
  "year_day d =
     (let n400 = d div 146097; r400 = d mod 146097;
          n100 = min 3 (r400 div 36524); r100 = r400 - n100 * 36524;
          n4 = r100 div 1461; r4 = r100 mod 1461;
          n1 = min 3 (r4 div 365); r1 = r4 - n1 * 365
      in (400 * n400 + 100 * n100 + 4 * n4 + n1 + 1, r1))"

fun month_day :: "int list \<Rightarrow> int \<Rightarrow> int \<Rightarrow> int \<times> int" where
  "month_day [] m yd = (m, yd + 1)"
| "month_day (l # ls) m yd = (if yd < l then (m, yd + 1) else month_day ls (m + 1) (yd - l))"

definition civil_date :: "int \<Rightarrow> int \<times> int \<times> int" where
  "civil_date d = (case year_day d of (y, yd) \<Rightarrow> (case month_day (month_lengths y) 1 yd of (m, dd) \<Rightarrow> (y, m, dd)))"

definition pad_int :: "nat \<Rightarrow> int \<Rightarrow> string" where
  "pad_int width i = (let ds = show_nat (nat i) in replicate (width - length ds) (CHR ''0'') @ ds)"

definition format_rfc3339 :: "time \<Rightarrow> string" where
  "format_rfc3339 t =
     (let secs = t div Second; sod = secs mod 86400
      in case civil_date (secs div 86400) of (y, m, d) \<Rightarrow>
           pad_int 4 y @ ''-'' @ pad_int 2 m @ ''-'' @ pad_int 2 d @ ''T'' @
           pad_int 2 (sod div 3600) @ '':'' @ pad_int 2 (sod mod 3600 div 60) @ '':'' @
           pad_int 2 (sod mod 60) @ ''Z'')"

section \<open>parseDuration (helpers.go)\<close>

definition parseDuration :: "string \<Rightarrow> duration \<Rightarrow> duration \<times> bool" where
  "parseDuration s fallback =
     (case ParseDuration s of Inl _ \<Rightarrow> (fallback, False) | Inr d \<Rightarrow> (d, True))"


section \<open>Ranges\<close>

lemma parse_segments_range:
  "parse_segments d s = Inr x \<Longrightarrow> 0 \<le> d \<Longrightarrow> d \<le> 2 ^ 63 \<Longrightarrow> 0 \<le> x \<and> x \<le> 2 ^ 63"
proof (induction d s rule: parse_segments.induct)
  case (1 d s)
  then show ?case
    by (subst (asm) (2) parse_segments.simps)
      (auto simp: Let_def split: if_splits sum.splits prod.splits)
qed

lemma ParseDuration_int64: "ParseDuration s = Inr d \<Longrightarrow> is_int64 d"
  by (auto simp: ParseDuration_def is_int64_def Let_def split: if_splits sum.splits
      dest!: parse_segments_range)

text \<open>
  \<open>parseDuration\<close> always hands its caller a representable duration: when it reports the
  input as usable the value is the parsed one and fits in an int64; when it does not, the value
  is exactly the caller's own fallback.
\<close>

lemma parseDuration_total:
  assumes "parseDuration s fallback = (d, ok)"
  shows "(ok \<longrightarrow> ParseDuration s = Inr d \<and> is_int64 d) \<and>
         (\<not> ok \<longrightarrow> d = fallback \<and> (\<exists>e. ParseDuration s = Inl e))"
  using assms by (auto simp: parseDuration_def ParseDuration_int64 split: sum.splits)

lemma parseDuration_total_example:
  "parseDuration ''1h30m'' 0 = (5400000000000, True) \<and> is_int64 5400000000000 \<and>
   parseDuration ''soon'' 60 = (60, False)"
proof -
  have a: "parseDuration ''1h30m'' 0 = (5400000000000, True)" by code_simp
  have b: "parseDuration ''soon'' 60 = (60, False)" by code_simp
  show ?thesis using parseDuration_total [OF a] a b by simp
qed

section \<open>Reading back what is written as number-unit pairs\<close>

lemma digit_val_nonneg: "is_digit c \<Longrightarrow> 0 \<le> digit_val c"
  by (simp add: is_digit_iff digit_val_def)

abbreviation dec_step :: "char \<Rightarrow> int \<Rightarrow> int" where
  "dec_step c x \<equiv> x * 10 + digit_val c"

lemma fold_dec_mono: "\<forall>c \<in> set ds. is_digit c \<Longrightarrow> 0 \<le> x \<Longrightarrow> x \<le> fold dec_step ds x"
proof (induction ds arbitrary: x)
  case (Cons c ds)
  then have x: "x \<le> dec_step c x" "0 \<le> dec_step c x" using digit_val_nonneg [of c] by auto
  have "dec_step c x \<le> fold dec_step ds (dec_step c x)"
    using Cons.prems(1) x(2) by (intro Cons.IH) auto
  with x(1) show ?case by simp
qed simp

lemma leadingInt_digits:
  assumes "\<forall>c \<in> set ds. is_digit c" "r = [] \<or> \<not> is_digit (hd r)" "0 \<le> x" "fold dec_step ds x \<le> 2 ^ 63"
  shows "leadingInt x (ds @ r) = Some (fold dec_step ds x, r)"
  using assms
proof (induction ds arbitrary: x)
  case Nil
  then show ?case by (cases r) auto
next
  case (Cons c ds)
  have nn: "0 \<le> digit_val c" using Cons.prems(1) by (simp add: digit_val_nonneg)
  have "dec_step c x \<le> fold dec_step ds (dec_step c x)"
    using Cons.prems(1,3) nn by (intro fold_dec_mono) auto
  with Cons.prems(4) have le: "x * 10 + digit_val c \<le> 2 ^ 63" by simp
  with nn have small: "\<not> x > 2 ^ 63 div 10" by simp
  have "leadingInt (dec_step c x) (ds @ r) = Some (fold dec_step ds (dec_step c x), r)"
    using Cons.prems nn by (intro Cons.IH) auto
  moreover have "is_digit c" using Cons.prems(1) by simp
  ultimately show ?case using small le by (simp only: append_Cons leadingInt.simps Let_def) simp
qed

lemma unit_chars: "unitMap u = Some n \<Longrightarrow> u \<noteq> [] \<and> (\<forall>c \<in> set u. is_unit_char c) \<and> 0 < n"
  by (auto simp: unitMap_def is_unit_char_def is_digit_def split: if_splits)

lemma unit_takeWhile:
  assumes "unitMap u = Some n" "r = [] \<or> is_digit (hd r)"
  shows "takeWhile is_unit_char (u @ r) = u" "dropWhile is_unit_char (u @ r) = r"
  using assms(2) unit_chars [OF assms(1)]
  by (cases r; auto simp: is_unit_char_def)+

lemma unit_hd: "unitMap u = Some n \<Longrightarrow> \<not> is_digit (hd (u @ r)) \<and> hd (u @ r) \<noteq> CHR ''.''"
  using unit_chars [of u n] by (cases u) (auto simp: is_unit_char_def)

lemma parse_segment_show:
  assumes u: "unitMap u = Some n" and r: "r = [] \<or> is_digit (hd r)" and k: "int k * n \<le> 2 ^ 63"
  shows "parse_segment (show_nat k @ u @ r) = Inr (int k * n, r)"
proof -
  have npos: "0 < n" using unit_chars [OF u] by simp
  have kn: "int k \<le> 2 ^ 63 div n"
    using zdiv_mono1 [OF k npos] npos by simp
  have "int k * 1 \<le> int k * n" using npos by (intro mult_left_mono) auto
  with k have k63: "int k \<le> 2 ^ 63" by simp
  have rd: "fold dec_step (show_nat k) 0 = int k"
    using read_show_nat [of k] by (simp add: read_nat_def)
  have li: "leadingInt 0 (show_nat k @ u @ r) = Some (int k, u @ r)"
    using leadingInt_digits [of "show_nat k" "u @ r" 0] show_nat_digits [of _ k] unit_hd [OF u] rd k63
    by auto
  have hd: "is_digit (hd (show_nat k @ u @ r))"
    using show_nat_digits [of "hd (show_nat k)" k] by simp
  show ?thesis
    using hd li unit_hd [OF u, of r] unit_takeWhile [OF u r] unit_chars [OF u] u kn
    by (simp add: parse_segment_def Let_def)
qed

definition fmt_segments :: "(nat \<times> string) list \<Rightarrow> string" where
  "fmt_segments segs = concat (map (\<lambda>(k, u). show_nat k @ u) segs)"

definition segments_ns :: "(nat \<times> string) list \<Rightarrow> int" where
  "segments_ns segs = sum_list (map (\<lambda>(k, u). int k * the (unitMap u)) segs)"

lemma segments_ns_nonneg: "\<forall>(k, u) \<in> set segs. unitMap u \<noteq> None \<Longrightarrow> 0 \<le> segments_ns segs"
proof (induction segs)
  case (Cons x segs)
  obtain k u where x: "x = (k, u)" by force
  with Cons.prems obtain n where "unitMap u = Some n" by auto
  moreover from this have "0 < n" using unit_chars [of u n] by simp
  ultimately show ?case using Cons by (simp add: segments_ns_def x)
qed (simp add: segments_ns_def)

lemma fmt_segments_hd:
  "fmt_segments segs = [] \<or> is_digit (hd (fmt_segments segs))"
proof (cases segs)
  case (Cons x xs)
  then show ?thesis
    using show_nat_digits [of "hd (show_nat (fst x))" "fst x"]
    by (auto simp: fmt_segments_def split: prod.splits)
qed (simp add: fmt_segments_def)

lemma parse_segments_fmt:
  "\<forall>(k, u) \<in> set segs. unitMap u \<noteq> None \<Longrightarrow> 0 \<le> d \<Longrightarrow> d + segments_ns segs \<le> 2 ^ 63 \<Longrightarrow>
   parse_segments d (fmt_segments segs) = Inr (d + segments_ns segs)"
proof (induction segs arbitrary: d)
  case Nil
  then show ?case by (subst parse_segments.simps) (simp add: fmt_segments_def segments_ns_def)
next
  case (Cons x segs)
  obtain k u where x: "x = (k, u)" by force
  with Cons.prems(1) obtain n where u: "unitMap u = Some n" by auto
  have rest: "0 \<le> segments_ns segs" using Cons.prems(1) by (intro segments_ns_nonneg) auto
  have tot: "segments_ns (x # segs) = int k * n + segments_ns segs" by (simp add: segments_ns_def x u)
  have kn: "0 \<le> int k * n" using unit_chars [OF u] by simp
  have seg: "parse_segment (fmt_segments (x # segs)) = Inr (int k * n, fmt_segments segs)"
    using parse_segment_show [OF u fmt_segments_hd, of k segs] Cons.prems(2,3) tot rest
    by (simp add: fmt_segments_def x)
  have ne: "fmt_segments (x # segs) \<noteq> []" by (simp add: fmt_segments_def x)
  have m: "(d + int k * n) mod 2 ^ 64 = d + int k * n" "\<not> d + int k * n > 2 ^ 63"
    using Cons.prems(2,3) tot rest kn by (auto intro!: mod_pos_pos_trivial)
  have "parse_segments (d + int k * n) (fmt_segments segs) = Inr (d + int k * n + segments_ns segs)"
    using Cons.prems tot kn by (intro Cons.IH) auto
  with seg ne m tot show ?case by (subst parse_segments.simps) (simp add: Let_def add.assoc)
qed


text \<open>
  C31: a duration written as a non-empty sequence of decimal-number/unit pairs (any of Go's unit
  spellings) whose total fits in an int64 is parsed to exactly that total, so the configured
  thresholds and intervals mean what they say.
\<close>

theorem parseDuration_reads_segments:
  assumes "segs \<noteq> []" "\<forall>(k, u) \<in> set segs. unitMap u \<noteq> None" "segments_ns segs < 2 ^ 63"
  shows "parseDuration (fmt_segments segs) fallback = (segments_ns segs, True)"
proof -
  obtain k u rest where segs: "segs = (k, u) # rest" using assms(1) by (cases segs) auto
  then obtain n where u: "unitMap u = Some n" using assms(2) by auto
  have dig: "is_digit (hd (fmt_segments segs))" and ne: "fmt_segments segs \<noteq> []"
    using fmt_segments_hd [of segs] segs by (auto simp: fmt_segments_def)
  then have nosign: "hd (fmt_segments segs) \<noteq> CHR ''-''" "hd (fmt_segments segs) \<noteq> CHR ''+''"
    by (auto simp: is_digit_def)
  have "fmt_segments segs = show_nat k @ u @ fmt_segments rest" by (simp add: fmt_segments_def segs)
  moreover have "show_nat k \<noteq> []" "u \<noteq> []" using unit_chars [OF u] by auto
  ultimately have "length (fmt_segments segs) \<ge> 2" by (cases "show_nat k"; cases u) auto
  then have not0: "fmt_segments segs \<noteq> ''0''" by auto
  have "parse_segments 0 (fmt_segments segs) = Inr (segments_ns segs)"
    using parse_segments_fmt [OF assms(2), of 0] assms(3) by simp
  then show ?thesis
    using ne nosign not0 assms(3) by (simp add: parseDuration_def ParseDuration_def Let_def)
qed

theorem parseDuration_reads_segments_witness:
  "parseDuration (fmt_segments [(1, ''h''), (30, ''m''), (5, ''ms'')]) 7 = (5400005000000, True) \<and>
   fmt_segments [(1, ''h''), (30, ''m''), (5, ''ms'')] = ''1h30m5ms''"
proof -
  have v: "segments_ns [(1, ''h''), (30, ''m''), (5, ''ms'')] = 5400005000000" by code_simp
  have f: "fmt_segments [(1, ''h''), (30, ''m''), (5, ''ms'')] = ''1h30m5ms''" by code_simp
  have u: "\<forall>(k, u) \<in> set [(1::nat, ''h''), (30, ''m''), (5, ''ms'')]. unitMap u \<noteq> None"
    by (simp add: unitMap_def)
  show ?thesis
    using parseDuration_reads_segments [OF _ u, of 7] v f by simp
qed

section \<open>The CRD validation pattern\<close>

text \<open>
  The \<open>Pattern\<close> marker on the three duration fields of the CRD,
  \<open>^([0-9]+(\.[0-9]+)?(ns|us|ms|s|m|h))+$\<close>. After a unit the next repetition starts with a
  digit, so a unit is the longest run of characters that are neither digits nor a full stop.
\<close>

definition pattern_group :: "string \<Rightarrow> string option" where
  "pattern_group s =
     (let r = dropWhile is_digit s
      in if takeWhile is_digit s = [] then None
         else if r \<noteq> [] \<and> hd r = CHR ''.'' \<and> takeWhile is_digit (tl r) = [] then None
         else let r' = (if r \<noteq> [] \<and> hd r = CHR ''.'' then dropWhile is_digit (tl r) else r)
         in if takeWhile is_unit_char r' \<in> set [''ns'', ''us'', ''ms'', ''s'', ''m'', ''h'']
            then Some (dropWhile is_unit_char r') else None)"

lemma pattern_group_shorter: "pattern_group s = Some r \<Longrightarrow> length r < length s"
proof -
  assume a: "pattern_group s = Some r"
  then have ne: "takeWhile is_digit s \<noteq> []" by (auto simp: pattern_group_def Let_def split: if_splits)
  have l: "length (dropWhile P xs) \<le> length xs" for P and xs :: string by (rule length_dropWhile_le)
  have "length (dropWhile P (dropWhile Q (tl xs))) \<le> length xs" for P Q and xs :: string
    using l [of P "dropWhile Q (tl xs)"] l [of Q "tl xs"] by simp
  with a l have "length r \<le> length (dropWhile is_digit s)"
    by (auto simp: pattern_group_def Let_def split: if_splits)
  with unit_consumed [OF ne] show ?thesis by simp
qed

function duration_pattern :: "string \<Rightarrow> bool" where
  "duration_pattern s =
     (case pattern_group s of None \<Rightarrow> False | Some r \<Rightarrow> r = [] \<or> duration_pattern r)"
  by pat_completeness auto
termination
  by (relation "measure length") (auto dest: pattern_group_shorter)

declare duration_pattern.simps [simp del]

lemma leadingInt_rest: "leadingInt x s = Some (y, r) \<Longrightarrow> r = dropWhile is_digit s"
  by (induction x s rule: leadingInt.induct) (auto simp: Let_def split: if_splits)

lemma leadingFraction_rest: "snd (snd (leadingFraction x sc ov s)) = dropWhile is_digit s"
  by (induction s arbitrary: x sc ov) (simp_all add: Let_def)

lemma dropWhile_shorter: "takeWhile P s \<noteq> [] \<Longrightarrow> length (dropWhile P s) \<noteq> length s"
  using unit_consumed [of P s] by simp

lemma pattern_units: "u \<in> set [''ns'', ''us'', ''ms'', ''s'', ''m'', ''h''] \<Longrightarrow> u \<noteq> [] \<and> unitMap u \<noteq> None"
  by (auto simp: unitMap_def)

lemma parse_segment_pattern:
  assumes "pattern_group s = Some r"
  shows "parse_segment s = Inl InvalidDuration \<or> (\<exists>v. parse_segment s = Inr (v, r))"
proof -
  from assms have ds: "takeWhile is_digit s \<noteq> []" by (auto simp: pattern_group_def Let_def split: if_splits)
  then have hd: "s \<noteq> []" "is_digit (hd s)" by (cases s; auto split: if_splits)+
  show ?thesis
  proof (cases "leadingInt 0 s")
    case None
    with hd show ?thesis by (simp add: parse_segment_def)
  next
    case (Some p)
    define s1 where "s1 = dropWhile is_digit s"
    obtain v where li: "leadingInt 0 s = Some (v, s1)"
      using Some leadingInt_rest by (cases p) (auto simp: s1_def)
    have pre: "length s1 \<noteq> length s" using dropWhile_shorter [OF ds] by (simp add: s1_def)
    obtain f sc s2 post where fr:
      "(if s1 \<noteq> [] \<and> hd s1 = CHR ''.''
        then (case leadingFraction 0 1 False (tl s1) of
                (f, scale, s2) \<Rightarrow> (f, scale, s2, length s2 \<noteq> length (tl s1)))
        else (0, 1, s1, False)) = (f, sc, s2, post)"
      using prod_cases4 by blast
    then have s2: "s2 = (if s1 \<noteq> [] \<and> hd s1 = CHR ''.'' then dropWhile is_digit (tl s1) else s1)"
      using leadingFraction_rest [of 0 1 False "tl s1"] by (auto split: if_splits prod.splits)
    from assms have unit: "takeWhile is_unit_char s2 \<in> set [''ns'', ''us'', ''ms'', ''s'', ''m'', ''h'']"
      and r: "r = dropWhile is_unit_char s2"
      by (auto simp: pattern_group_def Let_def s2 s1_def simp del: set_simps split: if_splits)
    from pattern_units [OF unit] obtain unt
      where "takeWhile is_unit_char s2 \<noteq> []" "unitMap (takeWhile is_unit_char s2) = Some unt" by auto
    with hd li pre fr r show ?thesis
      unfolding parse_segment_def Let_def by (simp only: fr li prod.case option.case) simp
  qed
qed

lemma parse_segments_pattern:
  "duration_pattern s \<Longrightarrow> parse_segments d s = Inl InvalidDuration \<or> (\<exists>x. parse_segments d s = Inr x)"
proof (induction s arbitrary: d rule: duration_pattern.induct)
  case (1 s)
  from "1.prems" obtain r where g: "pattern_group s = Some r" and r: "r = [] \<or> duration_pattern r"
    by (subst (asm) duration_pattern.simps) (auto split: option.splits)
  have rec: "parse_segments d' r = Inl InvalidDuration \<or> (\<exists>x. parse_segments d' r = Inr x)" for d'
    using r "1.IH" [OF g] by (cases "r = []") (auto simp: parse_segments.simps)
  from pattern_group_shorter [OF g] have ne: "s \<noteq> []" by auto
  consider "parse_segment s = Inl InvalidDuration" | v where "parse_segment s = Inr (v, r)"
    using parse_segment_pattern [OF g] by blast
  then show ?case
  proof cases
    case 1
    with ne show ?thesis by (subst (1) parse_segments.simps) simp
  next
    case (2 v)
    with ne rec [of "(d + v) mod 2 ^ 64"] show ?thesis
      by (subst (1 2) parse_segments.simps) (simp add: Let_def)
  qed
qed



end
