(* ===== verification/Types.thy ===== *)
theory Types
  imports GoTime
begin

text \<open>
  The data the operator works on. \<open>CrashLoopPolicySpec\<close>, \<open>ScaledDownWorkloadRef\<close>,
  \<open>CrashLoopPolicyStatus\<close> and \<open>CrashLoopPolicy\<close> are the types of
  \<open>api/v1alpha1/crashlooppolicy_types.go\<close>; the constants are those of
  \<open>internal/controller/constants.go\<close>. The Kubernetes objects (pods, workloads, their metadata)
  are records with the fields the operator reads or writes; a Go pointer field is an \<open>option\<close>,
  a nil slice and an empty one are both the empty list, as they are for every use the code makes.
\<close>

section \<open>Object metadata\<close>

record owner_reference =
  or_kind :: string
  or_name :: string
  or_uid :: string
  or_controller :: "bool option"

record object_meta =
  om_name :: string
  om_namespace :: string
  om_uid :: string
  om_generation :: int64
  om_creationTimestamp :: time
  om_deletionTimestamp :: "time option"
  om_labels :: string_map
  om_annotations :: string_map
  om_ownerReferences :: "owner_reference list"

text \<open>\<open>types.NamespacedName\<close>\<close>

record namespaced_name =
  nn_namespace :: string
  nn_name :: string

record label_requirement =
  lr_key :: string
  lr_operator :: string
  lr_values :: "string list"

record label_selector =
  matchLabels :: "(string \<times> string) list"
  matchExpressions :: "label_requirement list"

section \<open>Pods\<close>

record container_terminated =
  term_reason :: string
  term_finishedAt :: time

text \<open>\<open>ContainerState\<close>: the two alternatives the operator looks at.\<close>

record container_state =
  state_waiting :: "string option"  \<comment> \<open>the reason of \<open>Waiting\<close>\<close>
  state_terminated :: "container_terminated option"

record container_status =
  cs_name :: string
  cs_state :: container_state
  cs_lastTerminationState :: container_state
  cs_restartCount :: int32
  cs_started :: "bool option"

record container_spec =
  c_name :: string
  c_restartPolicy :: "string option"

record pod_condition =
  pc_type :: string
  pc_status :: string
  pc_lastTransitionTime :: time

record pod_status =
  ps_phase :: string
  ps_conditions :: "pod_condition list"
  ps_containerStatuses :: "container_status list"
  ps_initContainerStatuses :: "container_status list"

record pod =
  pod_meta :: object_meta
  pod_initContainers :: "container_spec list"
  pod_status :: pod_status

section \<open>Workloads\<close>

record deployment =
  dep_meta :: object_meta
  dep_replicas :: "int32 option"
  dep_selector :: "label_selector option"

record statefulset =
  sts_meta :: object_meta
  sts_replicas :: "int32 option"
  sts_selector :: "label_selector option"

record cronjob =
  cj_meta :: object_meta
  cj_suspend :: "bool option"

record replicaset =
  rs_meta :: object_meta

record job =
  job_meta :: object_meta

text \<open>\<open>client.Object\<close>, as far as the operator passes objects through that interface.\<close>

datatype client_object =
    DeploymentObj deployment
  | StatefulSetObj statefulset
  | CronJobObj cronjob
  | PodObj pod

section \<open>The CrashLoopPolicy resource (crashlooppolicy_types.go)\<close>

datatype CrashLoopPolicyPhase = PhaseUnset | CrashLoopPolicyPhasePending | CrashLoopPolicyPhaseActive

record CrashLoopPolicySpec =
  WatchReasons :: "string list"
  WatchTerminationReasons :: "string list"
  RestartWindow :: string
  RestartThreshold :: int32
  DurationThreshold :: string
  AllReplicasFailing :: "bool option"
  FailureCorrelation :: string
  Targets :: "string list"
  NamespaceSelector :: "label_selector option"
  ExcludeNamespaces :: "string list"
  ExcludeWorkloadSelector :: "label_selector option"
  ReconcileInterval :: string
  DryRun :: "bool option"

record ScaledDownWorkloadRef =
  ref_kind :: string
  ref_namespace :: string
  ref_name :: string

record condition =
  cond_type :: string
  cond_status :: string
  cond_observedGeneration :: int64
  cond_lastTransitionTime :: time
  cond_reason :: string
  cond_message :: string

record CrashLoopPolicyStatus =
  Phase :: CrashLoopPolicyPhase
  ObservedGeneration :: int64
  Conditions :: "condition list"
  ScaledDownWorkloads :: int32
  ActiveScaledDown :: "ScaledDownWorkloadRef list"
  ActiveScaledDownTruncated :: int32
  LastEvaluationTime :: "time option"

record CrashLoopPolicy =
  pol_meta :: object_meta
  Spec :: CrashLoopPolicySpec
  Status :: CrashLoopPolicyStatus

abbreviation pol_name :: "CrashLoopPolicy \<Rightarrow> string" where
  "pol_name p \<equiv> om_name (pol_meta p)"

section \<open>Constants (constants.go)\<close>

definition RequeueIntervalDefault :: duration where
  "RequeueIntervalDefault = 60 * Second"

definition minimumThresholdRequeue :: duration where
  "minimumThresholdRequeue = Second"

definition DefaultRestartThreshold :: int32 where
  "DefaultRestartThreshold = 10"

definition DefaultDurationThreshold :: string where
  "DefaultDurationThreshold = ''30m''"

definition DefaultDurationThresholdDuration :: duration where
  "DefaultDurationThresholdDuration = 30 * Minute"

definition DefaultWatchReasons :: "string list" where
  "DefaultWatchReasons =
     [''CrashLoopBackOff'', ''ImagePullBackOff'', ''ErrImagePull'',
      ''CreateContainerConfigError'', ''InvalidImageName'', ''RunContainerError'']"

definition DefaultRestartWindow :: duration where
  "DefaultRestartWindow = Hour"

definition DefaultTargets :: "string list" where
  "DefaultTargets = [''Deployment'', ''StatefulSet'', ''CronJob'']"

definition MaxActiveScaledDown :: nat where
  "MaxActiveScaledDown = 1000"

definition AnnotationScaledDownReason :: string where
  "AnnotationScaledDownReason = ''crashloop-operator.lauger.de/scaled-down-reason''"
definition AnnotationScaledDownAt :: string where
  "AnnotationScaledDownAt = ''crashloop-operator.lauger.de/scaled-down-at''"
definition AnnotationPreviousReplicas :: string where
  "AnnotationPreviousReplicas = ''crashloop-operator.lauger.de/previous-replicas''"
definition AnnotationScaledDownBy :: string where
  "AnnotationScaledDownBy = ''crashloop-operator.lauger.de/scaled-down-by''"

definition EventReasonScaledDown :: string where "EventReasonScaledDown = ''WorkloadScaledDown''"
definition EventReasonSuspended :: string where "EventReasonSuspended = ''WorkloadSuspended''"
definition EventReasonDryRun :: string where "EventReasonDryRun = ''WorkloadScaleDownDryRun''"

definition ConditionReady :: string where "ConditionReady = ''Ready''"
definition ConditionDegraded :: string where "ConditionDegraded = ''Degraded''"

lemma annotation_keys_distinct [simp]:
  "AnnotationScaledDownReason \<noteq> AnnotationScaledDownAt"
  "AnnotationScaledDownReason \<noteq> AnnotationPreviousReplicas"
  "AnnotationScaledDownReason \<noteq> AnnotationScaledDownBy"
  "AnnotationScaledDownAt \<noteq> AnnotationPreviousReplicas"
  "AnnotationScaledDownAt \<noteq> AnnotationScaledDownBy"
  "AnnotationPreviousReplicas \<noteq> AnnotationScaledDownBy"
  "AnnotationScaledDownAt \<noteq> AnnotationScaledDownReason"
  "AnnotationPreviousReplicas \<noteq> AnnotationScaledDownReason"
  "AnnotationScaledDownBy \<noteq> AnnotationScaledDownReason"
  "AnnotationPreviousReplicas \<noteq> AnnotationScaledDownAt"
  "AnnotationScaledDownBy \<noteq> AnnotationScaledDownAt"
  "AnnotationScaledDownBy \<noteq> AnnotationPreviousReplicas"
  by (simp_all add: AnnotationScaledDownReason_def AnnotationScaledDownAt_def
      AnnotationPreviousReplicas_def AnnotationScaledDownBy_def)

end
