(* ===== verification/Effective.thy ===== *)
theory Effective
  imports Types
begin

text \<open>
  The effective spec accessors of \<open>internal/controller/policyresolve.go\<close>: every read of a
  defaulted field falls back to the controller's own default, so a policy that never went through
  the API server's defaulting behaves like one that did. \<open>apply_crd_defaults\<close> is that defaulting,
  from the kubebuilder markers of \<open>crashlooppolicy_types.go\<close>.
\<close>

definition effectiveWatchReasons :: "CrashLoopPolicy \<Rightarrow> string list" where
  [effective_defs]: "effectiveWatchReasons p =
     (if length (WatchReasons (Spec p)) > 0 then WatchReasons (Spec p) else DefaultWatchReasons)"

definition effectiveTargets :: "CrashLoopPolicy \<Rightarrow> string list" where
  [effective_defs]: "effectiveTargets p =
     (if length (Targets (Spec p)) > 0 then Targets (Spec p) else DefaultTargets)"

definition effectiveRestartThreshold :: "CrashLoopPolicy \<Rightarrow> int32" where
  [effective_defs]: "effectiveRestartThreshold p =
     (if 0 <s RestartThreshold (Spec p) then RestartThreshold (Spec p) else DefaultRestartThreshold)"

definition effectiveDurationThreshold :: "CrashLoopPolicy \<Rightarrow> duration" where
  [effective_defs]: "effectiveDurationThreshold p =
     fst (parseDuration (DurationThreshold (Spec p)) DefaultDurationThresholdDuration)"

definition effectiveReconcileInterval :: "CrashLoopPolicy \<Rightarrow> duration \<times> bool" where
  [effective_defs]: "effectiveReconcileInterval p =
     (if ReconcileInterval (Spec p) = [] then (RequeueIntervalDefault, True)
      else (case parseDuration (ReconcileInterval (Spec p)) RequeueIntervalDefault of
        (d, ok) \<Rightarrow>
          if \<not> ok \<or> d \<le> 0 then (RequeueIntervalDefault, ok \<and> d > 0) else (d, True)))"

definition effectiveAllReplicasFailing :: "CrashLoopPolicy \<Rightarrow> bool" where
  [effective_defs]: "effectiveAllReplicasFailing p =
     (case AllReplicasFailing (Spec p) of Some b \<Rightarrow> b | None \<Rightarrow> True)"

definition effectiveDryRun :: "CrashLoopPolicy \<Rightarrow> bool" where
  [effective_defs]: "effectiveDryRun p =
     (case DryRun (Spec p) of Some b \<Rightarrow> b | None \<Rightarrow> False)"

definition CorrelationPod :: string where "CorrelationPod = ''Pod''"
definition CorrelationContainer :: string where "CorrelationContainer = ''Container''"

lemma correlation_modes_differ [simp]:
  "CorrelationPod \<noteq> CorrelationContainer" "CorrelationContainer \<noteq> CorrelationPod"
  by (simp_all add: CorrelationPod_def CorrelationContainer_def)

definition effectiveFailureCorrelation :: "CrashLoopPolicy \<Rightarrow> string" where
  [effective_defs]: "effectiveFailureCorrelation p =
     (if FailureCorrelation (Spec p) = CorrelationContainer then CorrelationContainer
      else CorrelationPod)"

definition effectiveTerminationReasons :: "CrashLoopPolicy \<Rightarrow> string list" where
  [effective_defs]: "effectiveTerminationReasons p = WatchTerminationReasons (Spec p)"

definition effectiveRestartWindow :: "CrashLoopPolicy \<Rightarrow> duration" where
  [effective_defs]: "effectiveRestartWindow p =
     fst (parseDuration (RestartWindow (Spec p)) DefaultRestartWindow)"

section \<open>Ranges of the accessors\<close>

lemma effectiveRestartThreshold_pos: "0 < sint (effectiveRestartThreshold p)"
  by (simp add: effectiveRestartThreshold_def DefaultRestartThreshold_def sless_sint)

lemma effectiveReconcileInterval_pos: "0 < fst (effectiveReconcileInterval p)"
  by (auto simp: effectiveReconcileInterval_def RequeueIntervalDefault_def split: prod.splits)

lemma effectiveWatchReasons_nonempty: "effectiveWatchReasons p \<noteq> []"
  by (auto simp: effectiveWatchReasons_def DefaultWatchReasons_def)

lemma parseDuration_is_int64: "is_int64 fb \<Longrightarrow> is_int64 (fst (parseDuration s fb))"
  by (auto simp: parseDuration_def ParseDuration_int64 split: sum.splits)

lemma effectiveDurationThreshold_int64: "is_int64 (effectiveDurationThreshold p)"
  unfolding effectiveDurationThreshold_def
  by (rule parseDuration_is_int64) (simp add: DefaultDurationThresholdDuration_def is_int64_def)

lemma effectiveRestartWindow_int64: "is_int64 (effectiveRestartWindow p)"
  unfolding effectiveRestartWindow_def
  by (rule parseDuration_is_int64) (simp add: DefaultRestartWindow_def is_int64_def)

lemma effectiveFailureCorrelation_cases:
  "effectiveFailureCorrelation p = CorrelationPod \<or> effectiveFailureCorrelation p = CorrelationContainer"
  by (simp add: effectiveFailureCorrelation_def)

section \<open>Defaulting by the API server\<close>

text \<open>
  The API server fills a field that is absent from the object with the default of its
  \<open>+kubebuilder:default\<close> marker. The Go types carry \<open>omitempty\<close>, so a field at its zero value
  is absent.
\<close>

definition default_list :: "'a list \<Rightarrow> 'a list \<Rightarrow> 'a list" where
  "default_list d xs = (if xs = [] then d else xs)"

definition apply_crd_defaults :: "CrashLoopPolicySpec \<Rightarrow> CrashLoopPolicySpec" where
  "apply_crd_defaults s =
     s\<lparr>WatchReasons := default_list
         [''CrashLoopBackOff'', ''ImagePullBackOff'', ''ErrImagePull'',
          ''CreateContainerConfigError'', ''InvalidImageName'', ''RunContainerError'']
         (WatchReasons s),
       RestartWindow := default_list ''1h'' (RestartWindow s),
       RestartThreshold := (if RestartThreshold s = 0 then 10 else RestartThreshold s),
       DurationThreshold := default_list ''30m'' (DurationThreshold s),
       AllReplicasFailing := (case AllReplicasFailing s of None \<Rightarrow> Some True | b \<Rightarrow> b),
       FailureCorrelation := default_list ''Pod'' (FailureCorrelation s),
       Targets := default_list [''Deployment'', ''StatefulSet'', ''CronJob''] (Targets s),
       ExcludeNamespaces := default_list
         [''kube-system'', ''kube-public'', ''kube-node-lease''] (ExcludeNamespaces s),
       ReconcileInterval := default_list ''60s'' (ReconcileInterval s),
       DryRun := (case DryRun s of None \<Rightarrow> Some False | b \<Rightarrow> b)\<rparr>"

lemma ParseDuration_defaults:
  "ParseDuration ''1h'' = Inr Hour" "ParseDuration ''30m'' = Inr (30 * Minute)"
  "ParseDuration ''60s'' = Inr (60 * Second)" "ParseDuration [] = Inl InvalidDuration"
  by code_simp+

text \<open>\<open>DefaultDurationThresholdDuration\<close> is \<open>DefaultDurationThreshold\<close> as a duration, as its comment says.\<close>

lemma default_duration_strings_agree: "parseDuration DefaultDurationThreshold d = (DefaultDurationThresholdDuration, True)"
  by (simp add: parseDuration_def ParseDuration_defaults DefaultDurationThreshold_def DefaultDurationThresholdDuration_def)

text \<open>
  C29: the controller's fallbacks agree with the API server's defaults: for every policy, each
  effective accessor returns the same value before and after the kubebuilder defaults are filled
  in (including the three duration fields, whose default strings parse to the constants).
\<close>

theorem effective_accessors_match_crd_defaults:
  fixes p :: CrashLoopPolicy
  defines "q \<equiv> p\<lparr>Spec := apply_crd_defaults (Spec p)\<rparr>"
  shows "effectiveWatchReasons q = effectiveWatchReasons p \<and>
         effectiveTargets q = effectiveTargets p \<and>
         effectiveRestartThreshold q = effectiveRestartThreshold p \<and>
         effectiveDurationThreshold q = effectiveDurationThreshold p \<and>
         effectiveReconcileInterval q = effectiveReconcileInterval p \<and>
         effectiveAllReplicasFailing q = effectiveAllReplicasFailing p \<and>
         effectiveDryRun q = effectiveDryRun p \<and>
         effectiveFailureCorrelation q = effectiveFailureCorrelation p \<and>
         effectiveTerminationReasons q = effectiveTerminationReasons p \<and>
         effectiveRestartWindow q = effectiveRestartWindow p"
proof (intro conjI)
  note d = q_def apply_crd_defaults_def default_list_def
  note c = DefaultWatchReasons_def DefaultTargets_def DefaultRestartThreshold_def
    DefaultDurationThresholdDuration_def DefaultRestartWindow_def RequeueIntervalDefault_def
    CorrelationContainer_def CorrelationPod_def
  show "effectiveWatchReasons q = effectiveWatchReasons p"
    "effectiveTargets q = effectiveTargets p"
    "effectiveRestartThreshold q = effectiveRestartThreshold p"
    "effectiveFailureCorrelation q = effectiveFailureCorrelation p"
    "effectiveTerminationReasons q = effectiveTerminationReasons p"
    by (simp_all add: effective_defs d c)
  show "effectiveAllReplicasFailing q = effectiveAllReplicasFailing p"
    "effectiveDryRun q = effectiveDryRun p"
    by (simp_all add: effective_defs d split: option.split)
  show "effectiveDurationThreshold q = effectiveDurationThreshold p"
    "effectiveRestartWindow q = effectiveRestartWindow p"
    by (simp_all add: effective_defs d c parseDuration_def ParseDuration_defaults)
  show "effectiveReconcileInterval q = effectiveReconcileInterval p"
    by (simp add: effective_defs d c parseDuration_def ParseDuration_defaults)
qed

end
