(* ===== verification/PodStatus.thy ===== *)
theory PodStatus
  imports Effective
begin

text \<open>
  The predicates on a pod's status (\<open>internal/controller/helpers.go\<close>): which containers are
  waiting for a watched reason, which keep dying for a watched termination reason, the restart
  and duration thresholds. A Go map used as a set of reasons is a HOL set. The functions that
  read the clock take the instant \<open>now\<close>: the clock does not move during one such call.
\<close>

section \<open>Waiting reasons\<close>

text \<open>The loop over one status list: the first container waiting with a watched reason.\<close>

fun first_waiting :: "string set \<Rightarrow> container_status list \<Rightarrow> string option" where
  "first_waiting reasonSet [] = None"
| "first_waiting reasonSet (cs # rest) =
     (case state_waiting (cs_state cs) of
        Some r \<Rightarrow> if r \<in> reasonSet then Some r else first_waiting reasonSet rest
      | None \<Rightarrow> first_waiting reasonSet rest)"

definition podHasFailureReason :: "pod \<Rightarrow> string list \<Rightarrow> string \<times> bool" where
  "podHasFailureReason p watchReasons =
     (let reasonSet = set watchReasons
      in case first_waiting reasonSet (ps_containerStatuses (pod_status p)) of
           Some r \<Rightarrow> (r, True)
         | None \<Rightarrow> (case first_waiting reasonSet (ps_initContainerStatuses (pod_status p)) of
             Some r \<Rightarrow> (r, True)
           | None \<Rightarrow> ([], False)))"

section \<open>Restart loops\<close>

definition ContainerRestartPolicyAlways :: string where "ContainerRestartPolicyAlways = ''Always''"
definition PodSucceeded :: string where "PodSucceeded = ''Succeeded''"
definition PodFailed :: string where "PodFailed = ''Failed''"

definition restartableInitContainers :: "pod \<Rightarrow> string set" where
  "restartableInitContainers p =
     set (map c_name (filter (\<lambda>c. c_restartPolicy c = Some ContainerRestartPolicyAlways)
       (pod_initContainers p)))"

text \<open>
  The closure \<open>check\<close> of \<open>podIsRestartLooping\<close>; every \<open>continue\<close> of its loop body is one
  guard of \<open>container_loops\<close>.
\<close>

definition container_loops ::
  "string set \<Rightarrow> bool \<Rightarrow> string set \<Rightarrow> int32 \<Rightarrow> duration \<Rightarrow> time \<Rightarrow> container_status \<Rightarrow> string option" where
  "container_loops restartable initOnly reasonSet threshold window now cs =
     (if initOnly \<and> cs_name cs \<notin> restartable then None
      else if state_terminated (cs_state cs) \<noteq> None then None
      else if cs_started cs = Some False then None
      else if cs_restartCount cs <s threshold then None
      else case state_terminated (cs_lastTerminationState cs) of
        None \<Rightarrow> None
      | Some term \<Rightarrow>
          if term_reason term = [] then None
          else if term_reason term \<notin> reasonSet then None
          else if time_IsZero (term_finishedAt term) \<or> time_Sub now (term_finishedAt term) > window
          then None
          else Some (term_reason term))"

fun restart_check ::
  "string set \<Rightarrow> bool \<Rightarrow> string set \<Rightarrow> int32 \<Rightarrow> duration \<Rightarrow> time \<Rightarrow> container_status list \<Rightarrow> string \<times> bool" where
  "restart_check restartable initOnly reasonSet threshold window now [] = ([], False)"
| "restart_check restartable initOnly reasonSet threshold window now (cs # rest) =
     (case container_loops restartable initOnly reasonSet threshold window now cs of
        Some r \<Rightarrow> (r, True)
      | None \<Rightarrow> restart_check restartable initOnly reasonSet threshold window now rest)"

definition podIsRestartLooping ::
  "time \<Rightarrow> pod \<Rightarrow> string list \<Rightarrow> int32 \<Rightarrow> duration \<Rightarrow> string \<times> bool" where
  "podIsRestartLooping now p reasons threshold window =
     (if length reasons = 0 then ([], False)
      else if om_deletionTimestamp (pod_meta p) \<noteq> None then ([], False)
      else if ps_phase (pod_status p) = PodSucceeded \<or> ps_phase (pod_status p) = PodFailed
      then ([], False)
      else let reasonSet = set reasons;
               restartable = restartableInitContainers p;
               (reason, ok) = restart_check restartable False reasonSet threshold window now
                                (ps_containerStatuses (pod_status p))
           in if ok then (reason, True)
              else restart_check restartable True reasonSet threshold window now
                     (ps_initContainerStatuses (pod_status p)))"

section \<open>Thresholds\<close>

definition podExceedsRestartThreshold :: "pod \<Rightarrow> int32 \<Rightarrow> bool" where
  "podExceedsRestartThreshold p threshold =
     (list_ex (\<lambda>cs. threshold \<le>s cs_restartCount cs) (ps_containerStatuses (pod_status p)) \<or>
      list_ex (\<lambda>cs. threshold \<le>s cs_restartCount cs) (ps_initContainerStatuses (pod_status p)))"

definition ContainersReady :: string where "ContainersReady = ''ContainersReady''"
definition PodReady :: string where "PodReady = ''Ready''"
definition ConditionFalse :: string where "ConditionFalse = ''False''"

text \<open>The inner loop: the first usable condition of one type.\<close>

fun condition_since :: "string \<Rightarrow> pod_condition list \<Rightarrow> time option" where
  "condition_since condType [] = None"
| "condition_since condType (c # rest) =
     (if pc_type c \<noteq> condType \<or> pc_status c \<noteq> ConditionFalse then condition_since condType rest
      else if \<not> time_IsZero (pc_lastTransitionTime c) then Some (pc_lastTransitionTime c)
      else condition_since condType rest)"

fun since_by_types :: "string list \<Rightarrow> pod_condition list \<Rightarrow> time option" where
  "since_by_types [] cs = None"
| "since_by_types (t # ts) cs =
     (case condition_since t cs of Some x \<Rightarrow> Some x | None \<Rightarrow> since_by_types ts cs)"

definition podFailingSince :: "pod \<Rightarrow> time option" where
  "podFailingSince p = since_by_types [ContainersReady, PodReady] (ps_conditions (pod_status p))"

definition durationThresholdRemaining :: "pod \<Rightarrow> duration \<Rightarrow> time \<Rightarrow> duration \<times> bool" where
  "durationThresholdRemaining p d now =
     (case podFailingSince p of
        None \<Rightarrow> (0, False)
      | Some failingSince \<Rightarrow> (time_Sub (time_Add failingSince d) now, True))"

definition podExceedsDurationThreshold :: "time \<Rightarrow> pod \<Rightarrow> duration \<Rightarrow> bool" where
  "podExceedsDurationThreshold now p d =
     (case durationThresholdRemaining p d now of (remaining, ok) \<Rightarrow> ok \<and> remaining \<le> 0)"

definition thresholdRequeueAfter :: "duration \<Rightarrow> duration" where
  "thresholdRequeueAfter remaining = max remaining minimumThresholdRequeue"

lemmas pod_predicate_defs [pod_defs] =
  podHasFailureReason_def podIsRestartLooping_def podExceedsRestartThreshold_def
  podExceedsDurationThreshold_def durationThresholdRemaining_def podFailingSince_def
  container_loops_def restartableInitContainers_def


section \<open>What the predicates decide\<close>

lemma first_waiting_Some:
  "first_waiting S xs = Some r \<Longrightarrow> r \<in> S \<and> (\<exists>cs \<in> set xs. state_waiting (cs_state cs) = Some r)"
  by (induction S xs rule: first_waiting.induct) (auto split: option.splits if_splits)

lemma first_waiting_None:
  "first_waiting S xs = None \<longleftrightarrow> (\<forall>cs \<in> set xs. \<forall>r. state_waiting (cs_state cs) = Some r \<longrightarrow> r \<notin> S)"
  by (induction S xs rule: first_waiting.induct) (auto split: option.splits)

definition pod_statuses :: "pod \<Rightarrow> container_status list" where
  "pod_statuses p = ps_containerStatuses (pod_status p) @ ps_initContainerStatuses (pod_status p)"

definition waiting_for :: "pod \<Rightarrow> string \<Rightarrow> bool" where
  "waiting_for p r \<longleftrightarrow> (\<exists>cs \<in> set (pod_statuses p). state_waiting (cs_state cs) = Some r)"

lemma podHasFailureReason_cases:
  obtains (found) r where "podHasFailureReason p ws = (r, True)" "r \<in> set ws" "waiting_for p r"
  | (none) "podHasFailureReason p ws = ([], False)" "\<forall>r \<in> set ws. \<not> waiting_for p r"
proof -
  let ?f = "first_waiting (set ws)"
  let ?cs = "ps_containerStatuses (pod_status p)" and ?is = "ps_initContainerStatuses (pod_status p)"
  consider (a) r where "?f ?cs = Some r" | (b) r where "?f ?cs = None" "?f ?is = Some r"
    | (c) "?f ?cs = None" "?f ?is = None" by (cases "?f ?cs"; cases "?f ?is") auto
  then show thesis
  proof cases
    case (a r)
    then show thesis using first_waiting_Some [OF a]
      by (intro found [of r]) (auto simp: podHasFailureReason_def waiting_for_def pod_statuses_def)
  next
    case (b r)
    then show thesis using first_waiting_Some [OF b(2)]
      by (intro found [of r]) (auto simp: podHasFailureReason_def waiting_for_def pod_statuses_def)
  next
    case c
    then have "podHasFailureReason p ws = ([], False)" by (simp add: podHasFailureReason_def)
    moreover have "\<forall>r \<in> set ws. \<not> waiting_for p r"
      using c by (auto simp: waiting_for_def pod_statuses_def first_waiting_None)
    ultimately show thesis by (rule none)
  qed
qed

lemma podHasFailureReason_iff:
  "snd (podHasFailureReason p ws) \<longleftrightarrow> (\<exists>r \<in> set ws. waiting_for p r)"
  by (rule podHasFailureReason_cases [of p ws]) auto

text \<open>
  The waiting check finds a pod exactly when some container or init container waits with a reason of
  the watch list; the reason it reports is then such a reason, and otherwise it is empty.
\<close>

lemma podHasFailureReason_spec:
  "podHasFailureReason p ws = (r, ok) \<Longrightarrow>
     (ok \<longleftrightarrow> (\<exists>r' \<in> set ws. waiting_for p r')) \<and>
     (ok \<longrightarrow> r \<in> set ws \<and> waiting_for p r) \<and> (\<not> ok \<longrightarrow> r = [])"
  by (rule podHasFailureReason_cases [of p ws]) auto

text \<open>A concrete pod for the witnesses: one container, waiting, and one classic init container.\<close>

definition meta0 :: "string \<Rightarrow> string \<Rightarrow> object_meta" where
  "meta0 ns n =
     \<lparr>om_name = n, om_namespace = ns, om_uid = n, om_generation = 1, om_creationTimestamp = 1,
      om_deletionTimestamp = None, om_labels = Map.empty, om_annotations = Map.empty,
      om_ownerReferences = []\<rparr>"

definition cs0 :: "string \<Rightarrow> string option \<Rightarrow> int32 \<Rightarrow> container_terminated option \<Rightarrow> container_status" where
  "cs0 n waiting restarts lastTerm =
     \<lparr>cs_name = n, cs_state = \<lparr>state_waiting = waiting, state_terminated = None\<rparr>,
      cs_lastTerminationState = \<lparr>state_waiting = None, state_terminated = lastTerm\<rparr>,
      cs_restartCount = restarts, cs_started = None\<rparr>"

definition pod0 :: "string \<Rightarrow> container_status list \<Rightarrow> container_status list \<Rightarrow> pod_condition list \<Rightarrow> pod" where
  "pod0 n css inits conds =
     \<lparr>pod_meta = meta0 ''default'' n, pod_initContainers = [],
      pod_status = \<lparr>ps_phase = ''Running'', ps_conditions = conds, ps_containerStatuses = css,
        ps_initContainerStatuses = inits\<rparr>\<rparr>"

lemmas example_defs = meta0_def cs0_def pod0_def

section \<open>Restart loops\<close>

text \<open>What it means for a container to be in a restart loop the policy acts on.\<close>

definition container_in_loop :: "string set \<Rightarrow> int32 \<Rightarrow> duration \<Rightarrow> time \<Rightarrow> container_status \<Rightarrow> string \<Rightarrow> bool" where
  "container_in_loop reasons threshold window now cs r \<longleftrightarrow>
     state_terminated (cs_state cs) = None \<and> cs_started cs \<noteq> Some False \<and>
     sint threshold \<le> sint (cs_restartCount cs) \<and>
     (\<exists>t. state_terminated (cs_lastTerminationState cs) = Some t \<and> term_reason t = r \<and> r \<noteq> [] \<and>
          r \<in> reasons \<and> term_finishedAt t \<noteq> 0 \<and> now - term_finishedAt t \<le> window)"

definition bounded_window :: "duration \<Rightarrow> bool" where
  "bounded_window w \<longleftrightarrow> is_int64 w \<and> w < 2 ^ 63 - 1"

lemma container_loops_iff:
  assumes "bounded_window window"
  shows "container_loops restartable initOnly reasons threshold window now cs = Some r \<longleftrightarrow>
         (initOnly \<longrightarrow> cs_name cs \<in> restartable) \<and> container_in_loop reasons threshold window now cs r"
proof -
  have "time_Sub now t > window \<longleftrightarrow> now - t > window" for t
    using clamp64_le_iff [of window "now - t"] assms by (auto simp: time_Sub_def bounded_window_def)
  then show ?thesis
    by (auto simp: container_loops_def container_in_loop_def sless_sint time_IsZero_def split: option.splits)
qed

lemma restart_check_cases:
  obtains (found) r cs where "restart_check R i S th w now xs = (r, True)" "cs \<in> set xs"
      "container_loops R i S th w now cs = Some r"
  | (none) "restart_check R i S th w now xs = ([], False)"
      "\<forall>cs \<in> set xs. container_loops R i S th w now cs = None"
proof (induction xs arbitrary: thesis)
  case Nil
  then show ?case by simp
next
  case (Cons c xs)
  show ?case
  proof (cases "container_loops R i S th w now c")
    case None
    show ?thesis
    proof (rule Cons.IH)
      fix r cs
      assume "restart_check R i S th w now xs = (r, True)" "cs \<in> set xs"
        "container_loops R i S th w now cs = Some r"
      with None show thesis by (intro Cons.prems(1)) auto
    next
      assume "restart_check R i S th w now xs = ([], False)"
        "\<forall>cs \<in> set xs. container_loops R i S th w now cs = None"
      with None show thesis by (intro Cons.prems(2)) auto
    qed
  next
    case (Some r)
    then show ?thesis by (intro Cons.prems(1) [of r c]) auto
  qed
qed

definition pod_in_loop :: "time \<Rightarrow> pod \<Rightarrow> string list \<Rightarrow> int32 \<Rightarrow> duration \<Rightarrow> string \<Rightarrow> bool" where
  "pod_in_loop now p reasons threshold window r \<longleftrightarrow>
     om_deletionTimestamp (pod_meta p) = None \<and>
     ps_phase (pod_status p) \<notin> {PodSucceeded, PodFailed} \<and>
     (\<exists>cs. (cs \<in> set (ps_containerStatuses (pod_status p)) \<or>
            cs \<in> set (ps_initContainerStatuses (pod_status p)) \<and> cs_name cs \<in> restartableInitContainers p) \<and>
           container_in_loop (set reasons) threshold window now cs r)"

lemma podIsRestartLooping_cases:
  assumes "bounded_window window"
  obtains (found) r where "podIsRestartLooping now p reasons threshold window = (r, True)"
      "pod_in_loop now p reasons threshold window r"
  | (none) "podIsRestartLooping now p reasons threshold window = ([], False)"
      "\<forall>r. \<not> pod_in_loop now p reasons threshold window r"
proof -
  let ?R = "restartableInitContainers p"
  let ?chk = "\<lambda>i. restart_check ?R i (set reasons) threshold window now"
  let ?cs = "ps_containerStatuses (pod_status p)" and ?is = "ps_initContainerStatuses (pod_status p)"
  note iff = container_loops_iff [OF assms]
  show thesis
  proof (cases "reasons = [] \<or> om_deletionTimestamp (pod_meta p) \<noteq> None \<or>
      ps_phase (pod_status p) = PodSucceeded \<or> ps_phase (pod_status p) = PodFailed")
    case True
    then show thesis
      by (intro none) (auto simp: podIsRestartLooping_def pod_in_loop_def container_in_loop_def)
  next
    case False
    then have eq: "podIsRestartLooping now p reasons threshold window =
        (if snd (?chk False ?cs) then (fst (?chk False ?cs), True) else ?chk True ?is)"
      by (simp add: podIsRestartLooping_def Let_def case_prod_beta)
    from restart_check_cases [of ?R False "set reasons" threshold window now ?cs] show thesis
    proof cases
      case f: (found r cs)
      with False iff show thesis by (intro found [of r]) (auto simp: eq pod_in_loop_def)
    next
      case n: none
      from restart_check_cases [of ?R True "set reasons" threshold window now ?is] show thesis
      proof cases
        case f: (found r cs)
        with n False iff show thesis by (intro found [of r]) (auto simp: eq pod_in_loop_def)
      next
        case n': none
        have "\<not> container_in_loop (set reasons) threshold window now cs r"
          if "cs \<in> set ?cs \<or> cs \<in> set ?is \<and> cs_name cs \<in> ?R" for cs r
          using that n(2) n'(2) iff [of ?R False "set reasons" threshold now cs r]
            iff [of ?R True "set reasons" threshold now cs r] by auto
        with n n' show thesis by (intro none) (auto simp: eq pod_in_loop_def)
      qed
    qed
  qed
qed

lemma podIsRestartLooping_iff:
  "bounded_window window \<Longrightarrow>
   snd (podIsRestartLooping now p reasons threshold window) \<longleftrightarrow> (\<exists>r. pod_in_loop now p reasons threshold window r)"
  by (rule podIsRestartLooping_cases [of window now p reasons threshold]) auto


text \<open>
  C14: the restart-loop check matches exactly the situations the documentation lists: the pod is
  neither being deleted nor completed, and one of its containers (or one of its init containers
  declared with restart policy Always) is not terminated, not inside its startup probe, has
  reached the restart threshold, and last exited for a watched reason within the window. The
  reason reported belongs to such a container.
\<close>

theorem podIsRestartLooping_spec:
  assumes "bounded_window window"
    and "podIsRestartLooping now p reasons threshold window = (r, ok)"
  shows "(ok \<longleftrightarrow> (\<exists>r'. pod_in_loop now p reasons threshold window r')) \<and>
         (ok \<longrightarrow> pod_in_loop now p reasons threshold window r \<and> r \<in> set reasons) \<and>
         (\<not> ok \<longrightarrow> r = [])"
  using assms(2)
  by (rule_tac podIsRestartLooping_cases [OF assms(1), of now p reasons threshold])
    (auto simp: pod_in_loop_def container_in_loop_def)

definition oom :: "time \<Rightarrow> container_terminated option" where
  "oom t = Some \<lparr>term_reason = ''OOMKilled'', term_finishedAt = t\<rparr>"

lemma podIsRestartLooping_example:
  "podIsRestartLooping (2 * Hour) (pod0 ''p'' [cs0 ''app'' None 12 (oom (2 * Hour - Minute))] [] [])
     [''OOMKilled''] 10 Hour = (''OOMKilled'', True)"
  by (simp add: podIsRestartLooping_def container_loops_def example_defs oom_def PodSucceeded_def
      PodFailed_def time_Sub_def clamp64_def time_IsZero_def sless_sint)

theorem podIsRestartLooping_spec_witness:
  "pod_in_loop (2 * Hour) (pod0 ''p'' [cs0 ''app'' None 12 (oom (2 * Hour - Minute))] [] [])
     [''OOMKilled''] 10 Hour ''OOMKilled''"
proof -
  have w: "bounded_window Hour" by (simp add: bounded_window_def is_int64_def)
  show ?thesis using podIsRestartLooping_spec [OF w podIsRestartLooping_example] by simp
qed

section \<open>Thresholds\<close>

lemma podExceedsRestartThreshold_iff:
  "podExceedsRestartThreshold p threshold \<longleftrightarrow>
     (\<exists>cs \<in> set (pod_statuses p). sint threshold \<le> sint (cs_restartCount cs))"
  by (auto simp: podExceedsRestartThreshold_def pod_statuses_def list_ex_iff sle_sint)

lemma condition_since_Some:
  "condition_since t cs = Some x \<Longrightarrow>
     x \<noteq> 0 \<and> (\<exists>c \<in> set cs. pc_type c = t \<and> pc_status c = ConditionFalse \<and> pc_lastTransitionTime c = x)"
  by (induction t cs rule: condition_since.induct) (auto simp: time_IsZero_def split: if_splits)

lemma condition_since_None:
  "condition_since t cs = None \<longleftrightarrow>
     (\<forall>c \<in> set cs. pc_type c = t \<and> pc_status c = ConditionFalse \<longrightarrow> pc_lastTransitionTime c = 0)"
  by (induction t cs rule: condition_since.induct) (auto simp: time_IsZero_def)

lemma podExceedsDurationThreshold_iff:
  "podExceedsDurationThreshold now p d \<longleftrightarrow> (\<exists>t. podFailingSince p = Some t \<and> t + d \<le> now)"
  by (auto simp: podExceedsDurationThreshold_def durationThresholdRemaining_def time_Sub_def time_Add_def
      split: option.splits)

lemma podFailingSince_Some:
  "podFailingSince p = Some t \<longleftrightarrow>
     (case condition_since ContainersReady (ps_conditions (pod_status p)) of
        Some x \<Rightarrow> t = x
      | None \<Rightarrow> condition_since PodReady (ps_conditions (pod_status p)) = Some t)"
  by (auto simp: podFailingSince_def split: option.splits)


definition notReady :: "time \<Rightarrow> pod_condition" where
  "notReady t = \<lparr>pc_type = ''Ready'', pc_status = ''False'', pc_lastTransitionTime = t\<rparr>"


end
