(* ===== verification/Correlation.thy ===== *)
theory Correlation
  imports PodStatus
begin

text \<open>
  When every replica counts as failing (\<open>internal/controller/policyresolve.go\<close>):
  \<open>podMatchesPolicy\<close>, \<open>failingContainerNames\<close> and \<open>replicasAllFailing\<close> with its two
  correlation modes. A Go map used as a set of names is a HOL set, the nil map before the first
  replica is \<open>None\<close>.
\<close>

section \<open>The code\<close>

definition podMatchesPolicy :: "time \<Rightarrow> CrashLoopPolicy \<Rightarrow> pod \<Rightarrow> bool" where
  "podMatchesPolicy now p x =
     (if snd (podHasFailureReason x (effectiveWatchReasons p)) then True
      else snd (podIsRestartLooping now x (effectiveTerminationReasons p)
             (effectiveRestartThreshold p) (effectiveRestartWindow p)))"

text \<open>The pod \<open>single\<close> built from one status: only the phase and that status are kept.\<close>

definition single_pod :: "pod \<Rightarrow> container_status \<Rightarrow> pod" where
  "single_pod x cs =
     x\<lparr>pod_status := \<lparr>ps_phase = ps_phase (pod_status x), ps_conditions = [],
        ps_containerStatuses = [cs], ps_initContainerStatuses = []\<rparr>\<rparr>"

definition status_counts :: "time \<Rightarrow> CrashLoopPolicy \<Rightarrow> pod \<Rightarrow> container_status \<Rightarrow> bool" where
  "status_counts now p x cs =
     (if snd (podHasFailureReason (single_pod x cs) (effectiveWatchReasons p)) then True
      else snd (podIsRestartLooping now (single_pod x cs) (effectiveTerminationReasons p)
             (effectiveRestartThreshold p) (effectiveRestartWindow p)))"

fun names_loop :: "time \<Rightarrow> CrashLoopPolicy \<Rightarrow> pod \<Rightarrow> string list \<Rightarrow> container_status list \<Rightarrow> string list" where
  "names_loop now p x names [] = names"
| "names_loop now p x names (cs # rest) =
     names_loop now p x (if status_counts now p x cs then names @ [cs_name cs] else names) rest"

definition failingContainerNames :: "time \<Rightarrow> CrashLoopPolicy \<Rightarrow> pod \<Rightarrow> string list" where
  "failingContainerNames now p x =
     (let names = names_loop now p x [] (ps_containerStatuses (pod_status x))
      in names_loop now p x names (ps_initContainerStatuses (pod_status x)))"

fun correlate :: "time \<Rightarrow> CrashLoopPolicy \<Rightarrow> string set option \<Rightarrow> pod list \<Rightarrow> bool" where
  "correlate now p shared [] = (case shared of None \<Rightarrow> False | Some s \<Rightarrow> s \<noteq> {})"
| "correlate now p shared (x # xs) =
     (let names = failingContainerNames now p x
      in if length names = 0 then False
         else let current = set names
         in case shared of
              None \<Rightarrow> correlate now p (Some current) xs
            | Some s \<Rightarrow>
                (let s' = s \<inter> current
                 in if s' = {} then False else correlate now p (Some s') xs))"

fun all_match :: "time \<Rightarrow> CrashLoopPolicy \<Rightarrow> pod list \<Rightarrow> bool" where
  "all_match now p [] = True"
| "all_match now p (x # xs) = (if \<not> podMatchesPolicy now p x then False else all_match now p xs)"

definition replicasAllFailing :: "time \<Rightarrow> CrashLoopPolicy \<Rightarrow> pod list \<Rightarrow> bool" where
  "replicasAllFailing now p pods =
     (if length pods = 0 then False
      else if effectiveFailureCorrelation p = CorrelationPod then all_match now p pods
      else correlate now p None pods)"

section \<open>Which containers count\<close>

lemma names_loop_eq:
  "names_loop now p x names css = names @ map cs_name (filter (status_counts now p x) css)"
  by (induction css arbitrary: names) auto

lemma failingContainerNames_eq:
  "failingContainerNames now p x = map cs_name (filter (status_counts now p x) (pod_statuses x))"
  by (simp add: failingContainerNames_def names_loop_eq pod_statuses_def)

text \<open>The restart loop of one container, seen by the policy.\<close>

definition loops_for :: "time \<Rightarrow> CrashLoopPolicy \<Rightarrow> pod \<Rightarrow> container_status \<Rightarrow> bool" where
  "loops_for now p x cs \<longleftrightarrow>
     om_deletionTimestamp (pod_meta x) = None \<and>
     ps_phase (pod_status x) \<notin> {PodSucceeded, PodFailed} \<and>
     (\<exists>r. container_in_loop (set (effectiveTerminationReasons p)) (effectiveRestartThreshold p)
            (effectiveRestartWindow p) now cs r)"

definition waits_for :: "CrashLoopPolicy \<Rightarrow> container_status \<Rightarrow> bool" where
  "waits_for p cs \<longleftrightarrow> (\<exists>r \<in> set (effectiveWatchReasons p). state_waiting (cs_state cs) = Some r)"

definition policy_window_bounded :: "CrashLoopPolicy \<Rightarrow> bool" where
  "policy_window_bounded p \<longleftrightarrow> bounded_window (effectiveRestartWindow p)"

lemma status_counts_iff:
  assumes "policy_window_bounded p"
  shows "status_counts now p x cs \<longleftrightarrow> waits_for p cs \<or> loops_for now p x cs"
  using podIsRestartLooping_iff [of "effectiveRestartWindow p"] assms
  by (auto simp: status_counts_def podHasFailureReason_iff policy_window_bounded_def single_pod_def
      waiting_for_def pod_statuses_def waits_for_def loops_for_def pod_in_loop_def)

lemma podMatchesPolicy_iff:
  assumes "policy_window_bounded p"
  shows "podMatchesPolicy now p x \<longleftrightarrow>
     (\<exists>cs \<in> set (pod_statuses x). waits_for p cs) \<or>
     (\<exists>cs. (cs \<in> set (ps_containerStatuses (pod_status x)) \<or>
            cs \<in> set (ps_initContainerStatuses (pod_status x)) \<and> cs_name cs \<in> restartableInitContainers x) \<and>
           loops_for now p x cs)"
  using podIsRestartLooping_iff [of "effectiveRestartWindow p"] assms
  by (auto simp: podMatchesPolicy_def podHasFailureReason_iff policy_window_bounded_def
      waiting_for_def waits_for_def loops_for_def pod_in_loop_def)

section \<open>The two correlation modes\<close>

lemma all_match_iff: "all_match now p xs \<longleftrightarrow> (\<forall>x \<in> set xs. podMatchesPolicy now p x)"
  by (induction xs) auto

lemma correlate_Some:
  "S \<noteq> {} \<Longrightarrow> correlate now p (Some S) xs \<longleftrightarrow>
     (\<exists>n \<in> S. \<forall>x \<in> set xs. n \<in> set (failingContainerNames now p x))"
proof (induction xs arbitrary: S)
  case (Cons x xs)
  let ?S = "S \<inter> set (failingContainerNames now p x)"
  show ?case
  proof (cases "?S = {}")
    case False
    then show ?thesis using Cons.IH [OF False] by (auto simp: Let_def)
  qed (auto simp: Let_def)
qed auto

lemma correlate_None:
  "xs \<noteq> [] \<Longrightarrow> correlate now p None xs \<longleftrightarrow>
     (\<exists>n. \<forall>x \<in> set xs. n \<in> set (failingContainerNames now p x))"
proof (cases xs)
  case (Cons x ys)
  let ?S = "set (failingContainerNames now p x)"
  show ?thesis
  proof (cases "?S = {}")
    case False
    then show ?thesis using Cons correlate_Some [OF False, of now p ys] by (auto simp: Let_def)
  qed (simp add: Cons)
qed simp

lemma replicasAllFailing_iff:
  "replicasAllFailing now p pods \<longleftrightarrow>
     pods \<noteq> [] \<and>
     (if effectiveFailureCorrelation p = CorrelationPod
      then (\<forall>x \<in> set pods. podMatchesPolicy now p x)
      else (\<exists>n. \<forall>x \<in> set pods. n \<in> set (failingContainerNames now p x)))"
  by (auto simp: replicasAllFailing_def all_match_iff correlate_None)

lemma replicasAllFailing_set_cong:
  "set pods = set pods' \<Longrightarrow> replicasAllFailing now p pods = replicasAllFailing now p pods'"
  by (auto simp: replicasAllFailing_iff)


text \<open>Examples: a policy watching OOM kills, and a pod whose classic init container loops.\<close>

definition spec0 :: CrashLoopPolicySpec where
  "spec0 =
     \<lparr>WatchReasons = [], WatchTerminationReasons = [], RestartWindow = [], RestartThreshold = 0,
      DurationThreshold = [], AllReplicasFailing = None, FailureCorrelation = [], Targets = [],
      NamespaceSelector = None, ExcludeNamespaces = [], ExcludeWorkloadSelector = None,
      ReconcileInterval = [], DryRun = None\<rparr>"

definition status0 :: CrashLoopPolicyStatus where
  "status0 =
     \<lparr>Phase = PhaseUnset, ObservedGeneration = 0, Conditions = [], ScaledDownWorkloads = 0,
      ActiveScaledDown = [], ActiveScaledDownTruncated = 0, LastEvaluationTime = None\<rparr>"

definition policy0 :: "string \<Rightarrow> CrashLoopPolicySpec \<Rightarrow> CrashLoopPolicy" where
  "policy0 n s = \<lparr>pol_meta = meta0 [] n, Spec = s, Status = status0\<rparr>"

lemmas policy_example_defs = example_defs spec0_def status0_def policy0_def

definition with_correlation :: "string \<Rightarrow> CrashLoopPolicy \<Rightarrow> CrashLoopPolicy" where
  "with_correlation m p = p\<lparr>Spec := (Spec p)\<lparr>FailureCorrelation := m\<rparr>\<rparr>"

lemma effective_with_correlation [simp]:
  "effectiveWatchReasons (with_correlation m p) = effectiveWatchReasons p"
  "effectiveTerminationReasons (with_correlation m p) = effectiveTerminationReasons p"
  "effectiveRestartThreshold (with_correlation m p) = effectiveRestartThreshold p"
  "effectiveRestartWindow (with_correlation m p) = effectiveRestartWindow p"
  "effectiveFailureCorrelation (with_correlation m p) =
     (if m = CorrelationContainer then CorrelationContainer else CorrelationPod)"
  by (simp_all add: effective_defs with_correlation_def)

lemma failing_names_with_correlation [simp]:
  "failingContainerNames now (with_correlation m p) x = failingContainerNames now p x"
  "podMatchesPolicy now (with_correlation m p) x = podMatchesPolicy now p x"
  by (simp_all add: failingContainerNames_eq status_counts_def [abs_def] podMatchesPolicy_def)

definition only_sidecar_inits :: "pod \<Rightarrow> bool" where
  "only_sidecar_inits x \<longleftrightarrow>
     (\<forall>cs \<in> set (ps_initContainerStatuses (pod_status x)). cs_name cs \<in> restartableInitContainers x)"

text \<open>
  C33: Container correlation is the stricter mode for pods whose init containers are all sidecars:
  whenever it considers the replicas failing, so does Pod correlation.
\<close>

theorem container_correlation_stricter:
  assumes "policy_window_bounded p" "\<forall>x \<in> set pods. only_sidecar_inits x"
    and "replicasAllFailing now (with_correlation CorrelationContainer p) pods"
  shows "replicasAllFailing now (with_correlation CorrelationPod p) pods"
proof -
  have "podMatchesPolicy now p x" if x: "x \<in> set pods" for x
  proof -
    from assms(3) x obtain n where "n \<in> set (failingContainerNames now p x)"
      by (auto simp: replicasAllFailing_iff)
    then obtain cs where cs: "cs \<in> set (pod_statuses x)" "status_counts now p x cs"
      by (auto simp: failingContainerNames_eq)
    then have "waits_for p cs \<or> loops_for now p x cs"
      using status_counts_iff [OF assms(1)] by simp
    with cs(1) assms(2) x show ?thesis
      by (auto simp: podMatchesPolicy_iff [OF assms(1)] only_sidecar_inits_def pod_statuses_def)
  qed
  with assms(3) show ?thesis by (auto simp: replicasAllFailing_iff)
qed


definition oom_policy :: CrashLoopPolicy where
  "oom_policy = policy0 ''oom'' (spec0\<lparr>WatchTerminationReasons := [''OOMKilled'']\<rparr>)"

lemma oom_policy_effective [simp]:
  "effectiveWatchReasons oom_policy = DefaultWatchReasons"
  "effectiveTerminationReasons oom_policy = [''OOMKilled'']"
  "effectiveRestartThreshold oom_policy = 10"
  "effectiveRestartWindow oom_policy = Hour"
  by (simp_all add: effective_defs oom_policy_def policy_example_defs DefaultRestartThreshold_def
      parseDuration_def ParseDuration_defaults DefaultRestartWindow_def sless_sint)

lemma oom_policy_bounded: "policy_window_bounded oom_policy"
  by (simp add: policy_window_bounded_def bounded_window_def is_int64_def)

definition waiting_pod :: "string \<Rightarrow> pod" where
  "waiting_pod n = pod0 n [cs0 ''app'' (Some ''CrashLoopBackOff'') 3 None] [] []"

lemma waiting_pod_facts:
  "failingContainerNames now oom_policy (waiting_pod n) = [''app'']" "only_sidecar_inits (waiting_pod n)"
  by (simp_all add: failingContainerNames_eq waiting_pod_def pod_statuses_def status_counts_def
      podHasFailureReason_def single_pod_def example_defs DefaultWatchReasons_def only_sidecar_inits_def)

theorem container_correlation_stricter_witness:
  "replicasAllFailing 0 (with_correlation CorrelationContainer oom_policy) [waiting_pod ''a'', waiting_pod ''b''] \<and>
   replicasAllFailing 0 (with_correlation CorrelationPod oom_policy) [waiting_pod ''a'', waiting_pod ''b'']"
proof -
  let ?pods = "[waiting_pod ''a'', waiting_pod ''b'']"
  have c: "replicasAllFailing 0 (with_correlation CorrelationContainer oom_policy) ?pods"
    by (simp add: replicasAllFailing_def waiting_pod_facts)
  have i: "\<forall>x \<in> set ?pods. only_sidecar_inits x" by (simp add: waiting_pod_facts)
  show ?thesis using c container_correlation_stricter [OF oom_policy_bounded i c] by blast
qed

text \<open>A pod in its init phase: the classic init container \<open>migrate\<close> is OOM-killed again and again.\<close>

definition init_looping_pod :: pod where
  "init_looping_pod =
     pod0 ''web-0'' [cs0 ''app'' None 0 None] [cs0 ''migrate'' None 12 (oom (2 * Hour - Minute))] []"

text \<open>
  C33: \<open>failingContainerNames\<close> puts every status into the regular-container list of its
  one-container pod, so a classic init container that \<open>podIsRestartLooping\<close> deliberately ignores
  is counted in Container mode. For such a pod Container correlation reports all replicas failing
  although Pod correlation does not: it acts in a situation where the documented weaker mode holds
  off.
\<close>

lemma container_mode_counts_classic_init:
  "\<not> podMatchesPolicy (2 * Hour) oom_policy init_looping_pod \<and>
   failingContainerNames (2 * Hour) oom_policy init_looping_pod = [''migrate''] \<and>
   replicasAllFailing (2 * Hour) (with_correlation CorrelationContainer oom_policy) [init_looping_pod] \<and>
   \<not> replicasAllFailing (2 * Hour) (with_correlation CorrelationPod oom_policy) [init_looping_pod]"
proof -
  have m: "\<not> podMatchesPolicy (2 * Hour) oom_policy init_looping_pod"
    by (simp add: podMatchesPolicy_def podHasFailureReason_def podIsRestartLooping_def container_loops_def
        init_looping_pod_def example_defs PodSucceeded_def PodFailed_def sless_sint
        restartableInitContainers_def)
  have n: "failingContainerNames (2 * Hour) oom_policy init_looping_pod = [''migrate'']"
    by (simp add: failingContainerNames_eq status_counts_def podHasFailureReason_def podIsRestartLooping_def
        container_loops_def init_looping_pod_def example_defs PodSucceeded_def PodFailed_def sless_sint
        single_pod_def pod_statuses_def oom_def time_IsZero_def time_Sub_def clamp64_def)
  show ?thesis using m n by (simp add: replicasAllFailing_def)
qed

end
