(* ===== verification/Metrics.thy ===== *)
theory Metrics
  imports Prelude
begin

text \<open>
  The Prometheus vectors of \<open>internal/controller/metrics.go\<close>, their registration, and the
  operations the operator applies to a series of a vector. The constructors of \<open>metric_vec\<close> are the
  package's variables. Values are integers: every float the operator passes is one.
\<close>

section \<open>Vectors\<close>

datatype metric_vec = scaledDownTotal | workloadsScaledDown | policyEvaluationErrors | policyReady

datatype vec_kind = CounterVec | GaugeVec

record vec_desc =
  vd_kind :: vec_kind
  vd_name :: string
  vd_help :: string
  vd_labels :: "string list"

fun metric_desc :: "metric_vec \<Rightarrow> vec_desc" where
  "metric_desc scaledDownTotal =
     \<lparr>vd_kind = CounterVec, vd_name = ''crashloop_scaled_down_total'',
      vd_help = ''Total workloads scaled down or suspended, including dry-run actions.'',
      vd_labels = [''policy'', ''namespace'', ''kind'', ''reason'', ''dry_run'']\<rparr>"
| "metric_desc workloadsScaledDown =
     \<lparr>vd_kind = GaugeVec, vd_name = ''crashloop_workloads_scaled_down'',
      vd_help = ''Workloads currently scaled down or suspended by this policy.'',
      vd_labels = [''policy'']\<rparr>"
| "metric_desc policyEvaluationErrors =
     \<lparr>vd_kind = CounterVec, vd_name = ''crashloop_policy_evaluation_errors_total'',
      vd_help = ''Per-workload errors during evaluation that did not fail the reconcile.'',
      vd_labels = [''policy'']\<rparr>"
| "metric_desc policyReady =
     \<lparr>vd_kind = GaugeVec, vd_name = ''crashloop_policy_ready'',
      vd_help = ''1 when the policy's last evaluation completed without errors, 0 otherwise.'',
      vd_labels = [''policy'']\<rparr>"

text \<open>The argument of \<open>metrics.Registry.MustRegister\<close> in \<open>init\<close>.\<close>

definition registered_vectors :: "metric_vec list" where
  "registered_vectors = [scaledDownTotal, workloadsScaledDown, policyEvaluationErrors, policyReady]"

section \<open>Operations on a series\<close>

datatype metric_act = Inc | Add int | SetTo int | DeleteLabelValues

text \<open>
  Which calls the client library accepts: \<open>WithLabelValues\<close> panics unless it is given one value per
  label of the vector, a counter panics on a negative increment and has no \<open>Set\<close>, and a vector that
  is not registered exports nothing.
\<close>

definition metric_call_ok :: "metric_vec \<Rightarrow> string list \<Rightarrow> metric_act \<Rightarrow> bool" where
  "metric_call_ok v labels a \<longleftrightarrow>
     v \<in> set registered_vectors \<and> length labels = length (vd_labels (metric_desc v)) \<and>
     (case a of
        Inc \<Rightarrow> True
      | Add d \<Rightarrow> vd_kind (metric_desc v) = CounterVec \<longrightarrow> 0 \<le> d
      | SetTo x \<Rightarrow> vd_kind (metric_desc v) = GaugeVec
      | DeleteLabelValues \<Rightarrow> True)"

text \<open>What an operation makes of the value of its series; \<open>None\<close> is a series that does not exist.\<close>

fun act_on_value :: "metric_act \<Rightarrow> int option \<Rightarrow> int option" where
  "act_on_value Inc v = Some ((case v of None \<Rightarrow> 0 | Some x \<Rightarrow> x) + 1)"
| "act_on_value (Add d) v = Some ((case v of None \<Rightarrow> 0 | Some x \<Rightarrow> x) + d)"
| "act_on_value (SetTo x) v = Some x"
| "act_on_value DeleteLabelValues v = None"

text \<open>The names of the registered vectors differ, so that \<open>MustRegister\<close> does not panic.\<close>

lemma registered_names_distinct: "distinct (map (\<lambda>v. vd_name (metric_desc v)) registered_vectors)"
  by (simp add: registered_vectors_def)

lemma all_registered [simp]: "v \<in> set registered_vectors"
  by (cases v) (simp_all add: registered_vectors_def)

end
