(* ===== verification/Client.thy ===== *)
theory Client
  imports Correlation Metrics
begin

text \<open>
  What the operator runs against, as parameters of the model: the API client, the third-party
  functions it calls, the clock. A program of the model is a \<open>State_Monad\<close> computation over
  \<open>'w ost\<close>: the world \<open>'w\<close> (cluster, other actors, clock) which only the client's functions can
  read or change, the trace of the effects the operator has had (API writes with their outcome,
  metrics, events), and the namespace cache of the current reconcile pass.

  Nothing is assumed about a client here. Each request may answer anything and may change the
  world, so a theorem without a hypothesis on the client holds under every interleaving with
  other controllers.
\<close>

section \<open>Errors\<close>

text \<open>An error of the API machinery, with the message \<open>fmt.Errorf\<close> may wrap around it.\<close>

datatype api_error = NotFound | Conflict | Failed string | Wrapped string api_error

fun IsNotFound :: "api_error \<Rightarrow> bool" where
  "IsNotFound NotFound = True"
| "IsNotFound (Wrapped m e) = IsNotFound e"
| "IsNotFound e = False"

fun IsConflict :: "api_error \<Rightarrow> bool" where
  "IsConflict Conflict = True"
| "IsConflict (Wrapped m e) = IsConflict e"
| "IsConflict e = False"

text \<open>\<open>client.IgnoreNotFound(err)\<close>\<close>

definition IgnoreNotFound :: "api_error \<Rightarrow> api_error option" where
  "IgnoreNotFound e = (if IsNotFound e then None else Some e)"

section \<open>Effects\<close>

text \<open>\<open>autoscalingv1.Scale\<close>: the replica count of its spec.\<close>

record scale =
  sc_replicas :: int32

datatype api_write =
    UpdateObject client_object
  | UpdateScale client_object scale
  | UpdatePolicyStatus CrashLoopPolicy

datatype effect =
    ApiWrite api_write "api_error option"
  | Metric metric_vec "string list" metric_act
  | Event string string string  \<comment> \<open>policy, reason, message\<close>

text \<open>A label selector after parsing: the methods the operator calls on it.\<close>

record selector =
  sel_matches :: "string_map \<Rightarrow> bool"
  sel_empty :: bool

record namespace =
  ns_name :: string
  ns_labels :: string_map

section \<open>The environment\<close>

record 'w ost =
  world :: 'w
  trace :: "effect list"
  nsCache :: "string \<rightharpoonup> string set option"

type_synonym ('w, 'a) prog = "('w ost, 'a) state"

text \<open>The typed requests of \<open>client.Client\<close>, and the clock.\<close>

record 'w client =
  c_now :: "('w, time) state"
  c_getPolicy :: "namespaced_name \<Rightarrow> ('w, api_error + CrashLoopPolicy) state"
  c_listPolicies :: "('w, api_error + CrashLoopPolicy list) state"
  c_getDeployment :: "namespaced_name \<Rightarrow> ('w, api_error + deployment) state"
  c_getStatefulSet :: "namespaced_name \<Rightarrow> ('w, api_error + statefulset) state"
  c_getCronJob :: "namespaced_name \<Rightarrow> ('w, api_error + cronjob) state"
  c_getReplicaSet :: "namespaced_name \<Rightarrow> ('w, api_error + replicaset) state"
  c_getJob :: "namespaced_name \<Rightarrow> ('w, api_error + job) state"
  c_getPod :: "namespaced_name \<Rightarrow> ('w, api_error + pod) state"
  c_listPodsByField :: "string \<Rightarrow> string \<Rightarrow> ('w, api_error + pod list) state"
  c_listPodsBySelector :: "string \<Rightarrow> selector \<Rightarrow> ('w, api_error + pod list) state"
  c_listPodsIn :: "string \<Rightarrow> ('w, api_error + pod list) state"
  c_listJobsIn :: "string \<Rightarrow> ('w, api_error + job list) state"
  c_listDeployments :: "('w, api_error + deployment list) state"
  c_listStatefulSets :: "('w, api_error + statefulset list) state"
  c_listCronJobs :: "('w, api_error + cronjob list) state"
  c_listNamespaces :: "selector \<Rightarrow> ('w, api_error + namespace list) state"
  c_update :: "client_object \<Rightarrow> ('w, api_error + client_object) state"
  c_getScale :: "client_object \<Rightarrow> ('w, api_error + scale) state"
  c_updateScale :: "client_object \<Rightarrow> scale \<Rightarrow> ('w, api_error + scale) state"
  c_updateStatus :: "CrashLoopPolicy \<Rightarrow> ('w, api_error + CrashLoopPolicy) state"

text \<open>
  Third-party functions: \<open>metav1.GetControllerOf\<close> (on the owner references it reads),
  \<open>metav1.LabelSelectorAsSelector\<close>, \<open>meta.SetStatusCondition\<close> (with the instant it may stamp),
  \<open>equality.Semantic.DeepEqual\<close> on policy statuses, and \<open>slices.SortFunc\<close> on jobs by creation
  time, which is not stable and so not determined by its input order.
\<close>

record lib =
  GetControllerOf :: "owner_reference list \<Rightarrow> owner_reference option"
  LabelSelectorAsSelector :: "label_selector option \<Rightarrow> api_error + selector"
  SetStatusCondition :: "time \<Rightarrow> condition list \<Rightarrow> condition \<Rightarrow> condition list"
  StatusDeepEqual :: "CrashLoopPolicyStatus \<Rightarrow> CrashLoopPolicyStatus \<Rightarrow> bool"
  SortJobs :: "job list \<Rightarrow> job list"

text \<open>
  \<open>retry.RetryOnConflict(retry.DefaultRetry, fn)\<close> at the four types of closures the operator
  passes to it; \<open>'l\<close> is what the closure captures and may change.
\<close>

type_synonym ('w, 'l) closure = "'l \<Rightarrow> ('w, api_error option \<times> 'l) prog"

record 'w retriers =
  retryPolicy :: "('w, CrashLoopPolicy) closure \<Rightarrow> ('w, CrashLoopPolicy) closure"
  retryObject :: "('w, client_object \<times> int32) closure \<Rightarrow> ('w, client_object \<times> int32) closure"
  retryScale :: "('w, scale) closure \<Rightarrow> ('w, scale) closure"
  retryCronJob :: "('w, cronjob) closure \<Rightarrow> ('w, cronjob) closure"

record 'w env =
  cl :: "'w client"
  lb :: lib
  rt :: "'w retriers"

section \<open>Programs\<close>

definition api :: "('w, 'a) state \<Rightarrow> ('w, 'a) prog" where
  "api m = State (\<lambda>s. case run_state m (world s) of (a, w) \<Rightarrow> (a, s\<lparr>world := w\<rparr>))"

definition emit :: "effect \<Rightarrow> ('w, unit) prog" where
  "emit e = State (\<lambda>s. ((), s\<lparr>trace := trace s @ [e]\<rparr>))"

definition get_cache :: "('w, string \<rightharpoonup> string set option) prog" where
  "get_cache = State (\<lambda>s. (nsCache s, s))"

definition put_cache :: "(string \<rightharpoonup> string set option) \<Rightarrow> ('w, unit) prog" where
  "put_cache c = State (\<lambda>s. ((), s\<lparr>nsCache := c\<rparr>))"

definition err_of :: "'e + 'a \<Rightarrow> 'e option" where
  "err_of r = (case r of Inl e \<Rightarrow> Some e | Inr _ \<Rightarrow> None)"

text \<open>A write request: sent to the client, recorded with its outcome.\<close>

definition api_request :: "api_write \<Rightarrow> ('w, api_error + 'a) state \<Rightarrow> ('w, api_error + 'a) prog" where
  "api_request a m = do { r \<leftarrow> api m; emit (ApiWrite a (err_of r)); State_Monad.return r }"

definition ret :: "'a \<Rightarrow> ('w, 'a) prog" where
  "ret = State_Monad.return"

text \<open>\<open>x, err := m; if err != nil { return err }\<close>, then the rest of the function.\<close>

definition bindE :: "('w, 'e + 'a) prog \<Rightarrow> ('a \<Rightarrow> ('w, 'e + 'b) prog) \<Rightarrow> ('w, 'e + 'b) prog" where
  "bindE m f = do { r \<leftarrow> m; case r of Inl e \<Rightarrow> ret (Inl e) | Inr a \<Rightarrow> f a }"

definition time_now :: "'w env \<Rightarrow> ('w, time) prog" where
  "time_now E = api (c_now (cl E))"

lemma run_api: "run_state (api m) s = (case run_state m (world s) of (a, w) \<Rightarrow> (a, s\<lparr>world := w\<rparr>))"
  by (simp add: api_def)

lemma run_emit [simp]: "run_state (emit e) s = ((), s\<lparr>trace := trace s @ [e]\<rparr>)"
  by (simp add: emit_def)

lemma run_ret [simp]: "run_state (ret a) s = (a, s)"
  by (simp add: ret_def)

lemma run_get_cache [simp]: "run_state get_cache s = (nsCache s, s)"
  by (simp add: get_cache_def)

lemma run_put_cache [simp]: "run_state (put_cache c) s = ((), s\<lparr>nsCache := c\<rparr>)"
  by (simp add: put_cache_def)

lemma run_bindE: "run_state (bindE m f) s =
    (case run_state m s of (Inl e, s') \<Rightarrow> (Inl e, s') | (Inr a, s') \<Rightarrow> run_state (f a) s')"
  by (simp add: bindE_def split: prod.split sum.split)

lemmas run_prog = run_api run_bindE run_state_bind

section \<open>Which effects a program can have\<close>

definition emits :: "(effect \<Rightarrow> bool) \<Rightarrow> ('w, 'a) prog \<Rightarrow> bool" where
  "emits P m \<longleftrightarrow> (\<forall>s. \<exists>es. trace (snd (run_state m s)) = trace s @ es \<and> list_all P es)"

lemma emitsI:
  "(\<And>s a s'. run_state m s = (a, s') \<Longrightarrow> \<exists>es. trace s' = trace s @ es \<and> list_all P es) \<Longrightarrow> emits P m"
  unfolding emits_def by (metis prod.collapse)

lemma emitsD:
  "emits P m \<Longrightarrow> run_state m s = (a, s') \<Longrightarrow> \<exists>es. trace s' = trace s @ es \<and> list_all P es"
  unfolding emits_def by (metis snd_conv)

lemma emits_mono: "emits P m \<Longrightarrow> (\<And>e. P e \<Longrightarrow> Q e) \<Longrightarrow> emits Q m"
  unfolding emits_def by (metis list.pred_mono_strong)

lemma emits_ret [emits_intros]: "emits P (ret a)"
  by (simp add: emits_def)

lemma emits_return [emits_intros]: "emits P (State_Monad.return a)"
  by (simp add: emits_def)

lemma emits_api [emits_intros]: "emits P (api m)"
  by (simp add: emits_def run_api split: prod.split)

lemma emits_emit [emits_intros]: "P e \<Longrightarrow> emits P (emit e)"
  by (simp add: emits_def)

lemma emits_get_cache [emits_intros]: "emits P get_cache"
  by (simp add: emits_def)

lemma emits_put_cache [emits_intros]: "emits P (put_cache c)"
  by (simp add: emits_def)

lemma emits_time_now [emits_intros]: "emits P (time_now E)"
  by (simp add: time_now_def emits_api)

lemma emits_bind [emits_intros]:
  assumes "emits P m" "\<And>a. emits P (f a)"
  shows "emits P (State_Monad.bind m f)"
proof (rule emitsI)
  fix s a s'
  assume r: "run_state (State_Monad.bind m f) s = (a, s')"
  obtain b t where m: "run_state m s = (b, t)" by force
  with r have "run_state (f b) t = (a, s')" by simp
  with assms m show "\<exists>es. trace s' = trace s @ es \<and> list_all P es"
    using emitsD [OF assms(1) m] emitsD [OF assms(2)] by fastforce
qed

lemma emits_bindE [emits_intros]: "emits P m \<Longrightarrow> (\<And>a. emits P (f a)) \<Longrightarrow> emits P (bindE m f)"
  unfolding bindE_def by (intro emits_bind) (auto intro: emits_ret split: sum.split)

lemma emits_request [emits_intros]: "(\<And>e. P (ApiWrite a e)) \<Longrightarrow> emits P (api_request a m)"
  unfolding api_request_def by (intro emits_intros) auto

lemma emits_if [emits_intros]: "(b \<Longrightarrow> emits P m) \<Longrightarrow> (\<not> b \<Longrightarrow> emits P n) \<Longrightarrow> emits P (if b then m else n)"
  by simp

lemma emits_option [emits_intros]:
  "emits P m \<Longrightarrow> (\<And>x. emits P (f x)) \<Longrightarrow> emits P (case o' of None \<Rightarrow> m | Some x \<Rightarrow> f x)"
  by (cases o') auto

lemma emits_sum [emits_intros]:
  "(\<And>x. emits P (f x)) \<Longrightarrow> (\<And>x. emits P (g x)) \<Longrightarrow> emits P (case r of Inl x \<Rightarrow> f x | Inr x \<Rightarrow> g x)"
  by (cases r) auto

lemma emits_prod [emits_intros]: "(\<And>x y. emits P (f x y)) \<Longrightarrow> emits P (case p of (x, y) \<Rightarrow> f x y)"
  by (cases p) auto

lemma emits_let [emits_intros]: "emits P (f a) \<Longrightarrow> emits P (Let a f)"
  by simp

section \<open>RetryOnConflict\<close>

text \<open>
  The documented behaviour of \<open>retry.RetryOnConflict\<close>: run the closure; return its result when
  it succeeds or fails with anything but a conflict, or when the attempts are used up; on a
  conflict, wait (others may change the world meanwhile, the operator does nothing) and run it
  again with what it captured as the last attempt left it.
\<close>

inductive retry_run :: "('w, 'l) closure \<Rightarrow> 'l \<Rightarrow> 'w ost \<Rightarrow> (api_error option \<times> 'l) \<times> 'w ost \<Rightarrow> bool"
  for f where
  retry_stop: "run_state (f l) s = out \<Longrightarrow> retry_run f l s out"
| retry_again: "run_state (f l) s = ((Some e, l'), s') \<Longrightarrow> IsConflict e \<Longrightarrow>
    trace s'' = trace s' \<Longrightarrow> nsCache s'' = nsCache s' \<Longrightarrow> retry_run f l' s'' out \<Longrightarrow> retry_run f l s out"

definition retry_contract :: "(('w, 'l) closure \<Rightarrow> ('w, 'l) closure) \<Rightarrow> bool" where
  "retry_contract r \<longleftrightarrow> (\<forall>f l s. retry_run f l s (run_state (r f l) s))"

definition retriers_ok :: "'w env \<Rightarrow> bool" where
  "retriers_ok E \<longleftrightarrow> retry_contract (retryPolicy (rt E)) \<and> retry_contract (retryObject (rt E)) \<and>
     retry_contract (retryScale (rt E)) \<and> retry_contract (retryCronJob (rt E))"

lemma retry_run_emits:
  "retry_run f l s out \<Longrightarrow> (\<And>l. emits P (f l)) \<Longrightarrow>
   \<exists>es. trace (snd out) = trace s @ es \<and> list_all P es"
proof (induction rule: retry_run.induct)
  case (retry_stop l s out)
  then show ?case by (cases out) (auto dest: emitsD)
next
  case (retry_again l s e l' s' s'' out)
  from emitsD [OF retry_again.prems retry_again.hyps(1)]
  obtain es where es: "trace s' = trace s @ es" "list_all P es" by auto
  from retry_again.IH [OF retry_again.prems] obtain es' where
    "trace (snd out) = trace s'' @ es'" "list_all P es'" by auto
  with es retry_again.hyps(3) show ?case by (intro exI [of _ "es @ es'"]) simp
qed

lemma emits_retry: "retry_contract r \<Longrightarrow> (\<And>l. emits P (f l)) \<Longrightarrow> emits P (r f l)"
  unfolding emits_def retry_contract_def by (metis retry_run_emits [unfolded emits_def])

text \<open>A retry loop with a fixed number of further attempts and no waiting; it meets the contract.\<close>

fun retry_times :: "nat \<Rightarrow> ('w, 'l) closure \<Rightarrow> ('w, 'l) closure" where
  "retry_times 0 f l = f l"
| "retry_times (Suc n) f l =
     do { (e, l') \<leftarrow> f l;
          (case e of
             Some err \<Rightarrow> if IsConflict err then retry_times n f l' else ret (e, l')
           | None \<Rightarrow> ret (e, l')) }"

lemma retry_times_run: "retry_run f l s (run_state (retry_times n f l) s)"
proof (induction n arbitrary: l s)
  case 0
  then show ?case by (simp add: retry_stop)
next
  case (Suc n)
  obtain e l' s' where r: "run_state (f l) s = ((e, l'), s')" by (metis prod.exhaust)
  show ?case
  proof (cases "\<exists>err. e = Some err \<and> IsConflict err")
    case True
    then obtain err where e: "e = Some err" "IsConflict err" by blast
    have "retry_run f l s (run_state (retry_times n f l') s')"
      using retry_again [of f l s err l' s' s'] r e Suc.IH by simp
    then show ?thesis using r e by simp
  next
    case False
    then show ?thesis using retry_stop [of f l s, OF r] r by (auto split: option.split)
  qed
qed

lemma retry_times_contract: "retry_contract (retry_times n)"
  by (simp add: retry_contract_def retry_times_run)

end
