(* ===== verification/Indexes.thy ===== *)
theory Indexes
  imports Client
begin

text \<open>
  The pod indexes of \<open>internal/controller/indexes.go\<close>: the two index functions, the indexed
  listings built on them, and the watch predicate \<open>podIsInteresting\<close> of the controller. A Go map
  used as a set of strings or UIDs is a HOL set. The index functions return the keys of a map,
  whose order Go leaves open; the model lists them in the order of first occurrence, and what is
  proved about them only concerns their set.
\<close>

section \<open>Index functions\<close>

definition IndexPodWaitingReason :: string where
  "IndexPodWaitingReason = ''status.waitingReason''"

definition IndexPodTerminationReason :: string where
  "IndexPodTerminationReason = ''status.terminationReason''"

fun collect_waiting :: "string list \<Rightarrow> container_status list \<Rightarrow> string list" where
  "collect_waiting seen [] = seen"
| "collect_waiting seen (cs # rest) =
     collect_waiting
       (case state_waiting (cs_state cs) of
          Some r \<Rightarrow> if r \<noteq> [] then List.insert r seen else seen
        | None \<Rightarrow> seen) rest"

definition podWaitingReasons :: "client_object \<Rightarrow> string list" where
  "podWaitingReasons obj =
     (case obj of
        PodObj p \<Rightarrow>
          collect_waiting (collect_waiting [] (ps_containerStatuses (pod_status p)))
            (ps_initContainerStatuses (pod_status p))
      | _ \<Rightarrow> [])"

fun collect_terminated :: "string list \<Rightarrow> container_status list \<Rightarrow> string list" where
  "collect_terminated seen [] = seen"
| "collect_terminated seen (cs # rest) =
     collect_terminated
       (if cs_restartCount cs = 0 then seen
        else case state_terminated (cs_lastTerminationState cs) of
          Some term \<Rightarrow> if term_reason term \<noteq> [] then List.insert (term_reason term) seen else seen
        | None \<Rightarrow> seen) rest"

definition podTerminationReasons :: "client_object \<Rightarrow> string list" where
  "podTerminationReasons obj =
     (case obj of
        PodObj p \<Rightarrow>
          collect_terminated (collect_terminated [] (ps_containerStatuses (pod_status p)))
            (ps_initContainerStatuses (pod_status p))
      | _ \<Rightarrow> [])"

definition podIsInteresting :: "client_object \<Rightarrow> bool" where
  "podIsInteresting obj =
     (length (podWaitingReasons obj) > 0 \<or> length (podTerminationReasons obj) > 0)"

section \<open>Indexed listings\<close>

abbreviation pod_uid :: "pod \<Rightarrow> string" where
  "pod_uid p \<equiv> om_uid (pod_meta p)"

text \<open>The loop over one answer: append the pods whose UID was not seen yet.\<close>

fun add_unseen :: "string set \<Rightarrow> pod list \<Rightarrow> pod list \<Rightarrow> string set \<times> pod list" where
  "add_unseen seen pods [] = (seen, pods)"
| "add_unseen seen pods (p # items) =
     (if pod_uid p \<in> seen then add_unseen seen pods items
      else add_unseen (insert (pod_uid p) seen) (pods @ [p]) items)"

fun index_loop ::
  "'w env \<Rightarrow> string \<Rightarrow> string set \<Rightarrow> pod list \<Rightarrow> string list \<Rightarrow> ('w, api_error + pod list) prog" where
  "index_loop E index seen pods [] = ret (Inr pods)"
| "index_loop E index seen pods (v # vs) =
     bindE (api (c_listPodsByField (cl E) index v)) (\<lambda>items.
       case add_unseen seen pods items of (seen', pods') \<Rightarrow> index_loop E index seen' pods' vs)"

definition listPodsByIndex :: "'w env \<Rightarrow> string \<Rightarrow> string list \<Rightarrow> ('w, api_error + pod list) prog" where
  "listPodsByIndex E index vals = index_loop E index {} [] vals"

text \<open>The last loop of \<open>listCandidatePods\<close>: it never adds to its own \<open>seen\<close>.\<close>

fun append_missing :: "string set \<Rightarrow> pod list \<Rightarrow> pod list \<Rightarrow> pod list" where
  "append_missing seen pods [] = pods"
| "append_missing seen pods (p # rest) =
     (if pod_uid p \<in> seen then append_missing seen pods rest
      else append_missing seen (pods @ [p]) rest)"

definition listCandidatePods ::
  "'w env \<Rightarrow> string list \<Rightarrow> string list \<Rightarrow> ('w, api_error + pod list) prog" where
  "listCandidatePods E waitingReasons terminationReasons =
     bindE (listPodsByIndex E IndexPodWaitingReason waitingReasons) (\<lambda>pods.
       if length terminationReasons = 0 then ret (Inr pods)
       else bindE (listPodsByIndex E IndexPodTerminationReason terminationReasons) (\<lambda>restarting.
         ret (Inr (append_missing (set (map pod_uid pods)) pods restarting))))"

text \<open>\<open>listPodsByWaitingReasons\<close> repeats the loop for the one index it uses.\<close>

fun waiting_loop ::
  "'w env \<Rightarrow> string set \<Rightarrow> pod list \<Rightarrow> string list \<Rightarrow> ('w, api_error + pod list) prog" where
  "waiting_loop E seen pods [] = ret (Inr pods)"
| "waiting_loop E seen pods (reason # rest) =
     bindE (api (c_listPodsByField (cl E) IndexPodWaitingReason reason)) (\<lambda>items.
       case add_unseen seen pods items of (seen', pods') \<Rightarrow> waiting_loop E seen' pods' rest)"

definition listPodsByWaitingReasons :: "'w env \<Rightarrow> string list \<Rightarrow> ('w, api_error + pod list) prog" where
  "listPodsByWaitingReasons E reasons = waiting_loop E {} [] reasons"

section \<open>What the index functions return\<close>

lemma set_collect_waiting:
  "set (collect_waiting seen css) =
     set seen \<union> {r. r \<noteq> [] \<and> (\<exists>cs \<in> set css. state_waiting (cs_state cs) = Some r)}"
  by (induction seen css rule: collect_waiting.induct) (auto split: option.split)

lemma set_podWaitingReasons: "set (podWaitingReasons (PodObj p)) = {r. r \<noteq> [] \<and> waiting_for p r}"
  by (auto simp: podWaitingReasons_def set_collect_waiting waiting_for_def pod_statuses_def)

definition terminated_for :: "pod \<Rightarrow> string \<Rightarrow> bool" where
  "terminated_for p r \<longleftrightarrow> r \<noteq> [] \<and> (\<exists>cs \<in> set (pod_statuses p). cs_restartCount cs \<noteq> 0 \<and>
     (\<exists>t. state_terminated (cs_lastTerminationState cs) = Some t \<and> term_reason t = r))"

lemma set_collect_terminated:
  "set (collect_terminated seen css) =
     set seen \<union> {r. r \<noteq> [] \<and> (\<exists>cs \<in> set css. cs_restartCount cs \<noteq> 0 \<and>
       (\<exists>t. state_terminated (cs_lastTerminationState cs) = Some t \<and> term_reason t = r))}"
  by (induction seen css rule: collect_terminated.induct) (auto split: option.split)

lemma set_podTerminationReasons: "set (podTerminationReasons (PodObj p)) = {r. terminated_for p r}"
  by (auto simp: podTerminationReasons_def set_collect_terminated terminated_for_def pod_statuses_def)

section \<open>The listings\<close>

lemma add_unseen_props:
  assumes "add_unseen seen pods items = (seen', pods')" "seen = set (map pod_uid pods)"
    "distinct (map pod_uid pods)"
  shows "seen' = set (map pod_uid pods') \<and> distinct (map pod_uid pods') \<and>
         set pods \<subseteq> set pods' \<and> set pods' \<subseteq> set pods \<union> set items \<and>
         pod_uid ` set items \<subseteq> pod_uid ` set pods'"
  using assms
proof (induction seen pods items rule: add_unseen.induct)
  case (2 seen pods p items)
  show ?case
  proof (cases "pod_uid p \<in> seen")
    case True
    with 2 show ?thesis by auto
  next
    case False
    with "2.prems" have "add_unseen (insert (pod_uid p) seen) (pods @ [p]) items = (seen', pods')"
      "insert (pod_uid p) seen = set (map pod_uid (pods @ [p]))" "distinct (map pod_uid (pods @ [p]))"
      by auto
    from "2.IH"(2) [OF False this] show ?thesis by auto
  qed
qed simp

lemma index_loop_distinct:
  "run_state (index_loop E index seen pods vs) s = (Inr r, s') \<Longrightarrow> seen = set (map pod_uid pods) \<Longrightarrow>
   distinct (map pod_uid pods) \<Longrightarrow> distinct (map pod_uid r)"
proof (induction vs arbitrary: seen pods s)
  case (Cons v vs)
  obtain r0 w' where li: "run_state (c_listPodsByField (cl E) index v) (world s) = (r0, w')" by force
  with Cons.prems(1) obtain items where r0: "r0 = Inr items" by (cases r0) (auto simp: run_prog)
  obtain seen' pods' where au: "add_unseen seen pods items = (seen', pods')" by force
  have "run_state (index_loop E index seen' pods' vs) (s\<lparr>world := w'\<rparr>) = (Inr r, s')"
    using Cons.prems(1) li r0 au by (simp add: run_prog)
  with add_unseen_props [OF au Cons.prems(2,3)] show ?case by (intro Cons.IH) auto
qed simp

lemma listing_distinct:
  assumes "run_state (listPodsByIndex E index vs) s = (Inr r, s')"
  shows "distinct (map pod_uid r)"
  using assms unfolding listPodsByIndex_def by (rule index_loop_distinct) auto

text \<open>
  An index the client serves: for each value it answers with exactly the pods of the store whose
  index function returns that value, and the store holds each UID once. The provider is an index
  function that returns every value a pod can be looked for by.
\<close>

definition serves_index :: "'w env \<Rightarrow> string \<Rightarrow> (pod \<Rightarrow> string list) \<Rightarrow> pod set \<Rightarrow> bool" where
  "serves_index E index idx store \<longleftrightarrow>
     inj_on pod_uid store \<and>
     (\<forall>v w. \<exists>items w'. run_state (c_listPodsByField (cl E) index v) w = (Inr items, w') \<and>
        set items = {p \<in> store. v \<in> set (idx p)})"

locale pod_index =
  fixes idx :: "pod \<Rightarrow> string list"
    and matches :: "pod \<Rightarrow> string \<Rightarrow> bool"
  assumes idx_matches: "v \<in> set (idx p) \<longleftrightarrow> matches p v"
begin

lemma loop_exact:
  assumes "serves_index E index idx store" "set pods \<subseteq> store"
    "seen = set (map pod_uid pods)" "distinct (map pod_uid pods)"
  shows "\<exists>r s'. run_state (index_loop E index seen pods vs) s = (Inr r, s') \<and>
           set r = set pods \<union> {p \<in> store. \<exists>v \<in> set vs. matches p v}"
  using assms(2-4)
proof (induction vs arbitrary: seen pods s)
  case Nil
  then show ?case by auto
next
  case (Cons v vs)
  from assms(1) obtain items w' where
    items: "run_state (c_listPodsByField (cl E) index v) (world s) = (Inr items, w')"
      "set items = {p \<in> store. matches p v}"
    unfolding serves_index_def idx_matches by blast
  have inj: "inj_on pod_uid store" using assms(1) by (simp add: serves_index_def)
  obtain seen' pods' where au: "add_unseen seen pods items = (seen', pods')" by force
  note props = add_unseen_props [OF au Cons.prems(2,3)]
  have "set pods' = set pods \<union> set items"
  proof (intro equalityI subsetI)
    fix x
    assume "x \<in> set pods \<union> set items"
    then show "x \<in> set pods'"
    proof
      assume x: "x \<in> set items"
      with props have "pod_uid x \<in> pod_uid ` set pods'" by blast
      then obtain y where y: "y \<in> set pods'" "pod_uid y = pod_uid x" by (elim imageE) simp
      have "y \<in> store" "x \<in> store" using y x props items(2) Cons.prems(1) by auto
      with inj y show ?thesis by (auto dest: inj_onD)
    qed (use props in auto)
  qed (use props in auto)
  moreover have "\<exists>r s'. run_state (index_loop E index seen' pods' vs) (s\<lparr>world := w'\<rparr>) = (Inr r, s') \<and>
      set r = set pods' \<union> {p \<in> store. \<exists>v \<in> set vs. matches p v}"
    using props items(2) Cons.prems(1) by (intro Cons.IH) auto
  ultimately show ?case using items au by (auto simp: run_prog)
qed

lemma listing_exact:
  assumes "serves_index E index idx store"
  shows "\<exists>r s'. run_state (listPodsByIndex E index vs) s = (Inr r, s') \<and>
           set r = {p \<in> store. \<exists>v \<in> set vs. matches p v}"
  using loop_exact [OF assms, of "[]" "{}" vs s] by (simp add: listPodsByIndex_def)

end

interpretation waiting_index: pod_index "\<lambda>p. podWaitingReasons (PodObj p)" "\<lambda>p r. r \<noteq> [] \<and> waiting_for p r"
  by unfold_locales (simp add: set_podWaitingReasons)

interpretation termination_index: pod_index "\<lambda>p. podTerminationReasons (PodObj p)" terminated_for
  by unfold_locales (simp add: set_podTerminationReasons)


lemma append_missing_eq: "append_missing seen pods xs = pods @ filter (\<lambda>p. pod_uid p \<notin> seen) xs"
  by (induction seen pods xs rule: append_missing.induct) auto

text \<open>Whatever the client answers, no two candidates have one UID.\<close>

lemma candidates_distinct:
  assumes "run_state (listCandidatePods E ws ts) s = (Inr pods, s')"
  shows "distinct (map pod_uid pods)"
proof -
  obtain r1 s1 where w: "run_state (listPodsByIndex E IndexPodWaitingReason ws) s = (r1, s1)" by force
  with assms obtain xs where r1: "r1 = Inr xs"
    by (cases r1) (auto simp: listCandidatePods_def run_prog)
  have dx: "distinct (map pod_uid xs)"
    using w r1 by (auto intro: listing_distinct)
  show ?thesis
  proof (cases "ts = []")
    case True
    with assms w r1 dx show ?thesis by (simp add: listCandidatePods_def run_prog)
  next
    case False
    obtain r2 s2 where t: "run_state (listPodsByIndex E IndexPodTerminationReason ts) s1 = (r2, s2)" by force
    with assms w r1 False obtain ys where r2: "r2 = Inr ys"
      by (cases r2) (auto simp: listCandidatePods_def run_prog)
    have "distinct (map pod_uid ys)"
      using t r2 by (auto intro: listing_distinct)
    moreover have "pods = append_missing (set (map pod_uid xs)) xs ys"
      using assms w r1 t r2 False by (simp add: listCandidatePods_def run_prog)
    ultimately show ?thesis
      using dx by (simp add: append_missing_eq distinct_map_filter image_avoids)
  qed
qed

lemma candidates_exact:
  assumes "serves_index E IndexPodWaitingReason (\<lambda>p. podWaitingReasons (PodObj p)) store"
    and "serves_index E IndexPodTerminationReason (\<lambda>p. podTerminationReasons (PodObj p)) store"
  shows "\<exists>pods s'. run_state (listCandidatePods E ws ts) s = (Inr pods, s') \<and>
           set pods = {p \<in> store. (\<exists>r \<in> set ws. r \<noteq> [] \<and> waiting_for p r) \<or> (\<exists>r \<in> set ts. terminated_for p r)}"
proof -
  obtain xs s1 where w: "run_state (listPodsByIndex E IndexPodWaitingReason ws) s = (Inr xs, s1)"
    "set xs = {p \<in> store. \<exists>r \<in> set ws. r \<noteq> [] \<and> waiting_for p r}"
    using waiting_index.listing_exact [OF assms(1)] by meson
  obtain ys s2 where t: "run_state (listPodsByIndex E IndexPodTerminationReason ts) s1 = (Inr ys, s2)"
    "set ys = {p \<in> store. \<exists>r \<in> set ts. terminated_for p r}"
    using termination_index.listing_exact [OF assms(2)] by meson
  have inj: "inj_on pod_uid store" using assms(1) by (simp add: serves_index_def)
  show ?thesis
  proof (cases "ts = []")
    case True
    with w show ?thesis by (simp add: listCandidatePods_def run_prog)
  next
    case False
    have "set (append_missing (set (map pod_uid xs)) xs ys) = set xs \<union> set ys"
      using inj w(2) t(2) by (auto simp: append_missing_eq dest: inj_onD)
    with False w t show ?thesis by (auto simp: listCandidatePods_def run_prog)
  qed
qed

text \<open>A restart loop leaves a trace in the termination index, a watched waiting state in the other.\<close>

lemma matching_pod_indexed:
  assumes "podMatchesPolicy now p x" "policy_window_bounded p" "[] \<notin> set (effectiveWatchReasons p)"
  shows "(\<exists>r \<in> set (effectiveWatchReasons p). r \<noteq> [] \<and> waiting_for x r) \<or>
         (\<exists>r \<in> set (effectiveTerminationReasons p). terminated_for x r)"
proof -
  consider (waiting) r where "r \<in> set (effectiveWatchReasons p)" "waiting_for x r"
    | (looping) r where "pod_in_loop now x (effectiveTerminationReasons p)
        (effectiveRestartThreshold p) (effectiveRestartWindow p) r"
    using assms(1,2) podIsRestartLooping_iff [of "effectiveRestartWindow p"]
    by (auto simp: podMatchesPolicy_def podHasFailureReason_iff policy_window_bounded_def split: if_splits)
  then show ?thesis
  proof cases
    case waiting
    with assms(3) have "r \<noteq> []" by auto
    with waiting show ?thesis by blast
  next
    case looping
    then obtain cs where cs: "cs \<in> set (pod_statuses x)"
      "container_in_loop (set (effectiveTerminationReasons p)) (effectiveRestartThreshold p)
        (effectiveRestartWindow p) now cs r"
      by (auto simp: pod_in_loop_def pod_statuses_def)
    then have "0 < sint (cs_restartCount cs)"
      using effectiveRestartThreshold_pos [of p] by (auto simp: container_in_loop_def)
    then have "cs_restartCount cs \<noteq> 0" by auto
    with cs show ?thesis by (auto simp: terminated_for_def container_in_loop_def)
  qed
qed

text \<open>
  C9: an evaluation that asks only the two indexes misses no failing pod: when the client serves
  both indexes from one store of pods, the candidates are pods of that store and include every pod
  that counts as failing for the policy (the watch list must not contain the empty string, which
  the waiting index never holds).
\<close>

theorem candidates_complete:
  assumes "serves_index E IndexPodWaitingReason (\<lambda>p. podWaitingReasons (PodObj p)) store"
    and "serves_index E IndexPodTerminationReason (\<lambda>p. podTerminationReasons (PodObj p)) store"
    and "policy_window_bounded p" "[] \<notin> set (effectiveWatchReasons p)"
  shows "\<exists>pods s'. run_state (listCandidatePods E (effectiveWatchReasons p) (effectiveTerminationReasons p)) s
             = (Inr pods, s') \<and> set pods \<subseteq> store \<and> {x \<in> store. podMatchesPolicy now p x} \<subseteq> set pods \<and>
         distinct (map pod_uid pods)"
  using candidates_exact [OF assms(1,2), of "effectiveWatchReasons p" "effectiveTerminationReasons p" s]
    matching_pod_indexed [OF _ assms(3,4)] by (auto dest: candidates_distinct)

text \<open>
  C27: the watch predicate drops no event that matters: every pod that counts as failing for some
  policy passes \<open>podIsInteresting\<close>.
\<close>

theorem failing_pod_is_interesting:
  assumes "podMatchesPolicy now p x" "policy_window_bounded p" "[] \<notin> set (effectiveWatchReasons p)"
  shows "podIsInteresting (PodObj x)"
proof -
  from matching_pod_indexed [OF assms] have
    "set (podWaitingReasons (PodObj x)) \<noteq> {} \<or> set (podTerminationReasons (PodObj x)) \<noteq> {}"
    by (auto simp: set_podWaitingReasons set_podTerminationReasons)
  then show ?thesis by (auto simp: podIsInteresting_def)
qed

text \<open>
  \<open>listPodsByWaitingReasons\<close> is the same listing as \<open>listPodsByIndex\<close> on the waiting index,
  request for request.
\<close>

lemma listPodsByWaitingReasons_same:
  "listPodsByWaitingReasons E reasons = listPodsByIndex E IndexPodWaitingReason reasons"
proof -
  have "waiting_loop E seen pods reasons = index_loop E IndexPodWaitingReason seen pods reasons" for seen pods
    by (induction reasons arbitrary: seen pods) simp_all
  then show ?thesis by (simp add: listPodsByWaitingReasons_def listPodsByIndex_def)
qed

end
