(* ===== verification/Cluster.thy ===== *)
theory Cluster
  imports Indexes
begin

text \<open>
  A concrete environment: an in-memory API server over lists of objects, with the documented
  behaviour of the third-party functions written out for it. It is not part of the model of the
  operator; the witnesses run the model in it, which shows that the hypotheses about the
  environment can hold together.
\<close>

record cluster =
  k_clock :: time
  k_pods :: "pod list"
  k_deployments :: "deployment list"
  k_statefulsets :: "statefulset list"
  k_cronjobs :: "cronjob list"
  k_replicasets :: "replicaset list"
  k_jobs :: "job list"
  k_policies :: "CrashLoopPolicy list"
  k_namespaces :: "namespace list"

definition empty_cluster :: cluster where
  "empty_cluster =
     \<lparr>k_clock = 2 * Hour, k_pods = [], k_deployments = [], k_statefulsets = [], k_cronjobs = [],
      k_replicasets = [], k_jobs = [], k_policies = [], k_namespaces = []\<rparr>"

definition reads :: "('w \<Rightarrow> 'a) \<Rightarrow> ('w, 'a) state" where
  "reads f = State (\<lambda>w. (f w, w))"

lemma run_reads [simp]: "run_state (reads f) w = (f w, w)"
  by (simp add: reads_def)

definition meta_key :: "object_meta \<Rightarrow> namespaced_name" where
  "meta_key m = \<lparr>nn_namespace = om_namespace m, nn_name = om_name m\<rparr>"

definition fetch :: "('o \<Rightarrow> object_meta) \<Rightarrow> 'o list \<Rightarrow> namespaced_name \<Rightarrow> api_error + 'o" where
  "fetch mt xs k = (case find (\<lambda>x. meta_key (mt x) = k) xs of None \<Rightarrow> Inl NotFound | Some x \<Rightarrow> Inr x)"

definition put :: "('o \<Rightarrow> object_meta) \<Rightarrow> 'o \<Rightarrow> 'o list \<Rightarrow> 'o list" where
  "put mt x xs = map (\<lambda>y. if meta_key (mt y) = meta_key (mt x) then x else y) xs"

definition object_meta_of :: "client_object \<Rightarrow> object_meta" where
  "object_meta_of obj = (case obj of DeploymentObj d \<Rightarrow> dep_meta d | StatefulSetObj s \<Rightarrow> sts_meta s
     | CronJobObj c \<Rightarrow> cj_meta c | PodObj p \<Rightarrow> pod_meta p)"

definition cluster_put :: "client_object \<Rightarrow> cluster \<Rightarrow> cluster" where
  "cluster_put obj w = (case obj of
     DeploymentObj d \<Rightarrow> w\<lparr>k_deployments := put dep_meta d (k_deployments w)\<rparr>
   | StatefulSetObj s \<Rightarrow> w\<lparr>k_statefulsets := put sts_meta s (k_statefulsets w)\<rparr>
   | CronJobObj c \<Rightarrow> w\<lparr>k_cronjobs := put cj_meta c (k_cronjobs w)\<rparr>
   | PodObj p \<Rightarrow> w\<lparr>k_pods := put pod_meta p (k_pods w)\<rparr>)"

definition replicas_or_1 :: "int32 option \<Rightarrow> int32" where
  "replicas_or_1 r = (case r of None \<Rightarrow> 1 | Some n \<Rightarrow> n)"

definition cluster_scale :: "client_object \<Rightarrow> cluster \<Rightarrow> api_error + scale" where
  "cluster_scale obj w = (case obj of
     DeploymentObj d \<Rightarrow> (case fetch dep_meta (k_deployments w) (meta_key (dep_meta d)) of
        Inl e \<Rightarrow> Inl e | Inr d' \<Rightarrow> Inr \<lparr>sc_replicas = replicas_or_1 (dep_replicas d')\<rparr>)
   | StatefulSetObj s \<Rightarrow> (case fetch sts_meta (k_statefulsets w) (meta_key (sts_meta s)) of
        Inl e \<Rightarrow> Inl e | Inr s' \<Rightarrow> Inr \<lparr>sc_replicas = replicas_or_1 (sts_replicas s')\<rparr>)
   | _ \<Rightarrow> Inl NotFound)"

definition cluster_set_scale :: "client_object \<Rightarrow> scale \<Rightarrow> cluster \<Rightarrow> (api_error + scale) \<times> cluster" where
  "cluster_set_scale obj sc w = (case obj of
     DeploymentObj d \<Rightarrow> (case fetch dep_meta (k_deployments w) (meta_key (dep_meta d)) of
        Inl e \<Rightarrow> (Inl e, w)
      | Inr d' \<Rightarrow> (Inr sc, cluster_put (DeploymentObj (d'\<lparr>dep_replicas := Some (sc_replicas sc)\<rparr>)) w))
   | StatefulSetObj s \<Rightarrow> (case fetch sts_meta (k_statefulsets w) (meta_key (sts_meta s)) of
        Inl e \<Rightarrow> (Inl e, w)
      | Inr s' \<Rightarrow> (Inr sc, cluster_put (StatefulSetObj (s'\<lparr>sts_replicas := Some (sc_replicas sc)\<rparr>)) w))
   | _ \<Rightarrow> (Inl NotFound, w))"

definition in_ns :: "('o \<Rightarrow> object_meta) \<Rightarrow> string \<Rightarrow> 'o \<Rightarrow> bool" where
  "in_ns mt ns x \<longleftrightarrow> om_namespace (mt x) = ns"

definition cluster_by_field :: "string \<Rightarrow> string \<Rightarrow> cluster \<Rightarrow> pod list" where
  "cluster_by_field index v w =
     (if index = IndexPodWaitingReason then filter (\<lambda>p. v \<in> set (podWaitingReasons (PodObj p))) (k_pods w)
      else if index = IndexPodTerminationReason
      then filter (\<lambda>p. v \<in> set (podTerminationReasons (PodObj p))) (k_pods w)
      else [])"

definition cluster_client :: "cluster client" where
  "cluster_client =
     \<lparr>c_now = reads k_clock,
      c_getPolicy = (\<lambda>k. reads (\<lambda>w. fetch pol_meta (k_policies w) k)),
      c_listPolicies = reads (\<lambda>w. Inr (k_policies w)),
      c_getDeployment = (\<lambda>k. reads (\<lambda>w. fetch dep_meta (k_deployments w) k)),
      c_getStatefulSet = (\<lambda>k. reads (\<lambda>w. fetch sts_meta (k_statefulsets w) k)),
      c_getCronJob = (\<lambda>k. reads (\<lambda>w. fetch cj_meta (k_cronjobs w) k)),
      c_getReplicaSet = (\<lambda>k. reads (\<lambda>w. fetch rs_meta (k_replicasets w) k)),
      c_getJob = (\<lambda>k. reads (\<lambda>w. fetch job_meta (k_jobs w) k)),
      c_getPod = (\<lambda>k. reads (\<lambda>w. fetch pod_meta (k_pods w) k)),
      c_listPodsByField = (\<lambda>index v. reads (\<lambda>w. Inr (cluster_by_field index v w))),
      c_listPodsBySelector = (\<lambda>ns sel. reads (\<lambda>w.
        Inr (filter (\<lambda>p. in_ns pod_meta ns p \<and> sel_matches sel (om_labels (pod_meta p))) (k_pods w)))),
      c_listPodsIn = (\<lambda>ns. reads (\<lambda>w. Inr (filter (in_ns pod_meta ns) (k_pods w)))),
      c_listJobsIn = (\<lambda>ns. reads (\<lambda>w. Inr (filter (in_ns job_meta ns) (k_jobs w)))),
      c_listDeployments = reads (\<lambda>w. Inr (k_deployments w)),
      c_listStatefulSets = reads (\<lambda>w. Inr (k_statefulsets w)),
      c_listCronJobs = reads (\<lambda>w. Inr (k_cronjobs w)),
      c_listNamespaces = (\<lambda>sel. reads (\<lambda>w. Inr (filter (\<lambda>n. sel_matches sel (ns_labels n)) (k_namespaces w)))),
      c_update = (\<lambda>obj. State (\<lambda>w. (Inr obj, cluster_put obj w))),
      c_getScale = (\<lambda>obj. reads (cluster_scale obj)),
      c_updateScale = (\<lambda>obj sc. State (cluster_set_scale obj sc)),
      c_updateStatus = (\<lambda>p. State (\<lambda>w. (Inr p, w\<lparr>k_policies := put pol_meta p (k_policies w)\<rparr>)))\<rparr>"

definition label_match :: "label_selector \<Rightarrow> string_map \<Rightarrow> bool" where
  "label_match ls m \<longleftrightarrow> (\<forall>(k, v) \<in> set (matchLabels ls). m k = Some v)"

definition set_condition :: "time \<Rightarrow> condition list \<Rightarrow> condition \<Rightarrow> condition list" where
  "set_condition now cs c =
     (if find (\<lambda>x. cond_type x = cond_type c) cs = None
      then cs @ [c\<lparr>cond_lastTransitionTime := now\<rparr>]
      else map (\<lambda>x. if cond_type x = cond_type c
                    then c\<lparr>cond_lastTransitionTime :=
                            (if cond_status x = cond_status c then cond_lastTransitionTime x else now)\<rparr>
                    else x) cs)"

definition cluster_lib :: lib where
  "cluster_lib =
     \<lparr>GetControllerOf = find (\<lambda>r. or_controller r = Some True),
      LabelSelectorAsSelector = (\<lambda>sel. case sel of
          None \<Rightarrow> Inr \<lparr>sel_matches = (\<lambda>_. False), sel_empty = False\<rparr>
        | Some ls \<Rightarrow>
            if matchExpressions ls = []
            then Inr \<lparr>sel_matches = label_match ls, sel_empty = (matchLabels ls = [])\<rparr>
            else Inl (Failed ''unsupported'')),
      SetStatusCondition = set_condition,
      StatusDeepEqual = (\<lambda>a b. a = b),
      SortJobs = sort_key (\<lambda>j. om_creationTimestamp (job_meta j))\<rparr>"

definition cluster_retriers :: "'w retriers" where
  "cluster_retriers =
     \<lparr>retryPolicy = retry_times 4, retryObject = retry_times 4,
      retryScale = retry_times 4, retryCronJob = retry_times 4\<rparr>"

definition cluster_env :: "cluster env" where
  "cluster_env = \<lparr>cl = cluster_client, lb = cluster_lib, rt = cluster_retriers\<rparr>"

definition run_in :: "cluster \<Rightarrow> cluster ost" where
  "run_in w = \<lparr>world = w, trace = [], nsCache = Map.empty\<rparr>"

lemma retry_times_numeral:
  "retry_times (numeral k) f l =
     do { (e, l') \<leftarrow> f l;
          (case e of
             Some err \<Rightarrow> if IsConflict err then retry_times (pred_numeral k) f l' else ret (e, l')
           | None \<Rightarrow> ret (e, l')) }"
  by (simp add: numeral_eq_Suc)

lemmas cluster_defs = cluster_env_def cluster_client_def cluster_lib_def cluster_retriers_def run_in_def
  empty_cluster_def

lemma cluster_retriers_ok: "retriers_ok cluster_env"
  by (simp add: retriers_ok_def cluster_env_def cluster_retriers_def retry_times_contract)

lemma cluster_env_simps [simp]:
  "cl cluster_env = cluster_client" "lb cluster_env = cluster_lib" "rt cluster_env = cluster_retriers"
  by (simp_all add: cluster_env_def)

section \<open>A cluster whose pods never change\<close>

text \<open>An environment that serves both pod indexes from one fixed store, for every world.\<close>

definition static_env :: "pod list \<Rightarrow> cluster env" where
  "static_env pods = cluster_env\<lparr>cl := cluster_client\<lparr>c_listPodsByField :=
     (\<lambda>index v. reads (\<lambda>w. Inr (cluster_by_field index v (w\<lparr>k_pods := pods\<rparr>))))\<rparr>\<rparr>"

lemma index_names_differ [simp]:
  "IndexPodTerminationReason \<noteq> IndexPodWaitingReason" "IndexPodWaitingReason \<noteq> IndexPodTerminationReason"
  by (simp_all add: IndexPodTerminationReason_def IndexPodWaitingReason_def)

lemma static_env_serves:
  assumes "distinct (map pod_uid pods)"
  shows "serves_index (static_env pods) IndexPodWaitingReason (\<lambda>p. podWaitingReasons (PodObj p)) (set pods)"
    and "serves_index (static_env pods) IndexPodTerminationReason (\<lambda>p. podTerminationReasons (PodObj p)) (set pods)"
  using assms by (auto simp: serves_index_def static_env_def cluster_by_field_def distinct_map)

section \<open>Witnesses for the candidate listing\<close>

lemma waiting_pod_matches: "podMatchesPolicy now oom_policy (waiting_pod n)"
  by (simp add: podMatchesPolicy_def podHasFailureReason_def waiting_pod_def example_defs DefaultWatchReasons_def)

lemma default_reasons_nonempty: "[] \<notin> set (effectiveWatchReasons oom_policy)"
  by (simp add: DefaultWatchReasons_def)

definition two_pods :: cluster where
  "two_pods = empty_cluster\<lparr>k_pods := [waiting_pod ''a'', waiting_pod ''b'']\<rparr>"

lemma waiting_pod_reasons:
  "podWaitingReasons (PodObj (waiting_pod n)) = [''CrashLoopBackOff'']"
  "podTerminationReasons (PodObj (waiting_pod n)) = []"
  by (simp_all add: podWaitingReasons_def podTerminationReasons_def waiting_pod_def example_defs)

lemma waiting_pod_uid [simp]: "om_uid (pod_meta (waiting_pod n)) = n"
  by (simp add: waiting_pod_def example_defs)

lemma two_pods_candidates:
  "fst (run_state (listCandidatePods cluster_env [''CrashLoopBackOff'', ''ErrImagePull''] [''OOMKilled''])
     (run_in two_pods)) = Inr [waiting_pod ''a'', waiting_pod ''b'']"
  by (simp add: listCandidatePods_def listPodsByIndex_def run_prog cluster_client_def cluster_by_field_def
      two_pods_def run_in_def empty_cluster_def waiting_pod_reasons)

lemma candidates_distinct_example: "distinct (map pod_uid [waiting_pod ''a'', waiting_pod ''b''])"
proof -
  have "run_state (listCandidatePods cluster_env [''CrashLoopBackOff'', ''ErrImagePull''] [''OOMKilled''])
      (run_in two_pods) =
    (Inr [waiting_pod ''a'', waiting_pod ''b''],
     snd (run_state (listCandidatePods cluster_env [''CrashLoopBackOff'', ''ErrImagePull''] [''OOMKilled''])
      (run_in two_pods)))"
    by (metis prod.collapse two_pods_candidates)
  then show ?thesis by (rule candidates_distinct)
qed

theorem candidates_complete_witness:
  "\<exists>pods s'. run_state (listCandidatePods (static_env [waiting_pod ''a''])
       (effectiveWatchReasons oom_policy) (effectiveTerminationReasons oom_policy)) (run_in two_pods) = (Inr pods, s')
     \<and> waiting_pod ''a'' \<in> set pods"
proof -
  have d: "distinct (map pod_uid [waiting_pod ''a''])" by simp
  have "waiting_pod ''a'' \<in> {x \<in> set [waiting_pod ''a'']. podMatchesPolicy 0 oom_policy x}"
    by (simp add: waiting_pod_matches)
  with candidates_complete [OF static_env_serves [OF d] oom_policy_bounded default_reasons_nonempty, of "run_in two_pods" 0]
  show ?thesis by blast
qed

theorem failing_pod_is_interesting_witness: "podIsInteresting (PodObj (waiting_pod ''a''))"
  using failing_pod_is_interesting [OF waiting_pod_matches [of 0 "''a''"] oom_policy_bounded default_reasons_nonempty] .

end
