(* ===== verification/Workloads.thy ===== *)
theory Workloads
  imports Cluster
begin

text \<open>
  From a failing pod to its workload (\<open>internal/controller/helpers.go\<close>): owner resolution, the
  all-replicas check, the exclusion selector, and the namespaces a policy admits with the cache
  of \<open>policyresolve.go\<close>. Every request to the API server is one call of the client.
\<close>

section \<open>Workload identity\<close>

record ownerWorkload =
  ow_kind :: string
  ow_name :: string
  ow_namespace :: string

definition isTargetKind :: "string \<Rightarrow> string list \<Rightarrow> bool" where
  "isTargetKind kind targets = slices_Contains targets kind"

definition isExcludedNamespace :: "string \<Rightarrow> string list \<Rightarrow> bool" where
  "isExcludedNamespace ns excluded = slices_Contains excluded ns"

definition workloadKey :: "ownerWorkload \<Rightarrow> string" where
  "workloadKey w = ow_namespace w @ ''/'' @ ow_kind w @ ''/'' @ ow_name w"

definition nsname :: "string \<Rightarrow> string \<Rightarrow> namespaced_name" where
  "nsname ns n = \<lparr>nn_namespace = ns, nn_name = n\<rparr>"

abbreviation owner_key :: "ownerWorkload \<Rightarrow> namespaced_name" where
  "owner_key w \<equiv> nsname (ow_namespace w) (ow_name w)"

section \<open>resolveOwnerWorkload\<close>

definition owner_if_kind :: "'w env \<Rightarrow> owner_reference list \<Rightarrow> string \<Rightarrow> string \<Rightarrow> ownerWorkload option" where
  "owner_if_kind E refs kind ns =
     (case GetControllerOf (lb E) refs of
        Some r \<Rightarrow>
          if or_kind r = kind then Some \<lparr>ow_kind = kind, ow_name = or_name r, ow_namespace = ns\<rparr> else None
      | None \<Rightarrow> None)"

definition resolveOwnerWorkload :: "'w env \<Rightarrow> pod \<Rightarrow> ('w, api_error + ownerWorkload option) prog" where
  "resolveOwnerWorkload E p =
     (if length (om_ownerReferences (pod_meta p)) = 0 then ret (Inr None)
      else case GetControllerOf (lb E) (om_ownerReferences (pod_meta p)) of
        None \<Rightarrow> ret (Inr None)
      | Some ownerRef \<Rightarrow>
          (let ns = om_namespace (pod_meta p)
           in if or_kind ownerRef = ''ReplicaSet'' then do {
                r \<leftarrow> api (c_getReplicaSet (cl E) (nsname ns (or_name ownerRef)));
                (case r of
                   Inl e \<Rightarrow> if IsNotFound e then ret (Inr None) else ret (Inl e)
                 | Inr rs \<Rightarrow>
                     if om_uid (rs_meta rs) \<noteq> or_uid ownerRef then ret (Inr None)
                     else ret (Inr (owner_if_kind E (om_ownerReferences (rs_meta rs)) ''Deployment'' ns))) }
              else if or_kind ownerRef = ''StatefulSet'' then
                ret (Inr (Some \<lparr>ow_kind = ''StatefulSet'', ow_name = or_name ownerRef, ow_namespace = ns\<rparr>))
              else if or_kind ownerRef = ''Job'' then do {
                r \<leftarrow> api (c_getJob (cl E) (nsname ns (or_name ownerRef)));
                (case r of
                   Inl e \<Rightarrow> if IsNotFound e then ret (Inr None) else ret (Inl e)
                 | Inr j \<Rightarrow>
                     if om_uid (job_meta j) \<noteq> or_uid ownerRef then ret (Inr None)
                     else ret (Inr (owner_if_kind E (om_ownerReferences (job_meta j)) ''CronJob'' ns))) }
              else ret (Inr None)))"

section \<open>allReplicasFailing\<close>

definition desired_replicas :: "int32 option \<Rightarrow> int32" where
  "desired_replicas r = (case r of None \<Rightarrow> 1 | Some n \<Rightarrow> n)"

text \<open>The common part of the Deployment and StatefulSet branches.\<close>

definition selected_pods_failing ::
  "'w env \<Rightarrow> string \<Rightarrow> int32 option \<Rightarrow> label_selector option \<Rightarrow> CrashLoopPolicy \<Rightarrow> ('w, api_error + bool) prog" where
  "selected_pods_failing E ns replicas sel policy =
     (if desired_replicas replicas = 0 then ret (Inr False)
      else case LabelSelectorAsSelector (lb E) sel of
        Inl e \<Rightarrow> ret (Inl e)
      | Inr selector \<Rightarrow>
          bindE (api (c_listPodsBySelector (cl E) ns selector)) (\<lambda>pods.
            if length pods = 0 then ret (Inr False)
            else do { now \<leftarrow> time_now E; ret (Inr (replicasAllFailing now policy pods)) }))"

definition owned_by :: "string \<Rightarrow> string \<Rightarrow> object_meta \<Rightarrow> bool" where
  "owned_by kind name m = list_ex (\<lambda>ref. or_kind ref = kind \<and> or_name ref = name) (om_ownerReferences m)"

definition allReplicasFailing ::
  "'w env \<Rightarrow> ownerWorkload \<Rightarrow> CrashLoopPolicy \<Rightarrow> ('w, api_error + bool) prog" where
  "allReplicasFailing E w policy =
     (if ow_kind w = ''Deployment'' then
        bindE (api (c_getDeployment (cl E) (owner_key w))) (\<lambda>d.
          selected_pods_failing E (ow_namespace w) (dep_replicas d) (dep_selector d) policy)
      else if ow_kind w = ''StatefulSet'' then
        bindE (api (c_getStatefulSet (cl E) (owner_key w))) (\<lambda>d.
          selected_pods_failing E (ow_namespace w) (sts_replicas d) (sts_selector d) policy)
      else if ow_kind w = ''CronJob'' then
        bindE (api (c_getCronJob (cl E) (owner_key w))) (\<lambda>_.
        bindE (api (c_listJobsIn (cl E) (ow_namespace w))) (\<lambda>jobs.
          let ownedJobs = filter (\<lambda>j. owned_by ''CronJob'' (ow_name w) (job_meta j)) jobs
          in if length ownedJobs = 0 then ret (Inr False)
             else let latestJob = last (SortJobs (lb E) ownedJobs)
             in bindE (api (c_listPodsIn (cl E) (ow_namespace w))) (\<lambda>pods.
                  let jobPods = filter (\<lambda>p. owned_by ''Job'' (om_name (job_meta latestJob)) (pod_meta p)) pods
                  in if length jobPods = 0 then ret (Inr False)
                     else do { now \<leftarrow> time_now E; ret (Inr (replicasAllFailing now policy jobPods)) })))
      else ret (Inr False))"

section \<open>isWorkloadExcludedBySelector\<close>

definition labels_or_missing ::
  "('w, api_error + 'o) state \<Rightarrow> ('o \<Rightarrow> object_meta) \<Rightarrow> selector \<Rightarrow> ('w, api_error + bool) prog" where
  "labels_or_missing m mt sel = do {
     r \<leftarrow> api m;
     (case r of
        Inl e \<Rightarrow> (case IgnoreNotFound e of None \<Rightarrow> ret (Inr False) | Some e' \<Rightarrow> ret (Inl e'))
      | Inr obj \<Rightarrow> ret (Inr (sel_matches sel (om_labels (mt obj))))) }"

definition isWorkloadExcludedBySelector ::
  "'w env \<Rightarrow> ownerWorkload \<Rightarrow> label_selector option \<Rightarrow> ('w, api_error + bool) prog" where
  "isWorkloadExcludedBySelector E w selector =
     (if selector = None then ret (Inr False)
      else case LabelSelectorAsSelector (lb E) selector of
        Inl e \<Rightarrow> ret (Inl (Wrapped ''parsing workload exclude selector'' e))
      | Inr sel \<Rightarrow>
          if ow_kind w = ''Deployment'' then
            labels_or_missing (c_getDeployment (cl E) (owner_key w)) dep_meta sel
          else if ow_kind w = ''StatefulSet'' then
            labels_or_missing (c_getStatefulSet (cl E) (owner_key w)) sts_meta sel
          else if ow_kind w = ''CronJob'' then
            labels_or_missing (c_getCronJob (cl E) (owner_key w)) cj_meta sel
          else ret (Inr (sel_matches sel Map.empty)))"

section \<open>Namespaces a policy admits\<close>

text \<open>\<open>None\<close> is Go's nil map, which admits every namespace.\<close>

definition resolveNamespaces ::
  "'w env \<Rightarrow> label_selector option \<Rightarrow> ('w, api_error + string set option) prog" where
  "resolveNamespaces E selector =
     (if selector = None then ret (Inr None)
      else case LabelSelectorAsSelector (lb E) selector of
        Inl e \<Rightarrow> ret (Inl (Wrapped ''parsing namespace selector'' e))
      | Inr sel \<Rightarrow>
          if sel_empty sel then ret (Inr None)
          else do {
            r \<leftarrow> api (c_listNamespaces (cl E) sel);
            (case r of
               Inl e \<Rightarrow> ret (Inl (Wrapped ''listing namespaces'' e))
             | Inr nss \<Rightarrow> ret (Inr (Some (set (map ns_name nss))))) })"

definition newNamespaceResolver :: "('w, unit) prog" where
  "newNamespaceResolver = put_cache Map.empty"

definition allowed :: "'w env \<Rightarrow> CrashLoopPolicy \<Rightarrow> ('w, api_error + string set option) prog" where
  "allowed E p =
     (if NamespaceSelector (Spec p) = None then ret (Inr None)
      else do {
        cache \<leftarrow> get_cache;
        (case cache (pol_name p) of
           Some cached \<Rightarrow> ret (Inr cached)
         | None \<Rightarrow>
             bindE (resolveNamespaces E (NamespaceSelector (Spec p))) (\<lambda>resolved. do {
               put_cache (cache(pol_name p \<mapsto> resolved));
               ret (Inr resolved) })) })"

definition admits :: "string set option \<Rightarrow> string \<Rightarrow> bool" where
  "admits allowedNamespaces ns = (case allowedNamespaces of None \<Rightarrow> True | Some S \<Rightarrow> ns \<in> S)"

section \<open>These operations only read\<close>

lemma selected_pods_failing_emits [emits_intros]: "emits P (selected_pods_failing E ns r sel p)"
  unfolding selected_pods_failing_def by (intro emits_intros)

lemma allReplicasFailing_emits [emits_intros]: "emits P (allReplicasFailing E w p)"
  unfolding allReplicasFailing_def by (intro emits_intros)

lemma resolveOwnerWorkload_emits [emits_intros]: "emits P (resolveOwnerWorkload E p)"
  unfolding resolveOwnerWorkload_def by (intro emits_intros)

lemma labels_or_missing_emits [emits_intros]: "emits P (labels_or_missing m mt sel)"
  unfolding labels_or_missing_def by (intro emits_intros)

lemma isWorkloadExcludedBySelector_emits [emits_intros]: "emits P (isWorkloadExcludedBySelector E w sel)"
  unfolding isWorkloadExcludedBySelector_def by (intro emits_intros)

lemma resolveNamespaces_emits [emits_intros]: "emits P (resolveNamespaces E sel)"
  unfolding resolveNamespaces_def by (intro emits_intros)

lemma allowed_emits [emits_intros]: "emits P (allowed E p)"
  unfolding allowed_def by (intro emits_intros)

lemma newNamespaceResolver_emits [emits_intros]: "emits P newNamespaceResolver"
  unfolding newNamespaceResolver_def by (intro emits_intros)

lemma index_loop_emits [emits_intros]: "emits P (index_loop E index seen pods vs)"
  by (induction vs arbitrary: seen pods) (auto intro!: emits_intros)

lemma listPodsByIndex_emits [emits_intros]: "emits P (listPodsByIndex E index vs)"
  unfolding listPodsByIndex_def by (intro emits_intros)

lemma listCandidatePods_emits [emits_intros]: "emits P (listCandidatePods E ws ts)"
  unfolding listCandidatePods_def by (intro emits_intros)

section \<open>The key of a workload\<close>

lemma append_sep_inject:
  "x \<notin> set a \<Longrightarrow> x \<notin> set b \<Longrightarrow> a @ x # c = b @ x # d \<longleftrightarrow> a = b \<and> c = d"
  by (auto simp: append_eq_append_conv2 append_eq_Cons_conv Cons_eq_append_conv)

text \<open>
  Two workloads share the key under which a pass remembers them only if they are the same
  workload, since neither a namespace nor a kind can contain a slash.
\<close>

lemma workloadKey_injective:
  assumes "CHR ''/'' \<notin> set (ow_namespace v)" "CHR ''/'' \<notin> set (ow_kind v)"
    and "CHR ''/'' \<notin> set (ow_namespace w)" "CHR ''/'' \<notin> set (ow_kind w)"
    and "workloadKey v = workloadKey w"
  shows "v = w"
  using assms by (simp add: workloadKey_def append_sep_inject)

lemma workloadKey_injective_example:
  "workloadKey \<lparr>ow_kind = ''Deployment'', ow_name = ''web'', ow_namespace = ''prod''\<rparr> \<noteq>
   workloadKey \<lparr>ow_kind = ''StatefulSet'', ow_name = ''web'', ow_namespace = ''prod''\<rparr>"
  using workloadKey_injective
    [of "\<lparr>ow_kind = ''Deployment'', ow_name = ''web'', ow_namespace = ''prod''\<rparr>"
        "\<lparr>ow_kind = ''StatefulSet'', ow_name = ''web'', ow_namespace = ''prod''\<rparr>"] by auto

section \<open>What a pod's owner is\<close>

text \<open>
  The ownership chains the operator follows: the controller of the pod is a StatefulSet, or it is
  a ReplicaSet controlled by a Deployment or a Job controlled by a CronJob, where the object the
  API server has under that name is the one the pod refers to. \<open>w\<close> is the state of the world in
  which the request is answered.
\<close>

inductive owned_chain :: "'w env \<Rightarrow> 'w \<Rightarrow> pod \<Rightarrow> ownerWorkload \<Rightarrow> bool" for E w x where
  chain_StatefulSet:
    "GetControllerOf (lb E) (om_ownerReferences (pod_meta x)) = Some r \<Longrightarrow> or_kind r = ''StatefulSet'' \<Longrightarrow>
     owned_chain E w x \<lparr>ow_kind = ''StatefulSet'', ow_name = or_name r, ow_namespace = om_namespace (pod_meta x)\<rparr>"
| chain_Deployment:
    "GetControllerOf (lb E) (om_ownerReferences (pod_meta x)) = Some r \<Longrightarrow> or_kind r = ''ReplicaSet'' \<Longrightarrow>
     run_state (c_getReplicaSet (cl E) (nsname (om_namespace (pod_meta x)) (or_name r))) w = (Inr rs, w') \<Longrightarrow>
     om_uid (rs_meta rs) = or_uid r \<Longrightarrow>
     GetControllerOf (lb E) (om_ownerReferences (rs_meta rs)) = Some q \<Longrightarrow> or_kind q = ''Deployment'' \<Longrightarrow>
     owned_chain E w x \<lparr>ow_kind = ''Deployment'', ow_name = or_name q, ow_namespace = om_namespace (pod_meta x)\<rparr>"
| chain_CronJob:
    "GetControllerOf (lb E) (om_ownerReferences (pod_meta x)) = Some r \<Longrightarrow> or_kind r = ''Job'' \<Longrightarrow>
     run_state (c_getJob (cl E) (nsname (om_namespace (pod_meta x)) (or_name r))) w = (Inr j, w') \<Longrightarrow>
     om_uid (job_meta j) = or_uid r \<Longrightarrow>
     GetControllerOf (lb E) (om_ownerReferences (job_meta j)) = Some q \<Longrightarrow> or_kind q = ''CronJob'' \<Longrightarrow>
     owned_chain E w x \<lparr>ow_kind = ''CronJob'', ow_name = or_name q, ow_namespace = om_namespace (pod_meta x)\<rparr>"

text \<open>The request for the pod's controller was refused, and not because it does not exist.\<close>

definition owner_lookup_fails :: "'w env \<Rightarrow> 'w \<Rightarrow> pod \<Rightarrow> api_error \<Rightarrow> bool" where
  "owner_lookup_fails E w x e \<longleftrightarrow> \<not> IsNotFound e \<and>
     (\<exists>r. GetControllerOf (lb E) (om_ownerReferences (pod_meta x)) = Some r \<and>
        (let key = nsname (om_namespace (pod_meta x)) (or_name r)
         in or_kind r = ''ReplicaSet'' \<and> fst (run_state (c_getReplicaSet (cl E) key) w) = Inl e \<or>
            or_kind r = ''Job'' \<and> fst (run_state (c_getJob (cl E) key) w) = Inl e))"

text \<open>\<open>metav1.GetControllerOf\<close> returns one of the references it is given.\<close>

definition picks_reference :: "'w env \<Rightarrow> bool" where
  "picks_reference E \<longleftrightarrow> (\<forall>refs r. GetControllerOf (lb E) refs = Some r \<longrightarrow> r \<in> set refs)"

lemma no_controller: "picks_reference E \<Longrightarrow> GetControllerOf (lb E) [] = None"
  by (metis empty_iff empty_set not_None_eq picks_reference_def)

lemma owner_if_kind_Some:
  "owner_if_kind E refs kind ns = Some v \<longleftrightarrow>
     (\<exists>q. GetControllerOf (lb E) refs = Some q \<and> or_kind q = kind \<and>
          v = \<lparr>ow_kind = kind, ow_name = or_name q, ow_namespace = ns\<rparr>)"
  by (auto simp: owner_if_kind_def split: option.splits)

lemma resolveOwnerWorkload_result:
  "picks_reference E \<Longrightarrow>
   (fst (run_state (resolveOwnerWorkload E x) s) = Inr (Some v) \<longleftrightarrow> owned_chain E (world s) x v) \<and>
   (fst (run_state (resolveOwnerWorkload E x) s) = Inl e \<longleftrightarrow> owner_lookup_fails E (world s) x e)"
  by (cases "GetControllerOf (lb E) (om_ownerReferences (pod_meta x))")
    (auto simp: resolveOwnerWorkload_def run_prog Let_def owned_chain.simps owner_if_kind_Some
       owner_lookup_fails_def no_controller split: prod.splits sum.splits if_splits)

lemma owned_chain_target:
  "owned_chain E w x v \<Longrightarrow> isTargetKind (ow_kind v) DefaultTargets \<and> ow_namespace v = om_namespace (pod_meta x)"
  by (induction rule: owned_chain.induct) (simp_all add: isTargetKind_def DefaultTargets_def)

text \<open>
  C17: \<open>resolveOwnerWorkload\<close> returns a workload exactly when an ownership chain leads to it (so it
  is unique, in the pod's namespace and of a kind a policy can target), fails exactly when the
  controller could not be read for a reason other than absence, and otherwise finds no workload.
\<close>

theorem resolveOwnerWorkload_follows_chain:
  assumes "picks_reference E"
  shows "(fst (run_state (resolveOwnerWorkload E x) s) = Inr (Some v) \<longleftrightarrow> owned_chain E (world s) x v) \<and>
     (fst (run_state (resolveOwnerWorkload E x) s) = Inl e \<longleftrightarrow> owner_lookup_fails E (world s) x e) \<and>
     (owned_chain E (world s) x v \<longrightarrow>
        isTargetKind (ow_kind v) DefaultTargets \<and> ow_namespace v = om_namespace (pod_meta x))"
  by (rule conjI [OF conjunct1 conjI [OF conjunct2 impI]])
    (rule resolveOwnerWorkload_result [OF assms], rule resolveOwnerWorkload_result [OF assms],
     rule owned_chain_target)

definition controlled :: "string \<Rightarrow> string \<Rightarrow> owner_reference list" where
  "controlled kind n = [\<lparr>or_kind = ''Node'', or_name = ''n1'', or_uid = ''u-n1'', or_controller = None\<rparr>,
     \<lparr>or_kind = kind, or_name = n, or_uid = n, or_controller = Some True\<rparr>]"

definition web_replicaset :: replicaset where
  "web_replicaset = \<lparr>rs_meta = (meta0 ''prod'' ''web-1'')\<lparr>om_ownerReferences := controlled ''Deployment'' ''web''\<rparr>\<rparr>"

definition web_pod :: "string \<Rightarrow> pod" where
  "web_pod n = (pod0 n [cs0 ''app'' (Some ''CrashLoopBackOff'') 12 None] [] [])
     \<lparr>pod_meta := (meta0 ''prod'' n)\<lparr>om_ownerReferences := controlled ''ReplicaSet'' ''web-1''\<rparr>\<rparr>"

definition web_workload :: ownerWorkload where
  "web_workload = \<lparr>ow_kind = ''Deployment'', ow_name = ''web'', ow_namespace = ''prod''\<rparr>"

lemmas web_defs = controlled_def web_replicaset_def web_pod_def web_workload_def

lemma picks_reference_cluster: "picks_reference cluster_env"
  by (simp add: picks_reference_def cluster_lib_def find_Some_member)

lemma web_pod_chain: "k_replicasets w = [web_replicaset] \<Longrightarrow> owned_chain cluster_env w (web_pod n) web_workload"
  by (auto simp: owned_chain.simps web_defs cluster_lib_def cluster_client_def example_defs fetch_def
      meta_key_def nsname_def)

theorem resolveOwnerWorkload_follows_chain_witness:
  "fst (run_state (resolveOwnerWorkload cluster_env (web_pod ''web-1-x''))
     (run_in (empty_cluster\<lparr>k_replicasets := [web_replicaset]\<rparr>))) = Inr (Some web_workload)"
proof -
  let ?s = "run_in (empty_cluster\<lparr>k_replicasets := [web_replicaset]\<rparr>)"
  have "owned_chain cluster_env (world ?s) (web_pod ''web-1-x'') web_workload"
    by (rule web_pod_chain) (simp add: run_in_def)
  then show ?thesis
    using resolveOwnerWorkload_follows_chain [OF picks_reference_cluster, of "web_pod ''web-1-x''" ?s web_workload]
    by blast
qed

section \<open>The namespace cache\<close>

lemma resolveNamespaces_cache: "run_state (resolveNamespaces E sel) s = (r, t) \<Longrightarrow> nsCache t = nsCache s"
  by (auto simp: resolveNamespaces_def run_prog split: if_splits sum.splits prod.splits)


definition prod_policy :: CrashLoopPolicy where
  "prod_policy = policy0 ''prod-only''
     (spec0\<lparr>NamespaceSelector := Some \<lparr>matchLabels = [(''env'', ''prod'')], matchExpressions = []\<rparr>\<rparr>)"

definition two_namespaces :: cluster where
  "two_namespaces = empty_cluster\<lparr>k_namespaces :=
     [\<lparr>ns_name = ''prod'', ns_labels = [''env'' \<mapsto> ''prod'']\<rparr>, \<lparr>ns_name = ''dev'', ns_labels = Map.empty\<rparr>]\<rparr>"

lemma allowed_prod:
  "run_state (allowed cluster_env prod_policy) (run_in two_namespaces) =
     (Inr (Some {''prod''}), (run_in two_namespaces)\<lparr>nsCache := [''prod-only'' \<mapsto> Some {''prod''}]\<rparr>)"
  by (simp add: allowed_def resolveNamespaces_def run_prog prod_policy_def two_namespaces_def policy_example_defs
      cluster_client_def cluster_lib_def run_in_def label_match_def)


section \<open>Which pods are the replicas\<close>

text \<open>
  The pods that stand for the replicas of a workload: those its selector matches in its namespace,
  unless it is scaled to zero; for a CronJob those of the newest of its jobs. Each request may be
  answered in a different state of the world.
\<close>

abbreviation created :: "job \<Rightarrow> time" where
  "created j \<equiv> om_creationTimestamp (job_meta j)"

definition newest_owned_job :: "string \<Rightarrow> job list \<Rightarrow> job \<Rightarrow> bool" where
  "newest_owned_job n jobs j \<longleftrightarrow> j \<in> set jobs \<and> owned_by ''CronJob'' n (job_meta j) \<and>
     (\<forall>j' \<in> set jobs. owned_by ''CronJob'' n (job_meta j') \<longrightarrow> created j' \<le> created j)"

inductive replica_pods :: "'w env \<Rightarrow> ownerWorkload \<Rightarrow> pod list \<Rightarrow> bool" for E w where
  Deployment_pods:
    "ow_kind w = ''Deployment'' \<Longrightarrow> run_state (c_getDeployment (cl E) (owner_key w)) u = (Inr d, u') \<Longrightarrow>
     dep_replicas d \<noteq> Some 0 \<Longrightarrow> LabelSelectorAsSelector (lb E) (dep_selector d) = Inr sel \<Longrightarrow>
     run_state (c_listPodsBySelector (cl E) (ow_namespace w) sel) v = (Inr pods, v') \<Longrightarrow> replica_pods E w pods"
| StatefulSet_pods:
    "ow_kind w = ''StatefulSet'' \<Longrightarrow> run_state (c_getStatefulSet (cl E) (owner_key w)) u = (Inr t, u') \<Longrightarrow>
     sts_replicas t \<noteq> Some 0 \<Longrightarrow> LabelSelectorAsSelector (lb E) (sts_selector t) = Inr sel \<Longrightarrow>
     run_state (c_listPodsBySelector (cl E) (ow_namespace w) sel) v = (Inr pods, v') \<Longrightarrow> replica_pods E w pods"
| CronJob_pods:
    "ow_kind w = ''CronJob'' \<Longrightarrow> run_state (c_listJobsIn (cl E) (ow_namespace w)) u = (Inr jobs, u') \<Longrightarrow>
     newest_owned_job (ow_name w) jobs j \<Longrightarrow>
     run_state (c_listPodsIn (cl E) (ow_namespace w)) v = (Inr pods, v') \<Longrightarrow>
     replica_pods E w (filter (\<lambda>x. owned_by ''Job'' (om_name (job_meta j)) (pod_meta x)) pods)"

text \<open>\<open>slices.SortFunc\<close> by creation time: a sorted permutation, of no particular stability.\<close>

definition sorts_jobs :: "'w env \<Rightarrow> bool" where
  "sorts_jobs E \<longleftrightarrow> (\<forall>js. set (SortJobs (lb E) js) = set js \<and> sorted (map created (SortJobs (lb E) js)))"

lemma last_sorted_key: "sorted (map f xs) \<Longrightarrow> x \<in> set xs \<Longrightarrow> f x \<le> f (last xs)"
  by (induction xs) auto

lemma newest_last:
  assumes "sorts_jobs E" "filter (\<lambda>j. owned_by ''CronJob'' n (job_meta j)) jobs = js" "js \<noteq> []"
  shows "newest_owned_job n jobs (last (SortJobs (lb E) js))"
proof -
  let ?xs = "SortJobs (lb E) js"
  have xs: "set ?xs = set js" "sorted (map created ?xs)" using assms(1) by (simp_all add: sorts_jobs_def)
  with assms(3) have "?xs \<noteq> []" by auto
  then have "last ?xs \<in> set js" using xs(1) last_in_set by blast
  then show ?thesis
    using last_sorted_key [OF xs(2)] xs(1) assms(2) by (auto simp: newest_owned_job_def)
qed

lemma selected_pods_failing_True:
  assumes "run_state (selected_pods_failing E ns r sel p) s = (Inr True, t)"
  shows "r \<noteq> Some 0 \<and> (\<exists>selector v pods v' now. LabelSelectorAsSelector (lb E) sel = Inr selector \<and>
     run_state (c_listPodsBySelector (cl E) ns selector) v = (Inr pods, v') \<and> replicasAllFailing now p pods)"
  using assms
  by (auto simp: selected_pods_failing_def desired_replicas_def run_prog time_now_def
      split: if_splits sum.splits prod.splits option.splits)

text \<open>
  C16: when the all-replicas check passes, the pods that stand for the workload's replicas are
  non-empty and all fail in the policy's correlation mode: the workload exists, is not at zero
  already, and for a CronJob it is the newest of its jobs that is looked at.
\<close>

theorem allReplicasFailing_sound:
  assumes "sorts_jobs E" "run_state (allReplicasFailing E w p) s = (Inr True, t)"
  shows "\<exists>pods now. replica_pods E w pods \<and> pods \<noteq> [] \<and> replicasAllFailing now p pods"
proof -
  have ne: "pods \<noteq> []" if "replicasAllFailing now p pods" for now pods
    using that by (auto simp: replicasAllFailing_iff)
  consider (dep) "ow_kind w = ''Deployment''" | (sts) "ow_kind w = ''StatefulSet''" | (cj) "ow_kind w = ''CronJob''"
    using assms(2) by (auto simp: allReplicasFailing_def split: if_splits)
  then show ?thesis
  proof cases
    case dep
    with assms(2) obtain u d u' s' where
      d: "run_state (c_getDeployment (cl E) (owner_key w)) u = (Inr d, u')"
      "run_state (selected_pods_failing E (ow_namespace w) (dep_replicas d) (dep_selector d) p) s' = (Inr True, t)"
      by (auto simp: allReplicasFailing_def run_bindE run_api split: prod.splits sum.splits)
    show ?thesis
      using selected_pods_failing_True [OF d(2)] Deployment_pods [OF dep d(1)] ne by blast
  next
    case sts
    with assms(2) obtain u d u' s' where
      d: "run_state (c_getStatefulSet (cl E) (owner_key w)) u = (Inr d, u')"
      "run_state (selected_pods_failing E (ow_namespace w) (sts_replicas d) (sts_selector d) p) s' = (Inr True, t)"
      by (auto simp: allReplicasFailing_def run_bindE run_api split: prod.splits sum.splits)
    show ?thesis
      using selected_pods_failing_True [OF d(2)] StatefulSet_pods [OF sts d(1)] ne by blast
  next
    case cj
    let ?owned = "filter (\<lambda>j. owned_by ''CronJob'' (ow_name w) (job_meta j))"
    from cj assms(2) obtain u jobs u' v pods v' now where
      j: "run_state (c_listJobsIn (cl E) (ow_namespace w)) u = (Inr jobs, u')" "?owned jobs \<noteq> []"
      and x: "run_state (c_listPodsIn (cl E) (ow_namespace w)) v = (Inr pods, v')"
      and f: "replicasAllFailing now p (filter (\<lambda>x. owned_by ''Job''
          (om_name (job_meta (last (SortJobs (lb E) (?owned jobs))))) (pod_meta x)) pods)"
      by (auto simp: allReplicasFailing_def run_prog Let_def time_now_def
          split: prod.splits sum.splits if_splits)
    show ?thesis
      using CronJob_pods [OF cj j(1) newest_last [OF assms(1) refl j(2)] x] f ne by blast
  qed
qed

lemma sorts_jobs_cluster: "sorts_jobs cluster_env"
  by (simp add: sorts_jobs_def cluster_lib_def)

definition backup_job :: "string \<Rightarrow> time \<Rightarrow> job" where
  "backup_job n c = \<lparr>job_meta = (meta0 ''prod'' n)
     \<lparr>om_ownerReferences := controlled ''CronJob'' ''backup'', om_creationTimestamp := c\<rparr>\<rparr>"

definition backup_pod :: "string \<Rightarrow> string \<Rightarrow> string option \<Rightarrow> pod" where
  "backup_pod n j waiting = (pod0 n [cs0 ''app'' waiting 12 None] [] [])
     \<lparr>pod_meta := (meta0 ''prod'' n)\<lparr>om_ownerReferences := controlled ''Job'' j\<rparr>\<rparr>"

definition backup_cluster :: cluster where
  "backup_cluster = empty_cluster
     \<lparr>k_cronjobs := [\<lparr>cj_meta = meta0 ''prod'' ''backup'', cj_suspend = None\<rparr>],
      k_jobs := [backup_job ''new'' 9, backup_job ''old'' 5],
      k_pods := [backup_pod ''a'' ''old'' None, backup_pod ''b'' ''new'' (Some ''CrashLoopBackOff'')]\<rparr>"

definition backup_workload :: ownerWorkload where
  "backup_workload = \<lparr>ow_kind = ''CronJob'', ow_name = ''backup'', ow_namespace = ''prod''\<rparr>"

lemmas backup_defs = backup_job_def backup_pod_def backup_cluster_def backup_workload_def controlled_def

lemma oom_policy_correlation: "effectiveFailureCorrelation oom_policy = CorrelationPod"
  by (simp add: effectiveFailureCorrelation_def oom_policy_def policy0_def spec0_def CorrelationContainer_def)

lemma backup_fails:
  "run_state (allReplicasFailing cluster_env backup_workload oom_policy) (run_in backup_cluster) =
     (Inr True, run_in backup_cluster)"
  by (simp add: allReplicasFailing_def run_prog backup_defs cluster_client_def cluster_lib_def run_in_def
      fetch_def meta_key_def nsname_def example_defs empty_cluster_def in_ns_def owned_by_def time_now_def
      replicasAllFailing_def oom_policy_correlation podMatchesPolicy_def podHasFailureReason_def
      DefaultWatchReasons_def)

theorem allReplicasFailing_sound_witness:
  "\<exists>pods now. replica_pods cluster_env backup_workload pods \<and> pods \<noteq> [] \<and> replicasAllFailing now oom_policy pods"
  by (rule allReplicasFailing_sound [OF sorts_jobs_cluster backup_fails])

end
