(* ===== verification/ScaleDown.thy ===== *)
theory ScaleDown
  imports Workloads
begin

text \<open>
  Stopping a workload (\<open>internal/controller/helpers.go\<close>): \<open>currentReplicas\<close>,
  \<open>scaleWorkloadToZero\<close>, \<open>scaleDownWorkload\<close>, and \<open>findActiveScaledDownWorkloads\<close>, which reads
  back what was stopped. The closures given to \<open>RetryOnConflict\<close> are functions of the variables
  they capture and assign.
\<close>

section \<open>Objects behind client.Object\<close>

definition getObject :: "'w env \<Rightarrow> client_object \<Rightarrow> namespaced_name \<Rightarrow> ('w, api_error + client_object) prog" where
  "getObject E obj key =
     (case obj of
        DeploymentObj _ \<Rightarrow> bindE (api (c_getDeployment (cl E) key)) (\<lambda>d. ret (Inr (DeploymentObj d)))
      | StatefulSetObj _ \<Rightarrow> bindE (api (c_getStatefulSet (cl E) key)) (\<lambda>d. ret (Inr (StatefulSetObj d)))
      | CronJobObj _ \<Rightarrow> bindE (api (c_getCronJob (cl E) key)) (\<lambda>c. ret (Inr (CronJobObj c)))
      | PodObj _ \<Rightarrow> bindE (api (c_getPod (cl E) key)) (\<lambda>x. ret (Inr (PodObj x))))"

definition map_meta :: "(object_meta \<Rightarrow> object_meta) \<Rightarrow> client_object \<Rightarrow> client_object" where
  "map_meta f obj =
     (case obj of
        DeploymentObj d \<Rightarrow> DeploymentObj (d\<lparr>dep_meta := f (dep_meta d)\<rparr>)
      | StatefulSetObj d \<Rightarrow> StatefulSetObj (d\<lparr>sts_meta := f (sts_meta d)\<rparr>)
      | CronJobObj c \<Rightarrow> CronJobObj (c\<lparr>cj_meta := f (cj_meta c)\<rparr>)
      | PodObj x \<Rightarrow> PodObj (x\<lparr>pod_meta := f (pod_meta x)\<rparr>))"

definition type_name :: "client_object \<Rightarrow> string" where
  "type_name obj =
     (case obj of DeploymentObj _ \<Rightarrow> ''*v1.Deployment'' | StatefulSetObj _ \<Rightarrow> ''*v1.StatefulSet''
      | CronJobObj _ \<Rightarrow> ''*v1.CronJob'' | PodObj _ \<Rightarrow> ''*v1.Pod'')"

definition currentReplicas :: "client_object \<Rightarrow> int32 \<times> bool" where
  "currentReplicas obj =
     (case obj of
        DeploymentObj d \<Rightarrow> (case dep_replicas d of None \<Rightarrow> (1, True) | Some n \<Rightarrow> (n, True))
      | StatefulSetObj d \<Rightarrow> (case sts_replicas d of None \<Rightarrow> (1, True) | Some n \<Rightarrow> (n, True))
      | _ \<Rightarrow> (0, False))"

text \<open>The Go zero values \<open>&appsv1.Deployment{}\<close>, \<open>&appsv1.StatefulSet{}\<close>, \<open>&batchv1.CronJob{}\<close>.\<close>

definition zero_meta :: object_meta where
  "zero_meta =
     \<lparr>om_name = [], om_namespace = [], om_uid = [], om_generation = 0, om_creationTimestamp = 0,
      om_deletionTimestamp = None, om_labels = Map.empty, om_annotations = Map.empty, om_ownerReferences = []\<rparr>"

definition zero_deployment :: deployment where
  "zero_deployment = \<lparr>dep_meta = zero_meta, dep_replicas = None, dep_selector = None\<rparr>"

definition zero_statefulset :: statefulset where
  "zero_statefulset = \<lparr>sts_meta = zero_meta, sts_replicas = None, sts_selector = None\<rparr>"

section \<open>scaleWorkloadToZero\<close>

text \<open>The three annotations that attribute a stop; a scaled workload gets its replica count too.\<close>

definition attribute :: "string \<Rightarrow> string \<Rightarrow> string \<Rightarrow> object_meta \<Rightarrow> object_meta" where
  "attribute reason now policyName m = m\<lparr>om_annotations := (om_annotations m)
     (AnnotationScaledDownReason \<mapsto> reason, AnnotationScaledDownAt \<mapsto> now, AnnotationScaledDownBy \<mapsto> policyName)\<rparr>"

definition record_stop :: "string \<Rightarrow> string \<Rightarrow> string \<Rightarrow> int32 \<Rightarrow> object_meta \<Rightarrow> object_meta" where
  "record_stop reason now policyName prevReplicas m =
     (let m' = attribute reason now policyName m
      in m'\<lparr>om_annotations := (om_annotations m')(AnnotationPreviousReplicas \<mapsto> show_int32 prevReplicas)\<rparr>)"

definition annotate_attempt ::
  "'w env \<Rightarrow> namespaced_name \<Rightarrow> string \<Rightarrow> string \<Rightarrow> string \<Rightarrow> ('w, client_object \<times> int32) closure" where
  "annotate_attempt E key reason policyName now = (\<lambda>(obj, prevReplicas). do {
     r \<leftarrow> getObject E obj key;
     (case r of
        Inl e \<Rightarrow> ret (Some e, (obj, prevReplicas))
      | Inr obj' \<Rightarrow>
          (let current = fst (currentReplicas obj')
           in if current = 0 then ret (None, (obj', prevReplicas))
              else let obj'' = map_meta (record_stop reason now policyName current) obj' in do {
                u \<leftarrow> api_request (UpdateObject obj'') (c_update (cl E) obj'');
                (case u of
                   Inl e \<Rightarrow> ret (Some e, (obj'', current))
                 | Inr stored \<Rightarrow> ret (None, (stored, current))) })) })"

definition scale_attempt :: "'w env \<Rightarrow> client_object \<Rightarrow> ('w, scale) closure" where
  "scale_attempt E obj = (\<lambda>sc. do {
     r \<leftarrow> api (c_getScale (cl E) obj);
     (case r of
        Inl e \<Rightarrow> ret (Some e, sc)
      | Inr sc' \<Rightarrow>
          if sc_replicas sc' = 0 then ret (None, sc')
          else let sc'' = sc'\<lparr>sc_replicas := 0\<rparr> in do {
            u \<leftarrow> api_request (UpdateScale obj sc'') (c_updateScale (cl E) obj sc'');
            (case u of
               Inl e \<Rightarrow> ret (Some e, sc'')
             | Inr stored \<Rightarrow> ret (None, stored)) }) })"

definition scaleWorkloadToZero ::
  "'w env \<Rightarrow> client_object \<Rightarrow> namespaced_name \<Rightarrow> string \<Rightarrow> string \<Rightarrow> string \<Rightarrow> bool \<Rightarrow> ('w, api_error + bool) prog" where
  "scaleWorkloadToZero E obj key reason policyName now dryRun =
     bindE (getObject E obj key) (\<lambda>obj.
       case currentReplicas obj of (replicas, supported) \<Rightarrow>
         if \<not> supported then ret (Inl (Failed (''unsupported workload type '' @ type_name obj)))
         else if replicas = 0 then ret (Inr False)
         else if dryRun then ret (Inr True)
         else do {
           (err, (obj, prevReplicas)) \<leftarrow>
             retryObject (rt E) (annotate_attempt E key reason policyName now) (obj, 0);
           (case err of
              Some e \<Rightarrow> ret (Inl e)
            | None \<Rightarrow>
                if prevReplicas = 0 then ret (Inr False)
                else do {
                  (err, sc) \<leftarrow> retryScale (rt E) (scale_attempt E obj) \<lparr>sc_replicas = 0\<rparr>;
                  (case err of Some e \<Rightarrow> ret (Inl e) | None \<Rightarrow> ret (Inr True)) }) })"

section \<open>scaleDownWorkload\<close>

definition suspend_attempt ::
  "'w env \<Rightarrow> namespaced_name \<Rightarrow> string \<Rightarrow> string \<Rightarrow> string \<Rightarrow> ('w, cronjob) closure" where
  "suspend_attempt E key reason policyName now = (\<lambda>cj. do {
     r \<leftarrow> api (c_getCronJob (cl E) key);
     (case r of
        Inl e \<Rightarrow> ret (Some e, cj)
      | Inr cj \<Rightarrow>
          if cj_suspend cj = Some True then ret (None, cj)
          else let cj' = cj\<lparr>cj_suspend := Some True, cj_meta := attribute reason now policyName (cj_meta cj)\<rparr> in do {
            u \<leftarrow> api_request (UpdateObject (CronJobObj cj')) (c_update (cl E) (CronJobObj cj'));
            (case u of
               Inl e \<Rightarrow> ret (Some e, cj')
             | Inr stored \<Rightarrow> ret (None, case stored of CronJobObj c \<Rightarrow> c | _ \<Rightarrow> cj')) }) })"

definition scaleDownWorkload ::
  "'w env \<Rightarrow> ownerWorkload \<Rightarrow> string \<Rightarrow> string \<Rightarrow> bool \<Rightarrow> ('w, api_error + bool) prog" where
  "scaleDownWorkload E w reason policyName dryRun = do {
     t \<leftarrow> time_now E;
     (let now = format_rfc3339 t;
          key = owner_key w
      in if ow_kind w = ''Deployment'' then
           scaleWorkloadToZero E (DeploymentObj zero_deployment) key reason policyName now dryRun
         else if ow_kind w = ''StatefulSet'' then
           scaleWorkloadToZero E (StatefulSetObj zero_statefulset) key reason policyName now dryRun
         else if ow_kind w = ''CronJob'' then
           bindE (api (c_getCronJob (cl E) key)) (\<lambda>cj.
             if cj_suspend cj = Some True then ret (Inr False)
             else if dryRun then ret (Inr True)
             else do {
               (err, cj) \<leftarrow> retryCronJob (rt E) (suspend_attempt E key reason policyName now) cj;
               (case err of Some e \<Rightarrow> ret (Inl e) | None \<Rightarrow> ret (Inr True)) })
         else ret (Inr False)) }"

section \<open>findActiveScaledDownWorkloads\<close>

text \<open>What each of the three loops tests before it appends a reference.\<close>

definition held_by :: "string set option \<Rightarrow> string list \<Rightarrow> string \<Rightarrow> object_meta \<Rightarrow> bool" where
  "held_by allowedNamespaces excludeNamespaces policyName m =
     (if map_get (om_annotations m) AnnotationScaledDownReason = [] then False
      else if map_get (om_annotations m) AnnotationScaledDownBy \<noteq> policyName then False
      else if isExcludedNamespace (om_namespace m) excludeNamespaces then False
      else if \<not> admits allowedNamespaces (om_namespace m) then False
      else True)"

definition held_ref :: "string \<Rightarrow> object_meta \<Rightarrow> ScaledDownWorkloadRef" where
  "held_ref kind m = \<lparr>ref_kind = kind, ref_namespace = om_namespace m, ref_name = om_name m\<rparr>"

text \<open>One of the three blocks: list the kind when it is a target, append what is held.\<close>

definition append_held ::
  "string \<Rightarrow> string list \<Rightarrow> (object_meta \<Rightarrow> bool) \<Rightarrow> ('w, api_error + 'o list) state \<Rightarrow> ('o \<Rightarrow> object_meta) \<Rightarrow>
   ScaledDownWorkloadRef list \<Rightarrow> ('w, api_error + ScaledDownWorkloadRef list) prog" where
  "append_held kind targets held list_objects mt active =
     (if isTargetKind kind targets then
        bindE (api list_objects) (\<lambda>objs.
          ret (Inr (active @ map (held_ref kind) (filter held (map mt objs)))))
      else ret (Inr active))"

definition findActiveScaledDownWorkloads ::
  "'w env \<Rightarrow> string set option \<Rightarrow> string list \<Rightarrow> string list \<Rightarrow> string \<Rightarrow>
   ('w, api_error + ScaledDownWorkloadRef list) prog" where
  "findActiveScaledDownWorkloads E allowedNamespaces excludeNamespaces targets policyName =
     (let held = held_by allowedNamespaces excludeNamespaces policyName
      in bindE (append_held ''Deployment'' targets held (c_listDeployments (cl E)) dep_meta []) (\<lambda>active.
         bindE (append_held ''StatefulSet'' targets held (c_listStatefulSets (cl E)) sts_meta active) (\<lambda>active.
         append_held ''CronJob'' targets held (c_listCronJobs (cl E)) cj_meta active)))"

lemma getObject_emits [emits_intros]: "emits P (getObject E obj key)"
  unfolding getObject_def by (cases obj) (auto intro!: emits_intros)

lemma append_held_emits [emits_intros]: "emits P (append_held kind targets held m mt active)"
  unfolding append_held_def by (intro emits_intros)

lemma findActiveScaledDownWorkloads_emits [emits_intros]: "emits P (findActiveScaledDownWorkloads E a x t p)"
  unfolding findActiveScaledDownWorkloads_def by (intro emits_intros)

end
