(* ===== verification/ScaleSafety.thy ===== *)
theory ScaleSafety
  imports ScaleDown
begin

text \<open>
  What stopping a workload guarantees: a dry run has no effect; the record of a stop is written
  before the replica count, under every interleaving with other controllers; in a store nobody else
  writes to, the result is exactly the annotated object with zero replicas (or the suspended
  CronJob) and the count to restore can be read back. The last section is a race in which the
  order of the writes does not protect the record.
\<close>

section \<open>Dry run\<close>

lemma list_all_False_Nil: "list_all (\<lambda>_. False) es \<longleftrightarrow> es = []"
  by (cases es) auto

lemma emits_nothing: "emits (\<lambda>_. False) m \<Longrightarrow> trace (snd (run_state m s)) = trace s"
  by (auto simp: emits_def list_all_False_Nil)

lemma scaleWorkloadToZero_dry: "emits P (scaleWorkloadToZero E obj key reason p now True)"
  unfolding scaleWorkloadToZero_def by (auto intro!: emits_intros)

lemma scaleDownWorkload_dry: "emits P (scaleDownWorkload E w reason p True)"
  by (auto simp: scaleDownWorkload_def Let_def intro!: emits_intros scaleWorkloadToZero_dry)

text \<open>
  With dry run on, stopping a workload writes nothing, emits no metric and no event, for
  every workload and whatever the API server answers.
\<close>

lemma dry_run_has_no_effect:
  "trace (snd (run_state (scaleDownWorkload E w reason p True) s)) = trace s"
  by (rule emits_nothing [OF scaleDownWorkload_dry])

section \<open>The order of the writes\<close>

text \<open>
  The last attempt of a retry loop: an invariant that every attempt answered with a conflict keeps
  holds when the last attempt starts, and the result is that of the last attempt.
\<close>

lemma retry_run_last:
  assumes "retry_run f l s out" "I l (trace s)"
    and step: "\<And>l s e l' s'. I l (trace s) \<Longrightarrow> run_state (f l) s = ((Some e, l'), s') \<Longrightarrow> IsConflict e \<Longrightarrow> I l' (trace s')"
  shows "\<exists>l0 s0. I l0 (trace s0) \<and> run_state (f l0) s0 = out"
  using assms(1,2)
proof (induction rule: retry_run.induct)
  case (retry_again l s e l' s' s'' out)
  from step [OF retry_again.prems retry_again.hyps(1,2)] retry_again.hyps(3)
  have "I l' (trace s'')" by simp
  then show ?case by (rule retry_again.IH)
qed blast

definition ann :: "client_object \<Rightarrow> string \<rightharpoonup> string" where
  "ann obj = om_annotations (object_meta_of obj)"

text \<open>
  An object that records a stop: it names the reason and the policy and, for a scaled workload,
  the replica count it still has; a CronJob is suspended by the same write.
\<close>

definition recorded :: "string \<Rightarrow> string \<Rightarrow> client_object \<Rightarrow> bool" where
  "recorded reason p obj \<longleftrightarrow>
     ann obj AnnotationScaledDownReason = Some reason \<and> ann obj AnnotationScaledDownBy = Some p \<and>
     (case obj of
        CronJobObj c \<Rightarrow> cj_suspend c = Some True
      | _ \<Rightarrow> fst (currentReplicas obj) \<noteq> 0 \<and>
             ann obj AnnotationPreviousReplicas = Some (show_int32 (fst (currentReplicas obj))))"

definition record_write :: "string \<Rightarrow> string \<Rightarrow> effect \<Rightarrow> bool" where
  "record_write reason p ef = (case ef of ApiWrite (UpdateObject obj) _ \<Rightarrow> recorded reason p obj | _ \<Rightarrow> False)"

definition zero_write :: "effect \<Rightarrow> bool" where
  "zero_write ef = (case ef of ApiWrite (UpdateScale _ sc) _ \<Rightarrow> sc_replicas sc = 0 | _ \<Rightarrow> False)"

definition write_conflict :: "effect \<Rightarrow> bool" where
  "write_conflict ef = (case ef of ApiWrite _ (Some e) \<Rightarrow> IsConflict e | _ \<Rightarrow> False)"

definition write_ok :: "effect \<Rightarrow> bool" where
  "write_ok ef = (case ef of ApiWrite _ None \<Rightarrow> True | _ \<Rightarrow> False)"

definition record_phase :: "string \<Rightarrow> string \<Rightarrow> effect list \<Rightarrow> bool" where
  "record_phase reason p us \<longleftrightarrow> list_all (record_write reason p) us \<and> list_all write_conflict (butlast us)"

lemma currentReplicas_map_meta [simp]: "currentReplicas (map_meta f obj) = currentReplicas obj"
  by (cases obj) (simp_all add: currentReplicas_def map_meta_def)

lemma object_meta_of_map_meta [simp]: "object_meta_of (map_meta f obj) = f (object_meta_of obj)"
  by (cases obj) (simp_all add: object_meta_of_def map_meta_def)

lemma recorded_record_stop:
  "fst (currentReplicas obj) \<noteq> 0 \<Longrightarrow>
   recorded reason p (map_meta (record_stop reason now p (fst (currentReplicas obj))) obj)"
  by (cases obj) (auto simp: recorded_def ann_def record_stop_def attribute_def Let_def currentReplicas_def
      object_meta_of_def map_meta_def split: option.splits)

lemma recorded_attribute:
  "recorded reason p (CronJobObj (c\<lparr>cj_suspend := Some True, cj_meta := attribute reason now p (cj_meta c)\<rparr>))"
  by (simp add: recorded_def ann_def attribute_def object_meta_of_def)

lemma run_getObject:
  "run_state (getObject E obj key) s = (r, t) \<Longrightarrow> trace t = trace s"
  using emits_nothing [OF getObject_emits, of E obj key s] by simp

lemma run_annotate_attempt:
  assumes "run_state (annotate_attempt E key reason p now (obj, prev)) s = ((err, (obj', prev')), t)"
  shows "trace t = trace s \<and> prev' = prev \<or>
    (\<exists>o'. trace t = trace s @ [ApiWrite (UpdateObject o') err] \<and> recorded reason p o' \<and>
       prev' = fst (currentReplicas o') \<and> prev' \<noteq> 0)"
proof -
  obtain r s1 where g: "run_state (getObject E obj key) s = (r, s1)" by force
  note tr = run_getObject [OF g]
  show ?thesis
  proof (cases r)
    case (Inl e)
    with assms g tr show ?thesis by (auto simp: annotate_attempt_def)
  next
    case (Inr ob)
    show ?thesis
    proof (cases "fst (currentReplicas ob) = 0")
      case True
      with assms g tr Inr show ?thesis by (auto simp: annotate_attempt_def)
    next
      case False
      with assms g tr Inr show ?thesis
        by (auto simp: annotate_attempt_def Let_def api_request_def run_prog err_of_def recorded_record_stop
            split: prod.splits sum.splits)
    qed
  qed
qed

lemma record_phase_snoc:
  "record_phase reason p us \<Longrightarrow> list_all write_conflict us \<Longrightarrow> record_write reason p ef \<Longrightarrow>
   record_phase reason p (us @ [ef])"
  by (simp add: record_phase_def)

lemma annotate_phase:
  assumes "retry_run (annotate_attempt E key reason p now) (obj, 0) s ((err, (obj', prev)), t)"
  shows "\<exists>us. trace t = trace s @ us \<and> record_phase reason p us \<and>
     (us = [] \<longleftrightarrow> prev = 0) \<and> (err = None \<longrightarrow> us \<noteq> [] \<longrightarrow> write_ok (last us) \<or> write_conflict (last us))"
proof -
  define I where "I l tr \<longleftrightarrow> (\<exists>us. tr = trace s @ us \<and> record_phase reason p us \<and> list_all write_conflict us \<and>
      (us = [] \<longleftrightarrow> snd l = 0))" for l :: "client_object \<times> int32" and tr
  have init: "I (obj, 0) (trace s)" by (simp add: I_def record_phase_def)
  have step: "I l' (trace s2)" if I: "I l (trace s1)"
    and r: "run_state (annotate_attempt E key reason p now l) s1 = ((Some e, l'), s2)" and c: "IsConflict e"
    for l s1 e l' s2
  proof -
    obtain o1 p1 o2 p2 where l: "l = (o1, p1)" "l' = (o2, p2)" by (metis surj_pair)
    obtain us where us: "trace s1 = trace s @ us" "record_phase reason p us" "list_all write_conflict us"
      "us = [] \<longleftrightarrow> p1 = 0" using I l by (auto simp: I_def)
    from run_annotate_attempt [OF r [unfolded l]] show ?thesis
    proof (elim disjE exE conjE)
      fix oo assume "trace s2 = trace s1 @ [ApiWrite (UpdateObject oo) (Some e)]" "recorded reason p oo" "p2 \<noteq> 0"
      then show ?thesis using us c l unfolding I_def
        by (intro exI [of _ "us @ [ApiWrite (UpdateObject oo) (Some e)]"] conjI record_phase_snoc)
          (auto simp: record_write_def write_conflict_def)
    qed (use us l in \<open>auto simp: I_def\<close>)
  qed
  have "\<exists>l0 s0. I l0 (trace s0) \<and> run_state (annotate_attempt E key reason p now l0) s0 = ((err, (obj', prev)), t)"
    by (rule retry_run_last [where I = I, OF assms init]) (rule step)
  then obtain l0 s0 where
    "I l0 (trace s0)" "run_state (annotate_attempt E key reason p now l0) s0 = ((err, (obj', prev)), t)"
    by blast
  then obtain us o1 p1 where us: "trace s0 = trace s @ us" "record_phase reason p us" "list_all write_conflict us"
      "us = [] \<longleftrightarrow> p1 = 0"
    and r: "run_state (annotate_attempt E key reason p now (o1, p1)) s0 = ((err, (obj', prev)), t)"
    by (cases l0) (auto simp: I_def)
  from run_annotate_attempt [OF r] show ?thesis
  proof (elim disjE exE conjE)
    assume "trace t = trace s0" "prev = p1"
    then show ?thesis using us by (auto simp: list_all_iff)
  next
    fix oo assume "trace t = trace s0 @ [ApiWrite (UpdateObject oo) err]" "recorded reason p oo" "prev \<noteq> 0"
    then show ?thesis using us
      by (intro exI [of _ "us @ [ApiWrite (UpdateObject oo) err]"])
        (auto simp: record_write_def write_ok_def intro!: record_phase_snoc)
  qed
qed

lemma scale_attempt_emits: "emits zero_write (scale_attempt E obj sc)"
  unfolding scale_attempt_def by (auto simp: Let_def zero_write_def intro!: emits_intros)

text \<open>What a stop writes: records first, the scale requests after them.\<close>

definition stop_trace :: "string \<Rightarrow> string \<Rightarrow> bool \<Rightarrow> effect list \<Rightarrow> bool" where
  "stop_trace reason p acted es \<longleftrightarrow> (\<exists>us vs. es = us @ vs \<and> record_phase reason p us \<and> list_all zero_write vs \<and>
     (acted \<or> vs \<noteq> [] \<longrightarrow> us \<noteq> [] \<and> (write_ok (last us) \<or> write_conflict (last us))))"

lemma stop_trace_Nil: "stop_trace reason p False []"
  by (simp add: stop_trace_def record_phase_def)

lemma stop_trace_early: "trace t = trace s \<Longrightarrow> \<not> acted \<Longrightarrow> \<exists>es. trace t = trace s @ es \<and> stop_trace reason p acted es"
  using stop_trace_Nil by (intro exI [of _ "[]"]) simp

text \<open>The two retry loops of a stop.\<close>

lemma retries_run:
  "retriers_ok E \<Longrightarrow> run_state (retryObject (rt E) f l) s = out \<Longrightarrow> retry_run f l s out"
  "retriers_ok E \<Longrightarrow> run_state (retryCronJob (rt E) g c) s = out' \<Longrightarrow> retry_run g c s out'"
  unfolding retriers_ok_def retry_contract_def by metis+

lemma annotate_retry_trace:
  assumes "retriers_ok E" "run_state (retryObject (rt E) (annotate_attempt E key reason p now) (ob, 0)) s = ((err, (o1, prev)), t)"
  shows "\<exists>us. trace t = trace s @ us \<and> record_phase reason p us \<and> (us = [] \<longleftrightarrow> prev = 0) \<and>
    (err = None \<longrightarrow> us \<noteq> [] \<longrightarrow> write_ok (last us) \<or> write_conflict (last us))"
  by (rule annotate_phase [OF retries_run(1) [OF assms]])

lemma scale_retry_trace:
  assumes "retriers_ok E" "run_state (retryScale (rt E) (scale_attempt E ob) sc) s = (out, t)"
  shows "\<exists>vs. trace t = trace s @ vs \<and> list_all zero_write vs"
proof -
  have "emits zero_write (retryScale (rt E) (scale_attempt E ob) sc)"
    using assms(1) scale_attempt_emits by (auto simp: retriers_ok_def intro: emits_retry)
  with assms(2) show ?thesis by (meson emitsD)
qed

lemma scaleWorkloadToZero_trace:
  assumes ok: "retriers_ok E" and run: "run_state (scaleWorkloadToZero E obj key reason p now False) s = (r, t)"
  shows "\<exists>es. trace t = trace s @ es \<and> stop_trace reason p (r = Inr True) es"
proof -
  obtain g s1 where g: "run_state (getObject E obj key) s = (g, s1)" by force
  note tr1 = run_getObject [OF g]
  show ?thesis
  proof (cases "\<exists>ob n. g = Inr ob \<and> currentReplicas ob = (n, True) \<and> n \<noteq> 0")
    case False
    then have "trace t = trace s \<and> r \<noteq> Inr True"
      using run g tr1 by (auto simp: scaleWorkloadToZero_def run_bindE split: sum.splits prod.splits if_splits)
    then show ?thesis by (intro stop_trace_early) simp_all
  next
    case True
    then obtain ob n where ob: "g = Inr ob" "currentReplicas ob = (n, True)" "n \<noteq> 0" by blast
    obtain err o1 prev s2 where a:
      "run_state (retryObject (rt E) (annotate_attempt E key reason p now) (ob, 0)) s1 = ((err, (o1, prev)), s2)"
      by (metis surj_pair)
    from annotate_retry_trace [OF ok a] tr1 obtain us where us: "trace s2 = trace s @ us" "record_phase reason p us"
      "us = [] \<longleftrightarrow> prev = 0" "err = None \<longrightarrow> us \<noteq> [] \<longrightarrow> write_ok (last us) \<or> write_conflict (last us)" by auto
    obtain err2 sc s3 where b: "run_state (retryScale (rt E) (scale_attempt E o1) \<lparr>sc_replicas = 0\<rparr>) s2 = ((err2, sc), s3)"
      by (metis surj_pair)
    from scale_retry_trace [OF ok b] obtain vs where vs: "trace s3 = trace s2 @ vs" "list_all zero_write vs" by blast
    consider "err = None" "prev \<noteq> 0" "t = s3" | "trace t = trace s2" "r \<noteq> Inr True"
      using run g ob a b by (cases "err = None \<and> prev \<noteq> 0")
        (auto simp: scaleWorkloadToZero_def run_bindE split: option.splits if_splits)
    then show ?thesis
    proof cases
      case 1
      with us vs show ?thesis by (intro exI [of _ "us @ vs"]) (auto simp: stop_trace_def)
    next
      case 2
      with us show ?thesis unfolding stop_trace_def by (intro exI [of _ us] conjI exI [of _ "[]"]) auto
    qed
  qed
qed

lemma retry_records:
  assumes "retry_run f l s ((err, l'), t)"
    and attempt: "\<And>l s err l' t. run_state (f l) s = ((err, l'), t) \<Longrightarrow>
      trace t = trace s \<or> (\<exists>obj. trace t = trace s @ [ApiWrite (UpdateObject obj) err] \<and> recorded reason p obj)"
  shows "\<exists>us. trace t = trace s @ us \<and> record_phase reason p us"
proof -
  define I where "I l tr \<longleftrightarrow> (\<exists>us. tr = trace s @ us \<and> record_phase reason p us \<and> list_all write_conflict us)"
    for l :: 'a and tr
  have grow: "\<exists>us. trace s2 = trace s @ us \<and> record_phase reason p us \<and>
      ((\<exists>e. err = Some e \<and> IsConflict e) \<longrightarrow> list_all write_conflict us)"
    if I: "I l1 (trace s1)" and r: "run_state (f l1) s1 = ((err, l2), s2)" for l1 s1 err l2 s2
  proof -
    obtain us where us: "trace s1 = trace s @ us" "record_phase reason p us" "list_all write_conflict us"
      using I by (auto simp: I_def)
    from attempt [OF r] show ?thesis
    proof (elim disjE exE conjE)
      fix obj assume "trace s2 = trace s1 @ [ApiWrite (UpdateObject obj) err]" "recorded reason p obj"
      then show ?thesis using us
        by (intro exI [of _ "us @ [ApiWrite (UpdateObject obj) err]"] conjI record_phase_snoc)
          (auto simp: record_write_def write_conflict_def)
    qed (use us in auto)
  qed
  have "\<exists>l0 s0. I l0 (trace s0) \<and> run_state (f l0) s0 = ((err, l'), t)"
  proof (rule retry_run_last [where I = I, OF assms(1)])
    show "I l (trace s)" by (simp add: I_def record_phase_def)
    show "I l2 (trace s2)" if "I l1 (trace s1)" "run_state (f l1) s1 = ((Some e, l2), s2)" "IsConflict e"
      for l1 s1 e l2 s2
      using grow [OF that(1,2)] that(3) by (auto simp: I_def)
  qed
  then show ?thesis using grow by blast
qed

lemma run_suspend_attempt:
  assumes "run_state (suspend_attempt E key reason p now cj) s = ((err, cj'), t)"
  shows "trace t = trace s \<or>
    (\<exists>obj. trace t = trace s @ [ApiWrite (UpdateObject obj) err] \<and> recorded reason p obj)"
proof -
  obtain r w where g: "run_state (c_getCronJob (cl E) key) (world s) = (r, w)" by force
  show ?thesis
  proof (cases r)
    case (Inl e)
    with assms g show ?thesis by (auto simp: suspend_attempt_def run_prog)
  next
    case (Inr c)
    show ?thesis
    proof (cases "cj_suspend c = Some True")
      case True
      with assms g Inr show ?thesis by (auto simp: suspend_attempt_def run_prog)
    next
      case False
      let ?c = "c\<lparr>cj_suspend := Some True, cj_meta := attribute reason p now (cj_meta c)\<rparr>"
      from assms g Inr False show ?thesis
        by (intro disjI2) (auto simp: suspend_attempt_def Let_def api_request_def run_prog err_of_def recorded_attribute
            split: prod.splits sum.splits)
    qed
  qed
qed

lemma stop_trace_CronJob: "record_phase reason p us \<Longrightarrow> stop_trace reason p False us"
  unfolding stop_trace_def by (intro exI [of _ us] exI [of _ "[]"]) simp

lemma suspend_retry_trace:
  assumes "retriers_ok E" "run_state (retryCronJob (rt E) (suspend_attempt E key reason p now) cj) s = ((err, cj'), t)"
  shows "\<exists>us. trace t = trace s @ us \<and> record_phase reason p us"
  by (rule retry_records [OF retries_run(2) [OF assms]]) (rule run_suspend_attempt)

lemma scaleDownWorkload_trace:
  assumes ok: "retriers_ok E" and run: "run_state (scaleDownWorkload E w reason p False) s = (r, t)"
  shows "\<exists>es. trace t = trace s @ es \<and> stop_trace reason p (r = Inr True \<and> ow_kind w \<noteq> ''CronJob'') es"
proof -
  obtain now s1 where now: "run_state (time_now E) s = (now, s1)" "trace s1 = trace s"
    using emits_nothing [OF emits_time_now] by (metis prod.collapse)
  consider (scale) obj where "ow_kind w = ''Deployment'' \<or> ow_kind w = ''StatefulSet''"
      "run_state (scaleWorkloadToZero E obj (owner_key w) reason p (format_rfc3339 now) False) s1 = (r, t)"
    | (cron) "ow_kind w = ''CronJob''" | (other) "r = Inr False" "t = s1"
    using run now(1) by (auto simp: scaleDownWorkload_def Let_def split: if_splits)
  then show ?thesis
  proof cases
    case scale
    from scaleWorkloadToZero_trace [OF ok scale(2)] now(2) scale(1) show ?thesis by auto
  next
    case other
    with now(2) show ?thesis by (intro stop_trace_early) simp_all
  next
    case cron
    obtain g k where g: "run_state (c_getCronJob (cl E) (owner_key w)) (world s1) = (g, k)" by force
    let ?f = "suspend_attempt E (owner_key w) reason p (format_rfc3339 now)"
    consider "trace t = trace s"
      | cj err cj' where "run_state (retryCronJob (rt E) ?f cj) (s1\<lparr>world := k\<rparr>) = ((err, cj'), t)"
      using run now g cron by (auto simp: scaleDownWorkload_def Let_def run_prog split: sum.splits if_splits prod.splits option.splits)
    then show ?thesis
    proof cases
      case 1
      with cron show ?thesis by (intro stop_trace_early) simp_all
    next
      case 2
      from suspend_retry_trace [OF ok 2] obtain us where "trace t = trace s @ us" "record_phase reason p us" using now(2) by auto
      then show ?thesis using cron stop_trace_CronJob by (intro exI [of _ us]) simp
    qed
  qed
qed

text \<open>
  C3: whatever other controllers do meanwhile, a stop writes in a fixed order: first the records
  (annotations with reason, policy and, for a scaled workload, the replica count it has at that
  moment; a CronJob is suspended by the same write), every one but the last answered with a
  conflict, then only requests to scale to zero, and those only when the last record was stored or
  refused with a conflict; another error of a record write stops it before any scaling.
\<close>

theorem scale_down_write_order:
  assumes "retriers_ok E" "run_state (scaleDownWorkload E w reason p False) s = (r, t)"
  shows "\<exists>us vs. trace t = trace s @ us @ vs \<and> list_all (record_write reason p) us \<and>
     list_all write_conflict (butlast us) \<and> list_all zero_write vs \<and>
     (vs \<noteq> [] \<longrightarrow> us \<noteq> [] \<and> (write_ok (last us) \<or> write_conflict (last us)))"
  using scaleDownWorkload_trace [OF assms] unfolding stop_trace_def record_phase_def by blast


section \<open>What a stop does to an exclusive store\<close>

definition set_replicas :: "int32 \<Rightarrow> client_object \<Rightarrow> client_object" where
  "set_replicas n obj =
     (case obj of
        DeploymentObj d \<Rightarrow> DeploymentObj (d\<lparr>dep_replicas := Some n\<rparr>)
      | StatefulSetObj d \<Rightarrow> StatefulSetObj (d\<lparr>sts_replicas := Some n\<rparr>)
      | _ \<Rightarrow> obj)"

definition key_of :: "client_object \<Rightarrow> namespaced_name" where
  "key_of obj = meta_key (object_meta_of obj)"

text \<open>The template \<open>scaleDownWorkload\<close> reads a workload of this kind into.\<close>

definition template :: "string \<Rightarrow> client_object option" where
  "template kind =
     (if kind = ''Deployment'' then Some (DeploymentObj zero_deployment)
      else if kind = ''StatefulSet'' then Some (StatefulSetObj zero_statefulset) else None)"

definition like :: "client_object \<Rightarrow> client_object \<Rightarrow> namespaced_name \<Rightarrow> bool" where
  "like tmpl obj key \<longleftrightarrow> type_name obj = type_name tmpl \<and> key_of obj = key"

text \<open>
  The documented behaviour of the API for objects of one kind while nobody else writes: \<open>view\<close> is
  what is stored, a read returns it, an update stores the object, the scale subresource reads and
  writes the replica count of the stored object, and reading the clock changes nothing.
\<close>

definition replica_store ::
  "'w env \<Rightarrow> client_object \<Rightarrow> ('w \<Rightarrow> namespaced_name \<rightharpoonup> client_object) \<Rightarrow> bool" where
  "replica_store E tmpl view \<longleftrightarrow>
     (\<forall>w. view (snd (run_state (c_now (cl E)) w)) = view w) \<and>
     (\<forall>key s. run_state (getObject E tmpl key) s =
        (case view (world s) key of None \<Rightarrow> Inl NotFound | Some obj \<Rightarrow> Inr obj, s)) \<and>
     (\<forall>w key obj. view w key = Some obj \<longrightarrow> like tmpl obj key) \<and>
     (\<forall>w key obj stored. view w key = Some stored \<longrightarrow> like tmpl obj key \<longrightarrow>
        (\<exists>w'. run_state (c_update (cl E) obj) w = (Inr obj, w') \<and> view w' = (view w)(key \<mapsto> obj)) \<and>
        run_state (c_getScale (cl E) obj) w = (Inr \<lparr>sc_replicas = fst (currentReplicas stored)\<rparr>, w) \<and>
        (\<forall>sc. \<exists>w'. run_state (c_updateScale (cl E) obj sc) w = (Inr sc, w') \<and>
           view w' = (view w)(key \<mapsto> set_replicas (sc_replicas sc) stored)))"

lemma retry_run_success:
  "retry_run f l s out \<Longrightarrow> run_state (f l) s = ((None, l'), s') \<Longrightarrow> out = ((None, l'), s')"
  by (induction rule: retry_run.induct) auto

lemma getObject_like: "type_name obj = type_name tmpl \<Longrightarrow> getObject E obj key = getObject E tmpl key"
  by (cases obj; cases tmpl) (auto simp: type_name_def getObject_def)

lemma like_map_meta:
  "like tmpl obj key \<Longrightarrow> meta_key (f (object_meta_of obj)) = meta_key (object_meta_of obj) \<Longrightarrow> like tmpl (map_meta f obj) key"
  by (cases obj) (auto simp: like_def key_of_def map_meta_def object_meta_of_def type_name_def)

lemma meta_key_record_stop [simp]: "meta_key (record_stop reason now p n m) = meta_key m"
  by (simp add: record_stop_def attribute_def Let_def meta_key_def)

lemma template_supported:
  "template kind = Some tmpl \<Longrightarrow> type_name obj = type_name tmpl \<Longrightarrow> snd (currentReplicas obj)"
  by (cases obj) (auto simp: template_def type_name_def currentReplicas_def split: if_splits option.splits)

lemma scaleDownWorkload_template:
  "template (ow_kind w) = Some tmpl \<Longrightarrow>
   scaleDownWorkload E w reason p dry = do {
     t \<leftarrow> time_now E; scaleWorkloadToZero E tmpl (owner_key w) reason p (format_rfc3339 t) dry }"
  by (auto simp: scaleDownWorkload_def template_def Let_def split: if_splits)

lemma store_annotate:
  assumes st: "replica_store E tmpl view" and v: "view (world s) key = Some obj" and n: "fst (currentReplicas obj) = n" "n \<noteq> 0"
    and l: "type_name ob = type_name tmpl"
  shows "\<exists>t. run_state (annotate_attempt E key reason p now (ob, k)) s =
      ((None, (map_meta (record_stop reason now p n) obj, n)), t) \<and>
    view (world t) = (view (world s))(key \<mapsto> map_meta (record_stop reason now p n) obj) \<and>
    trace t = trace s @ [ApiWrite (UpdateObject (map_meta (record_stop reason now p n) obj)) None] \<and>
    world t = snd (run_state (c_update (cl E) (map_meta (record_stop reason now p n) obj)) (world s)) \<and>
    nsCache t = nsCache s"
proof -
  let ?o = "map_meta (record_stop reason now p n) obj"
  have "like tmpl obj key" using st v by (auto simp: replica_store_def)
  then have "like tmpl ?o key" by (rule like_map_meta) simp
  then obtain w' where u: "run_state (c_update (cl E) ?o) (world s) = (Inr ?o, w')" "view w' = (view (world s))(key \<mapsto> ?o)"
    using st v unfolding replica_store_def by blast
  have g: "run_state (getObject E ob key) s = (Inr obj, s)"
    using st v by (simp add: getObject_like [OF l] replica_store_def)
  show ?thesis using g u n
    by (auto simp: annotate_attempt_def Let_def api_request_def run_prog err_of_def)
qed

lemma store_scale:
  assumes st: "replica_store E tmpl view" and v: "view (world s) key = Some obj" and n: "fst (currentReplicas obj) \<noteq> 0"
    and l: "like tmpl ob key"
  shows "\<exists>sc' t. run_state (scale_attempt E ob sc) s = ((None, sc'), t) \<and>
    view (world t) = (view (world s))(key \<mapsto> set_replicas 0 obj) \<and>
    trace t = trace s @ [ApiWrite (UpdateScale ob \<lparr>sc_replicas = 0\<rparr>) None] \<and>
    world t = snd (run_state (c_updateScale (cl E) ob \<lparr>sc_replicas = 0\<rparr>) (world s)) \<and> nsCache t = nsCache s"
proof -
  let ?sc = "\<lparr>sc_replicas = 0\<rparr> :: scale"
  have g: "run_state (c_getScale (cl E) ob) (world s) = (Inr \<lparr>sc_replicas = fst (currentReplicas obj)\<rparr>, world s)"
    using st v l unfolding replica_store_def by blast
  have "\<exists>w'. run_state (c_updateScale (cl E) ob ?sc) (world s) = (Inr ?sc, w') \<and>
      view w' = (view (world s))(key \<mapsto> set_replicas (sc_replicas ?sc) obj)"
    using st v l unfolding replica_store_def by blast
  then obtain w' where "run_state (c_updateScale (cl E) ob ?sc) (world s) = (Inr ?sc, w')"
      "view w' = (view (world s))(key \<mapsto> set_replicas 0 obj)"
    by auto
  with g n show ?thesis
    by (auto simp: scale_attempt_def Let_def api_request_def run_prog err_of_def)
qed

text \<open>What a stop of a running workload does: exactly two writes, both to the object that records it.\<close>

lemma store_stop:
  assumes st: "replica_store E tmpl view" and ok: "retriers_ok E" and tm: "template kind = Some tmpl"
    and v: "view (world s) key = Some obj" and n: "fst (currentReplicas obj) = n" "n \<noteq> 0"
  shows "\<exists>t. run_state (scaleWorkloadToZero E tmpl key reason p now False) s = (Inr True, t) \<and>
    view (world t) = (view (world s))(key \<mapsto> set_replicas 0 (map_meta (record_stop reason now p n) obj)) \<and>
    (\<exists>ob. type_name ob = type_name tmpl \<and>
      trace t = trace s @ [ApiWrite (UpdateObject ob) None, ApiWrite (UpdateScale ob \<lparr>sc_replicas = 0\<rparr>) None] \<and>
      world t = snd (run_state (c_updateScale (cl E) ob \<lparr>sc_replicas = 0\<rparr>)
        (snd (run_state (c_update (cl E) ob) (world s)))) \<and> nsCache t = nsCache s)"
proof -
  let ?o = "map_meta (record_stop reason now p n) obj"
  have lk: "like tmpl obj key" using st v by (auto simp: replica_store_def)
  then have lo: "like tmpl ?o key" by (rule like_map_meta) simp
  have g: "run_state (getObject E tmpl key) s = (Inr obj, s)" using st v by (simp add: replica_store_def)
  have sup: "currentReplicas obj = (n, True)"
    using template_supported [OF tm, of obj] lk n(1) by (auto simp: like_def intro!: prod_eqI)
  obtain t1 where a: "run_state (annotate_attempt E key reason p now (obj, 0)) s = ((None, (?o, n)), t1)"
      "view (world t1) = (view (world s))(key \<mapsto> ?o)" "trace t1 = trace s @ [ApiWrite (UpdateObject ?o) None]"
      "world t1 = snd (run_state (c_update (cl E) ?o) (world s))" "nsCache t1 = nsCache s"
    using store_annotate [OF st v n, of obj] lk unfolding like_def by blast
  have "retry_run (annotate_attempt E key reason p now) (obj, 0) s
      (run_state (retryObject (rt E) (annotate_attempt E key reason p now) (obj, 0)) s)"
    using ok by (simp add: retriers_ok_def retry_contract_def)
  note ra = retry_run_success [OF this a(1)]
  have v1: "view (world t1) key = Some ?o" "fst (currentReplicas ?o) \<noteq> 0" using a(2) n by simp_all
  obtain sc t where b: "run_state (scale_attempt E ?o \<lparr>sc_replicas = 0\<rparr>) t1 = ((None, sc), t)"
      "view (world t) = (view (world t1))(key \<mapsto> set_replicas 0 ?o)"
      "trace t = trace t1 @ [ApiWrite (UpdateScale ?o \<lparr>sc_replicas = 0\<rparr>) None]"
      "world t = snd (run_state (c_updateScale (cl E) ?o \<lparr>sc_replicas = 0\<rparr>) (world t1))" "nsCache t = nsCache t1"
    using store_scale [OF st v1 lo] by blast
  have "retry_run (scale_attempt E ?o) \<lparr>sc_replicas = 0\<rparr> t1
      (run_state (retryScale (rt E) (scale_attempt E ?o) \<lparr>sc_replicas = 0\<rparr>) t1)"
    using ok by (simp add: retriers_ok_def retry_contract_def)
  note rb = retry_run_success [OF this b(1)]
  have "run_state (scaleWorkloadToZero E tmpl key reason p now False) s = (Inr True, t)"
    using g sup ra rb n(2) by (simp add: scaleWorkloadToZero_def run_bindE)
  moreover have "type_name ?o = type_name tmpl" using lo by (simp add: like_def)
  ultimately show ?thesis using a b by auto
qed

lemma set_replicas_facts:
  assumes "template kind = Some tmpl" "like tmpl obj key"
  shows "fst (currentReplicas (set_replicas k obj)) = k" "ann (set_replicas k obj) = ann obj"
  using assms by (cases obj; auto simp: like_def template_def type_name_def set_replicas_def currentReplicas_def
      ann_def object_meta_of_def split: if_splits)+

lemma ann_record_stop:
  "ann (map_meta (record_stop reason now p n) obj) = (ann obj)
     (AnnotationScaledDownReason \<mapsto> reason, AnnotationScaledDownAt \<mapsto> now, AnnotationScaledDownBy \<mapsto> p,
      AnnotationPreviousReplicas \<mapsto> show_int32 n)"
  by (simp add: ann_def record_stop_def attribute_def Let_def)

lemma read_show_int32: "0 <s n \<Longrightarrow> read_nat (show_int32 n) = sint n"
  by (simp add: show_int32_def show_int_def sless_sint)

lemma store_already_stopped:
  assumes st: "replica_store E tmpl view" and tm: "template (ow_kind w) = Some tmpl"
    and v: "view (world s) (owner_key w) = Some obj" and n: "fst (currentReplicas obj) = 0"
  shows "\<exists>t. run_state (scaleDownWorkload E w reason p dry) s = (Inr False, t) \<and>
     trace t = trace s \<and> view (world t) = view (world s)"
proof -
  obtain now w1 where now: "run_state (c_now (cl E)) (world s) = (now, w1)" by force
  have v1: "view w1 = view (world s)" using st now unfolding replica_store_def by (metis snd_conv)
  have g: "run_state (getObject E tmpl (owner_key w)) (s\<lparr>world := w1\<rparr>) = (Inr obj, s\<lparr>world := w1\<rparr>)"
    using st v v1 by (simp add: replica_store_def)
  have "snd (currentReplicas obj)"
    using st v tm by (auto simp: replica_store_def like_def intro: template_supported)
  with n have "currentReplicas obj = (0, True)" by (simp add: prod_eq_iff)
  with now g v1 show ?thesis
    by (simp add: scaleDownWorkload_template [OF tm] time_now_def run_prog scaleWorkloadToZero_def)
qed

text \<open>A stop of a running workload stores exactly the recorded object with zero replicas.\<close>

lemma store_stop_workload:
  assumes "replica_store E tmpl view" "retriers_ok E" "template (ow_kind w) = Some tmpl"
    and "view (world s) (owner_key w) = Some obj" "fst (currentReplicas obj) = n" "0 <s n"
  shows "\<exists>t obj'. run_state (scaleDownWorkload E w reason p False) s = (Inr True, t) \<and>
     view (world t) = (view (world s))(owner_key w \<mapsto> obj') \<and> fst (currentReplicas obj') = 0 \<and>
     ann obj' AnnotationScaledDownReason = Some reason \<and> ann obj' AnnotationScaledDownBy = Some p \<and>
     (\<exists>a. ann obj' AnnotationPreviousReplicas = Some a \<and> read_nat a = sint n)"
proof -
  obtain now w1 where now: "run_state (c_now (cl E)) (world s) = (now, w1)" by force
  have v1: "view w1 = view (world s)" using assms(1) now unfolding replica_store_def by (metis snd_conv)
  have nz: "n \<noteq> 0" using assms(6) by auto
  let ?s1 = "s\<lparr>world := w1\<rparr>"
  let ?o = "map_meta (record_stop reason (format_rfc3339 now) p n) obj"
  have lk: "like tmpl obj (owner_key w)" using assms(1,4) by (auto simp: replica_store_def)
  have lo: "like tmpl ?o (owner_key w)" by (rule like_map_meta [OF lk]) simp
  have "view (world ?s1) (owner_key w) = Some obj" using v1 assms(4) by simp
  from store_stop [OF assms(1,2,3) this assms(5) nz, where reason = reason and p = p and now = "format_rfc3339 now"]
  obtain t where
    t: "run_state (scaleWorkloadToZero E tmpl (owner_key w) reason p (format_rfc3339 now) False) ?s1 = (Inr True, t)"
       "view (world t) = (view (world s))(owner_key w \<mapsto> set_replicas 0 ?o)"
    using v1 by auto
  have run: "run_state (scaleDownWorkload E w reason p False) s = (Inr True, t)"
    using now t(1) by (simp add: scaleDownWorkload_template [OF assms(3)] time_now_def run_prog)
  show ?thesis
    using run t(2) assms(6)
    by (intro exI [of _ t] exI [of _ "set_replicas 0 ?o"])
      (simp add: set_replicas_facts [OF assms(3) lo] ann_record_stop read_show_int32 fun_upd_def)
qed

text \<open>
  C2: with nobody else writing, stopping a Deployment or StatefulSet that runs \<open>n > 0\<close> replicas
  reports that it acted and changes that one object: its replica count is zero, its annotations
  name the reason and the policy, and the count read back from the annotation is \<open>n\<close>. Stopping it
  again, by any policy, changes nothing and reports so.
\<close>

theorem scale_down_effect:
  assumes "replica_store E tmpl view" "retriers_ok E" "template (ow_kind w) = Some tmpl"
    and "view (world s) (owner_key w) = Some obj" "fst (currentReplicas obj) = n" "0 <s n"
  shows "\<exists>t obj'. run_state (scaleDownWorkload E w reason p False) s = (Inr True, t) \<and>
     view (world t) = (view (world s))(owner_key w \<mapsto> obj') \<and> fst (currentReplicas obj') = 0 \<and>
     ann obj' AnnotationScaledDownReason = Some reason \<and> ann obj' AnnotationScaledDownBy = Some p \<and>
     (\<exists>a. ann obj' AnnotationPreviousReplicas = Some a \<and> read_nat a = sint n) \<and>
     (\<exists>t2. run_state (scaleDownWorkload E w reason2 p2 dry2) t = (Inr False, t2) \<and>
        trace t2 = trace t \<and> view (world t2) = view (world t))"
proof -
  from store_stop_workload [OF assms, of reason p] obtain t obj' where
    t: "run_state (scaleDownWorkload E w reason p False) s = (Inr True, t)"
      "view (world t) = (view (world s))(owner_key w \<mapsto> obj')" "fst (currentReplicas obj') = 0"
      "ann obj' AnnotationScaledDownReason = Some reason \<and> ann obj' AnnotationScaledDownBy = Some p"
      "\<exists>a. ann obj' AnnotationPreviousReplicas = Some a \<and> read_nat a = sint n" by blast
  from t(2) have "view (world t) (owner_key w) = Some obj'" by simp
  from store_already_stopped [OF assms(1,3) this t(3), of reason2 p2 dry2] t show ?thesis by blast
qed

section \<open>Suspending a CronJob\<close>

definition cronjob_store :: "'w env \<Rightarrow> ('w \<Rightarrow> namespaced_name \<rightharpoonup> cronjob) \<Rightarrow> bool" where
  "cronjob_store E view \<longleftrightarrow>
     (\<forall>w. view (snd (run_state (c_now (cl E)) w)) = view w) \<and>
     (\<forall>key w. run_state (c_getCronJob (cl E) key) w =
        (case view w key of None \<Rightarrow> Inl NotFound | Some c \<Rightarrow> Inr c, w)) \<and>
     (\<forall>w key c. view w key = Some c \<longrightarrow> meta_key (cj_meta c) = key) \<and>
     (\<forall>w key c. view w key \<noteq> None \<longrightarrow> meta_key (cj_meta c) = key \<longrightarrow>
        (\<exists>w'. run_state (c_update (cl E) (CronJobObj c)) w = (Inr (CronJobObj c), w') \<and>
           view w' = (view w)(key \<mapsto> c)))"

lemma store_suspend:
  assumes st: "cronjob_store E view" and ok: "retriers_ok E" and k: "ow_kind w = ''CronJob''"
    and v: "view (world s) (owner_key w) = Some cj" and su: "cj_suspend cj \<noteq> Some True"
  shows "\<exists>t now w1 c. run_state (scaleDownWorkload E w reason p False) s = (Inr True, t) \<and>
     c = cj\<lparr>cj_suspend := Some True, cj_meta := attribute reason now p (cj_meta cj)\<rparr> \<and>
     view (world t) = (view (world s))(owner_key w \<mapsto> c) \<and>
     trace t = trace s @ [ApiWrite (UpdateObject (CronJobObj c)) None] \<and>
     w1 = snd (run_state (c_now (cl E)) (world s)) \<and> world t = snd (run_state (c_update (cl E) (CronJobObj c)) w1) \<and>
     nsCache t = nsCache s"
proof -
  obtain n w1 where now: "run_state (c_now (cl E)) (world s) = (n, w1)" by force
  have v1: "view w1 = view (world s)" using st now unfolding cronjob_store_def by (metis snd_conv)
  let ?now = "format_rfc3339 n" and ?s1 = "s\<lparr>world := w1\<rparr>"
  let ?c = "cj\<lparr>cj_suspend := Some True, cj_meta := attribute reason ?now p (cj_meta cj)\<rparr>"
  let ?f = "suspend_attempt E (owner_key w) reason p ?now"
  have g: "run_state (c_getCronJob (cl E) (owner_key w)) w1 = (Inr cj, w1)"
    using st v v1 by (simp add: cronjob_store_def)
  have "meta_key (cj_meta cj) = owner_key w" using st v unfolding cronjob_store_def by blast
  then have "meta_key (cj_meta ?c) = owner_key w" by (simp add: attribute_def meta_key_def)
  moreover have "view w1 (owner_key w) \<noteq> None" using v v1 by simp
  ultimately obtain w2 where u: "run_state (c_update (cl E) (CronJobObj ?c)) w1 = (Inr (CronJobObj ?c), w2)"
    "view w2 = (view w1)(owner_key w \<mapsto> ?c)" using st unfolding cronjob_store_def by blast
  define t where "t = s\<lparr>world := w2, trace := trace s @ [ApiWrite (UpdateObject (CronJobObj ?c)) None]\<rparr>"
  have a: "run_state (?f cj) ?s1 = ((None, ?c), t)"
    using g u su by (simp add: suspend_attempt_def Let_def api_request_def run_prog err_of_def t_def)
  have "retry_run ?f cj ?s1 (run_state (retryCronJob (rt E) ?f cj) ?s1)"
    using ok by (simp add: retriers_ok_def retry_contract_def)
  note r = retry_run_success [OF this a]
  have "run_state (scaleDownWorkload E w reason p False) s = (Inr True, t)"
    using now g r k su by (simp add: scaleDownWorkload_def Let_def time_now_def run_prog)
  then show ?thesis using u v1 now
    by (intro exI [of _ t] exI [of _ ?now] exI [of _ w1] exI [of _ ?c]) (simp add: t_def)
qed

text \<open>
  C23: with nobody else writing, stopping a CronJob that is not suspended reports that it acted and
  stores exactly one change: it is suspended and annotated with reason, instant and policy. It
  records no replica count.
\<close>

theorem suspend_effect:
  assumes st: "cronjob_store E view" and ok: "retriers_ok E" and k: "ow_kind w = ''CronJob''"
    and v: "view (world s) (owner_key w) = Some cj" and su: "cj_suspend cj \<noteq> Some True"
  shows "\<exists>t now. run_state (scaleDownWorkload E w reason p False) s = (Inr True, t) \<and>
     view (world t) = (view (world s))
       (owner_key w \<mapsto> cj\<lparr>cj_suspend := Some True, cj_meta := attribute reason now p (cj_meta cj)\<rparr>)"
  using store_suspend [OF assms] by blast

section \<open>The in-memory cluster is such a store\<close>

definition deployment_view :: "cluster \<Rightarrow> namespaced_name \<rightharpoonup> client_object" where
  "deployment_view w key = map_option DeploymentObj (find (\<lambda>d. meta_key (dep_meta d) = key) (k_deployments w))"

definition cronjob_view :: "cluster \<Rightarrow> namespaced_name \<rightharpoonup> cronjob" where
  "cronjob_view w key = find (\<lambda>c. meta_key (cj_meta c) = key) (k_cronjobs w)"

lemma find_put:
  "find (\<lambda>y. meta_key (mt y) = k) (put mt x xs) =
     (if k = meta_key (mt x) \<and> find (\<lambda>y. meta_key (mt y) = k) xs \<noteq> None then Some x
      else find (\<lambda>y. meta_key (mt y) = k) xs)"
  by (induction xs) (auto simp: put_def)

lemma deployment_view_put:
  "deployment_view w key \<noteq> None \<Longrightarrow> meta_key (dep_meta d) = key \<Longrightarrow>
   deployment_view (cluster_put (DeploymentObj d) w) = (deployment_view w)(key \<mapsto> DeploymentObj d)"
  by (auto simp: deployment_view_def cluster_put_def find_put fun_eq_iff)

lemma deployment_view_Some:
  "deployment_view w key = Some obj \<longleftrightarrow>
     (\<exists>d. obj = DeploymentObj d \<and> fetch dep_meta (k_deployments w) key = Inr d \<and> meta_key (dep_meta d) = key)"
  by (auto simp: deployment_view_def fetch_def split: option.splits dest: find_Some_member)

lemma like_deployment:
  "like (DeploymentObj zero_deployment) obj key \<longleftrightarrow> (\<exists>d. obj = DeploymentObj d \<and> meta_key (dep_meta d) = key)"
  by (cases obj) (auto simp: like_def type_name_def key_of_def object_meta_of_def)

lemma fetch_find: "fetch mt xs key = (case find (\<lambda>x. meta_key (mt x) = key) xs of None \<Rightarrow> Inl NotFound | Some x \<Rightarrow> Inr x)"
  by (simp add: fetch_def)

lemma cluster_replica_store: "replica_store cluster_env (DeploymentObj zero_deployment) deployment_view"
proof (unfold replica_store_def, intro conjI allI impI)
  fix w key obj stored and sc :: scale
  assume s: "deployment_view w key = Some stored" and l: "like (DeploymentObj zero_deployment) obj key"
  obtain d where d: "obj = DeploymentObj d" "meta_key (dep_meta d) = key" using l by (auto simp: like_deployment)
  obtain d' where d': "stored = DeploymentObj d'" "fetch dep_meta (k_deployments w) key = Inr d'" "meta_key (dep_meta d') = key"
    using s by (auto simp: deployment_view_Some)
  show "\<exists>w'. run_state (c_update (cl cluster_env) obj) w = (Inr obj, w') \<and>
      deployment_view w' = (deployment_view w)(key \<mapsto> obj)"
    using deployment_view_put [of w key d] s d by (auto simp: cluster_client_def)
  show "run_state (c_getScale (cl cluster_env) obj) w = (Inr \<lparr>sc_replicas = fst (currentReplicas stored)\<rparr>, w)"
    using d d' by (simp add: cluster_client_def cluster_scale_def currentReplicas_def replicas_or_1_def split: option.split)
  have "deployment_view (cluster_put (DeploymentObj (d'\<lparr>dep_replicas := Some (sc_replicas sc)\<rparr>)) w) =
      (deployment_view w)(key \<mapsto> DeploymentObj (d'\<lparr>dep_replicas := Some (sc_replicas sc)\<rparr>))"
    using s d' by (intro deployment_view_put) auto
  then show "\<exists>w'. run_state (c_updateScale (cl cluster_env) obj sc) w = (Inr sc, w') \<and>
      deployment_view w' = (deployment_view w)(key \<mapsto> set_replicas (sc_replicas sc) stored)"
    using d d' by (simp add: cluster_client_def cluster_set_scale_def set_replicas_def)
next
  fix key and s :: "cluster ost"
  show "run_state (getObject cluster_env (DeploymentObj zero_deployment) key) s =
      (case deployment_view (world s) key of None \<Rightarrow> Inl NotFound | Some obj \<Rightarrow> Inr obj, s)"
    by (auto simp: getObject_def run_prog cluster_client_def fetch_find deployment_view_def split: option.splits)
qed (auto simp: cluster_client_def deployment_view_Some like_deployment)

lemma cluster_cronjob_store: "cronjob_store cluster_env cronjob_view"
  by (auto simp: cronjob_store_def cronjob_view_def cluster_client_def fetch_find cluster_put_def find_put fun_eq_iff
      split: option.splits dest: find_Some_member)

definition web_deployment :: deployment where
  "web_deployment = \<lparr>dep_meta = meta0 ''prod'' ''web'', dep_replicas = Some 3,
     dep_selector = Some \<lparr>matchLabels = [], matchExpressions = []\<rparr>\<rparr>"

definition web_cluster :: cluster where
  "web_cluster = empty_cluster\<lparr>k_deployments := [web_deployment]\<rparr>"

lemma web_view: "deployment_view web_cluster (owner_key web_workload) = Some (DeploymentObj web_deployment)"
  by (simp add: deployment_view_def web_cluster_def web_deployment_def meta_key_def meta0_def nsname_def web_workload_def)

lemma web_template: "template (ow_kind web_workload) = Some (DeploymentObj zero_deployment)"
  by (simp add: template_def web_workload_def)

lemma web_replicas: "fst (currentReplicas (DeploymentObj web_deployment)) = 3"
  by (simp add: currentReplicas_def web_deployment_def)

theorem scale_down_effect_witness:
  "\<exists>t obj'. run_state (scaleDownWorkload cluster_env web_workload ''why'' ''pol'' False) (run_in web_cluster) = (Inr True, t) \<and>
     deployment_view (world t) (owner_key web_workload) = Some obj' \<and> fst (currentReplicas obj') = 0 \<and>
     (\<exists>a. ann obj' AnnotationPreviousReplicas = Some a \<and> read_nat a = 3)"
proof -
  have v: "deployment_view (world (run_in web_cluster)) (owner_key web_workload) = Some (DeploymentObj web_deployment)"
    by (simp add: run_in_def web_view)
  have n: "0 <s (3 :: int32)" by (simp add: sless_sint)
  show ?thesis
    using scale_down_effect [OF cluster_replica_store cluster_retriers_ok web_template v web_replicas n,
        of "''why''" "''pol''" "[]" "[]" False] by auto
qed

theorem suspend_effect_witness:
  "\<exists>t. run_state (scaleDownWorkload cluster_env backup_workload ''why'' ''pol'' False) (run_in backup_cluster) = (Inr True, t)"
proof -
  have "cronjob_view (world (run_in backup_cluster)) (owner_key backup_workload) =
      Some \<lparr>cj_meta = meta0 ''prod'' ''backup'', cj_suspend = None\<rparr>"
    by (simp add: cronjob_view_def run_in_def backup_cluster_def backup_workload_def meta_key_def meta0_def nsname_def)
  from suspend_effect [OF cluster_cronjob_store cluster_retriers_ok _ this, of "''why''" "''pol''"]
  show ?thesis by (auto simp: backup_workload_def)
qed

lemmas stop_defs = scaleDownWorkload_def scaleWorkloadToZero_def getObject_def run_prog time_now_def Let_def
  run_in_def empty_cluster_def nsname_def meta0_def fetch_def meta_key_def currentReplicas_def cluster_retriers_def
  retry_times_numeral annotate_attempt_def scale_attempt_def api_request_def err_of_def cluster_scale_def
  map_meta_def record_stop_def attribute_def cluster_put_def put_def replicas_or_1_def cluster_set_scale_def

lemma web_stop:
  "fst (run_state (scaleDownWorkload cluster_env web_workload ''why'' ''pol'' False) (run_in web_cluster)) = Inr True \<and>
   trace (snd (run_state (scaleDownWorkload cluster_env web_workload ''why'' ''pol'' False) (run_in web_cluster))) =
     [ApiWrite (UpdateObject (map_meta (record_stop ''why'' (format_rfc3339 (2 * Hour)) ''pol'' 3) (DeploymentObj web_deployment))) None,
      ApiWrite (UpdateScale (map_meta (record_stop ''why'' (format_rfc3339 (2 * Hour)) ''pol'' 3) (DeploymentObj web_deployment)) \<lparr>sc_replicas = 0\<rparr>) None]"
  by (simp add: stop_defs web_workload_def web_cluster_def web_deployment_def cluster_client_def)

lemma web_stop_run:
  obtains t where
    "run_state (scaleDownWorkload cluster_env web_workload ''why'' ''pol'' False) (run_in web_cluster) = (Inr True, t)"
    "t = snd (run_state (scaleDownWorkload cluster_env web_workload ''why'' ''pol'' False) (run_in web_cluster))"
  using web_stop by (metis prod.collapse)

theorem scale_down_write_order_witness:
  "record_write ''why'' ''pol''
     (hd (trace (snd (run_state (scaleDownWorkload cluster_env web_workload ''why'' ''pol'' False) (run_in web_cluster)))))"
proof -
  obtain t where t: "run_state (scaleDownWorkload cluster_env web_workload ''why'' ''pol'' False) (run_in web_cluster) = (Inr True, t)"
    by (rule web_stop_run)
  from scale_down_write_order [OF cluster_retriers_ok t] obtain us vs where
    us: "trace t = us @ vs" "list_all (record_write ''why'' ''pol'') us" "vs \<noteq> [] \<longrightarrow> us \<noteq> []"
    by (auto simp: run_in_def)
  have "trace t \<noteq> []" using web_stop t by auto
  then have "us \<noteq> []" using us by auto
  then show ?thesis using us t by (cases us) auto
qed


section \<open>A race the retry loop loses\<close>

text \<open>
  The in-memory cluster with two other actors: someone scales the Deployment to zero just before the
  operator's first write, which is answered with a conflict, and an autoscaler raises it to five
  just before the operator reads the scale subresource.
\<close>

definition racing_env :: "cluster env" where
  "racing_env = cluster_env\<lparr>cl := cluster_client
     \<lparr>c_update := (\<lambda>obj. State (\<lambda>w.
        (Inl Conflict, w\<lparr>k_deployments := [web_deployment\<lparr>dep_replicas := Some 0\<rparr>]\<rparr>))),
      c_getScale := (\<lambda>obj. State (\<lambda>w.
        (Inr \<lparr>sc_replicas = 5\<rparr>, w\<lparr>k_deployments := [web_deployment\<lparr>dep_replicas := Some 5\<rparr>]\<rparr>)))\<rparr>\<rparr>"


text \<open>
  The same for a CronJob, in general: when somebody else suspends it between the two reads, the stop
  writes nothing and yet reports that it acted, so an event is emitted and the action counted.
\<close>

lemma suspended_by_another_counts_as_action:
  assumes "retriers_ok E" "ow_kind w = ''CronJob''"
    and "run_state (c_now (cl E)) (world s) = (now, w1)"
    and "run_state (c_getCronJob (cl E) (owner_key w)) w1 = (Inr cj, w2)" "cj_suspend cj \<noteq> Some True"
    and "run_state (c_getCronJob (cl E) (owner_key w)) w2 = (Inr cj', w3)" "cj_suspend cj' = Some True"
  shows "\<exists>t. run_state (scaleDownWorkload E w reason p False) s = (Inr True, t) \<and> trace t = trace s"
proof -
  let ?f = "suspend_attempt E (owner_key w) reason p (format_rfc3339 now)" and ?s2 = "s\<lparr>world := w2\<rparr>"
  have a: "run_state (?f cj) ?s2 = ((None, cj'), s\<lparr>world := w3\<rparr>)"
    using assms(6,7) by (simp add: suspend_attempt_def run_prog)
  have "retry_run ?f cj ?s2 (run_state (retryCronJob (rt E) ?f cj) ?s2)"
    using assms(1) by (simp add: retriers_ok_def retry_contract_def)
  from retry_run_success [OF this a]
  have "run_state (scaleDownWorkload E w reason p False) s = (Inr True, s\<lparr>world := w3\<rparr>)"
    using assms(2-5) by (simp add: scaleDownWorkload_def time_now_def run_prog Let_def)
  then show ?thesis by simp
qed

end
