(* ===== verification/Active.thy ===== *)
theory Active
  imports ScaleSafety
begin

text \<open>
  What \<open>findActiveScaledDownWorkloads\<close> reports: exactly the workloads of the targeted kinds that
  carry a policy's annotations in the namespaces the policy admits. The loop over one kind is a
  contract shared by the three of them.
\<close>

section \<open>The contract of one block\<close>

text \<open>
  A block that lists one kind: it appends references of that kind for the objects that are held,
  or fails, and does neither when the kind is not a target.
\<close>

definition held_refs ::
  "string \<Rightarrow> string list \<Rightarrow> (object_meta \<Rightarrow> bool) \<Rightarrow> api_error + object_meta list \<Rightarrow> ScaledDownWorkloadRef set" where
  "held_refs kind targets held answer =
     {x. kind \<in> set targets \<and> (\<exists>ms m. answer = Inr ms \<and> m \<in> set ms \<and> held m \<and> x = held_ref kind m)}"

locale held_block =
  fixes block :: "'w env \<Rightarrow> string list \<Rightarrow> (object_meta \<Rightarrow> bool) \<Rightarrow> ScaledDownWorkloadRef list \<Rightarrow>
      ('w, api_error + ScaledDownWorkloadRef list) prog"
    and kind :: string
    and listed :: "'w env \<Rightarrow> 'w \<Rightarrow> api_error + object_meta list"
  assumes block_run: "run_state (block E targets held active) s = (r, t) \<Longrightarrow>
      r = (if kind \<in> set targets
           then map_sum id (\<lambda>ms. active @ map (held_ref kind) (filter held ms)) (listed E (world s))
           else Inr active)"
    and block_skip: "kind \<notin> set targets \<Longrightarrow> run_state (block E targets held active) s = (Inr active, s)"
begin

lemma block_refs:
  assumes "run_state (block E targets held active) s = (Inr refs, t)"
  obtains ms where "refs = active @ ms" "set ms = held_refs kind targets held (listed E (world s))"
proof (cases "kind \<in> set targets")
  case False
  with assms that [of "[]"] block_run [OF assms] show thesis by (simp add: held_refs_def)
next
  case True
  then obtain metas where "listed E (world s) = Inr metas" "refs = active @ map (held_ref kind) (filter held metas)"
    using block_run [OF assms] by (cases "listed E (world s)") auto
  with True show thesis by (intro that [of "map (held_ref kind) (filter held metas)"]) (auto simp: held_refs_def)
qed

lemma block_error:
  "run_state (block E targets held active) s = (Inl e, t) \<Longrightarrow> kind \<in> set targets \<and> listed E (world s) = Inl e"
  by (drule block_run) (cases "listed E (world s)"; auto split: if_splits)

end

definition listed_metas :: "('w, api_error + 'o list) state \<Rightarrow> ('o \<Rightarrow> object_meta) \<Rightarrow> 'w \<Rightarrow> api_error + object_meta list" where
  "listed_metas m mt w = map_sum id (map mt) (fst (run_state m w))"

lemma append_held_run:
  "run_state (append_held kind targets held m mt active) s = (r, t) \<Longrightarrow>
     r = (if kind \<in> set targets
          then map_sum id (\<lambda>ms. active @ map (held_ref kind) (filter held ms)) (listed_metas m mt (world s))
          else Inr active)"
  by (auto simp: append_held_def isTargetKind_def run_prog listed_metas_def filter_map o_def
      split: if_splits prod.splits sum.splits)

lemma append_held_skip:
  "kind \<notin> set targets \<Longrightarrow> run_state (append_held kind targets held m mt active) s = (Inr active, s)"
  by (simp add: append_held_def isTargetKind_def)

interpretation deployments: held_block
  "\<lambda>E targets held. append_held ''Deployment'' targets held (c_listDeployments (cl E)) dep_meta" "''Deployment''"
  "\<lambda>E. listed_metas (c_listDeployments (cl E)) dep_meta"
  by unfold_locales (erule append_held_run, erule append_held_skip)

interpretation statefulsets: held_block
  "\<lambda>E targets held. append_held ''StatefulSet'' targets held (c_listStatefulSets (cl E)) sts_meta" "''StatefulSet''"
  "\<lambda>E. listed_metas (c_listStatefulSets (cl E)) sts_meta"
  by unfold_locales (erule append_held_run, erule append_held_skip)

interpretation cronjobs: held_block
  "\<lambda>E targets held. append_held ''CronJob'' targets held (c_listCronJobs (cl E)) cj_meta" "''CronJob''"
  "\<lambda>E. listed_metas (c_listCronJobs (cl E)) cj_meta"
  by unfold_locales (erule append_held_run, erule append_held_skip)

section \<open>What is reported\<close>

lemma held_by_iff:
  "held_by allowedNamespaces excluded policy m \<longleftrightarrow>
     map_get (om_annotations m) AnnotationScaledDownReason \<noteq> [] \<and>
     map_get (om_annotations m) AnnotationScaledDownBy = policy \<and>
     om_namespace m \<notin> set excluded \<and> admits allowedNamespaces (om_namespace m)"
  by (simp add: held_by_def isExcludedNamespace_def)

text \<open>The three lists answer with these objects, whenever they are asked.\<close>

definition serves_workloads :: "'w env \<Rightarrow> object_meta list \<Rightarrow> object_meta list \<Rightarrow> object_meta list \<Rightarrow> bool" where
  "serves_workloads E ds ss cs \<longleftrightarrow>
     (\<forall>w. listed_metas (c_listDeployments (cl E)) dep_meta w = Inr ds \<and>
          listed_metas (c_listStatefulSets (cl E)) sts_meta w = Inr ss \<and>
          listed_metas (c_listCronJobs (cl E)) cj_meta w = Inr cs)"

definition stored_as :: "object_meta list \<Rightarrow> object_meta list \<Rightarrow> object_meta list \<Rightarrow> string \<Rightarrow> object_meta \<Rightarrow> bool" where
  "stored_as ds ss cs kind m \<longleftrightarrow>
     kind = ''Deployment'' \<and> m \<in> set ds \<or> kind = ''StatefulSet'' \<and> m \<in> set ss \<or> kind = ''CronJob'' \<and> m \<in> set cs"

text \<open>The three blocks run one after the other, from the states \<open>s\<close>, \<open>s1\<close> and \<open>s2\<close>.\<close>

lemma findActive_result:
  assumes "run_state (findActiveScaledDownWorkloads E a excluded targets p) s = (r, t)"
  obtains (failed) e w where "r = Inl e"
      "''Deployment'' \<in> set targets \<and> listed_metas (c_listDeployments (cl E)) dep_meta w = Inl e \<or>
       ''StatefulSet'' \<in> set targets \<and> listed_metas (c_listStatefulSets (cl E)) sts_meta w = Inl e \<or>
       ''CronJob'' \<in> set targets \<and> listed_metas (c_listCronJobs (cl E)) cj_meta w = Inl e"
  | (listed) u v ds ss cs where "r = Inr (ds @ ss @ cs)"
      "set ds = held_refs ''Deployment'' targets (held_by a excluded p) (listed_metas (c_listDeployments (cl E)) dep_meta (world s))"
      "set ss = held_refs ''StatefulSet'' targets (held_by a excluded p) (listed_metas (c_listStatefulSets (cl E)) sts_meta u)"
      "set cs = held_refs ''CronJob'' targets (held_by a excluded p) (listed_metas (c_listCronJobs (cl E)) cj_meta v)"
proof -
  let ?h = "held_by a excluded p"
  obtain r1 s1 where 1: "run_state (append_held ''Deployment'' targets ?h (c_listDeployments (cl E)) dep_meta []) s = (r1, s1)" by force
  note run = assms [unfolded findActiveScaledDownWorkloads_def Let_def run_bindE 1]
  show thesis
  proof (cases r1)
    case (Inl e)
    then show thesis using run deployments.block_error [OF 1 [unfolded Inl]] by (intro failed) auto
  next
    case r1: (Inr a1)
    obtain ds where ds: "a1 = [] @ ds" "set ds = held_refs ''Deployment'' targets (held_by a excluded p) (listed_metas (c_listDeployments (cl E)) dep_meta (world s))"
      by (rule deployments.block_refs [OF 1 [unfolded r1]])
    obtain r2 s2 where 2: "run_state (append_held ''StatefulSet'' targets ?h (c_listStatefulSets (cl E)) sts_meta a1) s1 = (r2, s2)" by force
    show thesis
    proof (cases r2)
      case (Inl e)
      then show thesis using run r1 2 statefulsets.block_error [OF 2 [unfolded Inl]] by (intro failed) auto
    next
      case r2: (Inr a2)
      obtain ss where ss: "a2 = a1 @ ss" "set ss = held_refs ''StatefulSet'' targets (held_by a excluded p) (listed_metas (c_listStatefulSets (cl E)) sts_meta (world s1))"
        by (rule statefulsets.block_refs [OF 2 [unfolded r2]])
      have 3: "run_state (append_held ''CronJob'' targets ?h (c_listCronJobs (cl E)) cj_meta a2) s2 = (r, t)"
        using run r1 2 r2 by simp
      show thesis
      proof (cases r)
        case (Inl e)
        then show thesis using cronjobs.block_error [OF 3 [unfolded Inl]] by (intro failed) auto
      next
        case r: (Inr refs)
        obtain cs where cs: "refs = a2 @ cs" "set cs = held_refs ''CronJob'' targets (held_by a excluded p) (listed_metas (c_listCronJobs (cl E)) cj_meta (world s2))"
          by (rule cronjobs.block_refs [OF 3 [unfolded r]])
        from r ds(1) ss(1) cs(1) have "r = Inr (ds @ ss @ cs)" by simp
        from listed [OF this ds(2) ss(2) cs(2)] show thesis .
      qed
    qed
  qed
qed

text \<open>
  C24: the report is exact: a workload is listed if and only if it is stored, its kind is a target,
  its namespace is admitted and not excluded, and its annotations say that this policy stopped it.
\<close>

theorem findActive_exact:
  assumes "serves_workloads E ds ss cs"
  shows "\<exists>refs t. run_state (findActiveScaledDownWorkloads E a excluded targets p) s = (Inr refs, t) \<and>
     set refs = {x. \<exists>m. stored_as ds ss cs (ref_kind x) m \<and> om_namespace m = ref_namespace x \<and> om_name m = ref_name x \<and>
        isTargetKind (ref_kind x) targets \<and> admits a (ref_namespace x) \<and> \<not> isExcludedNamespace (ref_namespace x) excluded \<and>
        map_get (om_annotations m) AnnotationScaledDownReason \<noteq> [] \<and> map_get (om_annotations m) AnnotationScaledDownBy = p}"
proof -
  obtain r t where r: "run_state (findActiveScaledDownWorkloads E a excluded targets p) s = (r, t)" by force
  show ?thesis
  proof (rule findActive_result [OF r], goal_cases failed listed)
    case (failed e w)
    then show ?thesis using assms by (auto simp: serves_workloads_def)
  next
    case (listed u v xs ys zs)
    have sd: "listed_metas (c_listDeployments (cl E)) dep_meta u = Inr ds"
      "listed_metas (c_listStatefulSets (cl E)) sts_meta u = Inr ss"
      "listed_metas (c_listCronJobs (cl E)) cj_meta u = Inr cs" for u
      using assms by (auto simp: serves_workloads_def)
    have m: "x \<in> set (xs @ ys @ zs) \<longleftrightarrow> (\<exists>m. stored_as ds ss cs (ref_kind x) m \<and> om_namespace m = ref_namespace x \<and>
        om_name m = ref_name x \<and> ref_kind x \<in> set targets \<and> held_by a excluded p m)" for x
      using listed(2,3,4) by (cases x) (auto simp: sd stored_as_def held_ref_def held_refs_def)
    have "set (xs @ ys @ zs) = {x. \<exists>m. stored_as ds ss cs (ref_kind x) m \<and> om_namespace m = ref_namespace x \<and>
        om_name m = ref_name x \<and> isTargetKind (ref_kind x) targets \<and> admits a (ref_namespace x) \<and>
        \<not> isExcludedNamespace (ref_namespace x) excluded \<and>
        map_get (om_annotations m) AnnotationScaledDownReason \<noteq> [] \<and> map_get (om_annotations m) AnnotationScaledDownBy = p}"
      by (intro set_eqI, unfold m mem_Collect_eq, rule ex_cong1)
        (auto simp: held_by_iff isTargetKind_def isExcludedNamespace_def)
    then show ?thesis using r listed(1) by blast
  qed
qed

text \<open>
  A failing list is an error, never a shorter report: when the call fails, the error is one the
  API server gave for the list of a targeted kind.
\<close>

lemma findActive_fails_only_with_list:
  assumes "run_state (findActiveScaledDownWorkloads E a excluded targets p) s = (Inl e, t)"
  shows "\<exists>w. ''Deployment'' \<in> set targets \<and> listed_metas (c_listDeployments (cl E)) dep_meta w = Inl e \<or>
     ''StatefulSet'' \<in> set targets \<and> listed_metas (c_listStatefulSets (cl E)) sts_meta w = Inl e \<or>
     ''CronJob'' \<in> set targets \<and> listed_metas (c_listCronJobs (cl E)) cj_meta w = Inl e"
  using assms by (cases rule: findActive_result) blast+

text \<open>A Deployment as a stop leaves it, and the lists of a cluster that has only this one.\<close>

definition held_deployment :: deployment where
  "held_deployment = web_deployment
     \<lparr>dep_meta := record_stop ''why'' ''now'' ''pol'' 3 (dep_meta web_deployment), dep_replicas := Some 0\<rparr>"

definition listing_env :: "(api_error + statefulset list) \<Rightarrow> deployment \<Rightarrow> cluster env" where
  "listing_env sts d = cluster_env\<lparr>cl := cluster_client
     \<lparr>c_listDeployments := reads (\<lambda>_. Inr [d]), c_listStatefulSets := reads (\<lambda>_. sts),
      c_listCronJobs := reads (\<lambda>_. Inr [])\<rparr>\<rparr>"

lemma listing_env_serves: "serves_workloads (listing_env (Inr []) d) [dep_meta d] [] []"
  by (simp add: serves_workloads_def listed_metas_def listing_env_def)

lemma held_meta:
  "map_get (om_annotations (dep_meta held_deployment)) AnnotationScaledDownReason = ''why''"
  "map_get (om_annotations (dep_meta held_deployment)) AnnotationScaledDownBy = ''pol''"
  "om_namespace (dep_meta held_deployment) = ''prod''" "om_name (dep_meta held_deployment) = ''web''"
  by (simp_all add: held_deployment_def record_stop_def attribute_def Let_def web_deployment_def meta0_def)

theorem findActive_exact_witness:
  "\<exists>refs t. run_state (findActiveScaledDownWorkloads (listing_env (Inr []) held_deployment) None [] DefaultTargets ''pol'')
       (run_in web_cluster) = (Inr refs, t) \<and>
     \<lparr>ref_kind = ''Deployment'', ref_namespace = ''prod'', ref_name = ''web''\<rparr> \<in> set refs"
proof -
  have "\<exists>m. stored_as [dep_meta held_deployment] [] [] ''Deployment'' m \<and> om_namespace m = ''prod'' \<and> om_name m = ''web'' \<and>
      isTargetKind ''Deployment'' DefaultTargets \<and> admits None ''prod'' \<and> \<not> isExcludedNamespace ''prod'' [] \<and>
      map_get (om_annotations m) AnnotationScaledDownReason \<noteq> [] \<and> map_get (om_annotations m) AnnotationScaledDownBy = ''pol''"
    by (intro exI [of _ "dep_meta held_deployment"])
      (simp add: stored_as_def held_meta isTargetKind_def DefaultTargets_def admits_def isExcludedNamespace_def)
  then show ?thesis
    using findActive_exact [OF listing_env_serves [of held_deployment], of None "[]" DefaultTargets "''pol''" "run_in web_cluster"]
    by auto
qed

lemma findActive_fails_only_with_list_example:
  "\<exists>w. listed_metas (c_listStatefulSets (cl (listing_env (Inl (Failed ''down'')) held_deployment))) sts_meta w = Inl (Failed ''down'')"
proof -
  let ?E = "listing_env (Inl (Failed ''down'')) held_deployment"
  obtain t where "run_state (findActiveScaledDownWorkloads ?E None [] DefaultTargets ''pol'') (run_in web_cluster) = (Inl (Failed ''down''), t)"
    by (simp add: findActiveScaledDownWorkloads_def append_held_def listing_env_def run_prog Let_def isTargetKind_def DefaultTargets_def)
  from findActive_fails_only_with_list [OF this] show ?thesis
    by (auto simp: listed_metas_def listing_env_def)
qed

text \<open>
  The report only reads annotations, which the documented recovery (\<open>kubectl scale\<close> to the
  recorded count) leaves in place: a workload that runs its three replicas again is still reported
  as held at zero.
\<close>

lemma restored_workload_still_reported:
  "fst (currentReplicas (DeploymentObj (held_deployment\<lparr>dep_replicas := Some 3\<rparr>))) = 3 \<and>
   fst (run_state (findActiveScaledDownWorkloads cluster_env None [] DefaultTargets ''pol'')
     (run_in (web_cluster\<lparr>k_deployments := [held_deployment\<lparr>dep_replicas := Some 3\<rparr>]\<rparr>))) =
   Inr [\<lparr>ref_kind = ''Deployment'', ref_namespace = ''prod'', ref_name = ''web''\<rparr>]"
  by (simp add: currentReplicas_def findActiveScaledDownWorkloads_def append_held_def run_prog Let_def isTargetKind_def
      DefaultTargets_def cluster_client_def run_in_def web_cluster_def empty_cluster_def held_by_def held_meta
      isExcludedNamespace_def admits_def held_ref_def)

end
