(* ===== verification/Restrictive.thy ===== *)
theory Restrictive
  imports Active "HOL-Library.Product_Lexorder"
begin

text \<open>
  Which policy acts when several match (\<open>internal/controller/policyresolve.go\<close>):
  \<open>isMoreRestrictive\<close>, \<open>policyWouldAct\<close> and \<open>winningPolicy\<close>. The comparison is shown to be the
  lexicographic order on a key, and the scan of \<open>winningPolicy\<close> to pick the least key among the
  policies that would act.
\<close>

section \<open>The code\<close>

definition isMoreRestrictive :: "CrashLoopPolicy \<Rightarrow> CrashLoopPolicy \<Rightarrow> bool" where
  "isMoreRestrictive a b =
     (let ra = effectiveRestartThreshold a; rb = effectiveRestartThreshold b
      in if ra \<noteq> rb then ra <s rb
      else let da = effectiveDurationThreshold a; db = effectiveDurationThreshold b
      in if da \<noteq> db then da < db
      else let aa = effectiveAllReplicasFailing a; ab = effectiveAllReplicasFailing b
      in if aa \<noteq> ab then \<not> aa
      else let ca = effectiveFailureCorrelation a; cb = effectiveFailureCorrelation b
      in if ca \<noteq> cb then ca = CorrelationPod
      else let wa = effectiveDryRun a; wb = effectiveDryRun b
      in if wa \<noteq> wb then \<not> wa
      else pol_name a < pol_name b)"

definition policyWouldAct ::
  "'w env \<Rightarrow> CrashLoopPolicy \<Rightarrow> pod \<Rightarrow> ownerWorkload \<Rightarrow> ('w, api_error + bool) prog" where
  "policyWouldAct E policy x w =
     bindE (allowed E policy) (\<lambda>allowedNamespaces.
       if \<not> admits allowedNamespaces (om_namespace (pod_meta x)) then ret (Inr False)
       else if isExcludedNamespace (om_namespace (pod_meta x)) (ExcludeNamespaces (Spec policy))
       then ret (Inr False)
       else if \<not> isTargetKind (ow_kind w) (effectiveTargets policy) then ret (Inr False)
       else do {
         now \<leftarrow> time_now E;
         (let waitingFailing = snd (podHasFailureReason x (effectiveWatchReasons policy));
              looping = snd (podIsRestartLooping now x (effectiveTerminationReasons policy)
                (effectiveRestartThreshold policy) (effectiveRestartWindow policy))
          in if \<not> waitingFailing \<and> \<not> looping then ret (Inr False)
             else do {
               now' \<leftarrow> time_now E;
               (if \<not> looping \<and> \<not> podExceedsRestartThreshold x (effectiveRestartThreshold policy)
                   \<and> \<not> podExceedsDurationThreshold now' x (effectiveDurationThreshold policy)
                then ret (Inr False)
                else bindE
                  (if ExcludeWorkloadSelector (Spec policy) \<noteq> None
                   then isWorkloadExcludedBySelector E w (ExcludeWorkloadSelector (Spec policy))
                   else ret (Inr False)) (\<lambda>excluded.
                  if excluded then ret (Inr False)
                  else bindE
                    (if effectiveAllReplicasFailing policy then allReplicasFailing E w policy
                     else ret (Inr True)) (\<lambda>allFailing.
                    if \<not> allFailing then ret (Inr False) else ret (Inr True)))) }) })"

fun winner_loop ::
  "'w env \<Rightarrow> pod \<Rightarrow> ownerWorkload \<Rightarrow> CrashLoopPolicy option \<Rightarrow> CrashLoopPolicy list \<Rightarrow>
   ('w, api_error + CrashLoopPolicy option) prog" where
  "winner_loop E x w winner [] = ret (Inr winner)"
| "winner_loop E x w winner (candidate # rest) =
     bindE (policyWouldAct E candidate x w) (\<lambda>acts.
       if \<not> acts then winner_loop E x w winner rest
       else winner_loop E x w
         (case winner of
            None \<Rightarrow> Some candidate
          | Some cur \<Rightarrow> if isMoreRestrictive candidate cur then Some candidate else Some cur) rest)"

definition winningPolicy ::
  "'w env \<Rightarrow> CrashLoopPolicy list \<Rightarrow> pod \<Rightarrow> ownerWorkload \<Rightarrow> ('w, api_error + CrashLoopPolicy option) prog" where
  "winningPolicy E policies x w = winner_loop E x w None policies"

lemma policyWouldAct_emits [emits_intros]: "emits P (policyWouldAct E policy x w)"
  unfolding policyWouldAct_def by (intro emits_intros)

lemma winner_loop_emits [emits_intros]: "emits P (winner_loop E x w winner ps)"
  by (induction ps arbitrary: winner) (auto intro!: emits_intros)

lemma winningPolicy_emits [emits_intros]: "emits P (winningPolicy E ps x w)"
  unfolding winningPolicy_def by (rule winner_loop_emits)

section \<open>Choosing the best of a list\<close>

text \<open>
  The contract of a comparison the scan relies on: it compares keys of a linear order. The scan
  then keeps an element with the least key.
\<close>

locale ranked =
  fixes better :: "'a \<Rightarrow> 'a \<Rightarrow> bool"
    and rank :: "'a \<Rightarrow> 'k::linorder"
  assumes better_rank: "better a b \<longleftrightarrow> rank a < rank b"
begin

lemma irreflexive: "\<not> better a a"
  by (simp add: better_rank)

lemma transitive: "better a b \<Longrightarrow> better b c \<Longrightarrow> better a c"
  by (simp add: better_rank)

lemma incomparable_rank: "\<not> better a b \<Longrightarrow> \<not> better b a \<Longrightarrow> rank a = rank b"
  by (auto simp: better_rank)

text \<open>\<open>least_of x A\<close>: \<open>x\<close> is in \<open>A\<close> and nothing in \<open>A\<close> is better.\<close>

definition least_of :: "'a \<Rightarrow> 'a set \<Rightarrow> bool" where
  "least_of x A \<longleftrightarrow> x \<in> A \<and> (\<forall>y \<in> A. \<not> better y x)"

lemma least_of_unique: "least_of x A \<Longrightarrow> least_of y A \<Longrightarrow> inj_on rank A \<Longrightarrow> x = y"
  by (meson incomparable_rank inj_onD least_of_def)

lemma least_of_insert:
  "least_of x A \<Longrightarrow> least_of (if better c x then c else x) (insert c A)"
  by (auto simp: least_of_def better_rank)

lemma least_of_single: "least_of c {c}"
  by (simp add: least_of_def irreflexive)

end

definition restrictive_key :: "CrashLoopPolicy \<Rightarrow> int \<times> int \<times> bool \<times> bool \<times> bool \<times> string" where
  "restrictive_key p =
     (sint (effectiveRestartThreshold p), effectiveDurationThreshold p, effectiveAllReplicasFailing p,
      effectiveFailureCorrelation p \<noteq> CorrelationPod, effectiveDryRun p, pol_name p)"

lemma isMoreRestrictive_key: "isMoreRestrictive a b \<longleftrightarrow> restrictive_key a < restrictive_key b"
  using effectiveFailureCorrelation_cases [of a] effectiveFailureCorrelation_cases [of b]
  by (auto simp: isMoreRestrictive_def restrictive_key_def less_prod_def' Let_def sless_sint sint_eq_iff)

interpretation restrictive: ranked isMoreRestrictive restrictive_key
  by unfold_locales (rule isMoreRestrictive_key)

text \<open>
  \<open>isMoreRestrictive\<close> is the lexicographic order the documentation states (restart threshold,
  duration threshold, all-replicas, correlation, dry-run, name), so it is irreflexive, transitive
  and decides between any two policies with different names.
\<close>

lemma isMoreRestrictive_total_order:
  "(isMoreRestrictive a b \<longleftrightarrow> restrictive_key a < restrictive_key b) \<and>
   \<not> isMoreRestrictive a a \<and>
   (isMoreRestrictive a b \<and> isMoreRestrictive b c \<longrightarrow> isMoreRestrictive a c) \<and>
   (pol_name a \<noteq> pol_name b \<longrightarrow> isMoreRestrictive a b \<noteq> isMoreRestrictive b a)"
proof (intro conjI impI)
  assume "pol_name a \<noteq> pol_name b"
  then have "restrictive_key a \<noteq> restrictive_key b" by (simp add: restrictive_key_def)
  then show "isMoreRestrictive a b \<noteq> isMoreRestrictive b a"
    by (auto simp: isMoreRestrictive_key)
qed (auto simp: isMoreRestrictive_key)

lemma isMoreRestrictive_example:
  "isMoreRestrictive (policy0 ''a'' (spec0\<lparr>RestartThreshold := 3\<rparr>)) (policy0 ''b'' spec0) \<and>
   \<not> isMoreRestrictive (policy0 ''b'' spec0) (policy0 ''a'' (spec0\<lparr>RestartThreshold := 3\<rparr>))"
proof -
  let ?a = "policy0 ''a'' (spec0\<lparr>RestartThreshold := 3\<rparr>)" and ?b = "policy0 ''b'' spec0"
  have ab: "isMoreRestrictive ?a ?b"
    by (simp add: isMoreRestrictive_def effectiveRestartThreshold_def policy0_def spec0_def
        DefaultRestartThreshold_def sless_sint)
  have "pol_name ?a \<noteq> pol_name ?b" by (simp add: policy0_def meta0_def)
  with ab isMoreRestrictive_total_order [of ?a ?b ?a] show ?thesis by blast
qed

section \<open>The winner\<close>

text \<open>
  The policies that say they would act when they are asked one after the other from state \<open>s\<close>,
  or the first error among the answers.
\<close>

fun acting ::
  "'w env \<Rightarrow> pod \<Rightarrow> ownerWorkload \<Rightarrow> CrashLoopPolicy list \<Rightarrow> 'w ost \<Rightarrow> api_error + CrashLoopPolicy set" where
  "acting E x w [] s = Inr {}"
| "acting E x w (p # ps) s =
     (case run_state (policyWouldAct E p x w) s of
        (Inl e, t) \<Rightarrow> Inl e
      | (Inr acts, t) \<Rightarrow>
          (case acting E x w ps t of
             Inl e \<Rightarrow> Inl e
           | Inr B \<Rightarrow> Inr (if acts then insert p B else B)))"

definition best_option :: "CrashLoopPolicy option \<Rightarrow> CrashLoopPolicy set \<Rightarrow> bool" where
  "best_option winner A \<longleftrightarrow>
     (case winner of None \<Rightarrow> A = {} | Some p \<Rightarrow> restrictive.least_of p A)"

definition keep_better :: "CrashLoopPolicy option \<Rightarrow> CrashLoopPolicy \<Rightarrow> CrashLoopPolicy option" where
  "keep_better winner c =
     (case winner of
        None \<Rightarrow> Some c
      | Some cur \<Rightarrow> if isMoreRestrictive c cur then Some c else Some cur)"

lemma best_option_step:
  assumes "best_option winner A"
  shows "best_option (keep_better winner c) (insert c A)"
proof (cases winner)
  case None
  with assms show ?thesis by (simp add: keep_better_def best_option_def restrictive.least_of_single)
next
  case (Some p)
  with assms have "restrictive.least_of p A" by (simp add: best_option_def)
  from restrictive.least_of_insert [OF this, of c] Some show ?thesis
    by (simp add: keep_better_def best_option_def split: if_splits)
qed

lemma winner_loop_Cons:
  "winner_loop E x w winner (c # ps) =
     bindE (policyWouldAct E c x w) (\<lambda>acts.
       if acts then winner_loop E x w (keep_better winner c) ps else winner_loop E x w winner ps)"
  by (auto simp: keep_better_def intro!: arg_cong [where f = "bindE _"])

declare winner_loop.simps(2) [simp del]

lemma winner_loop_best:
  "best_option winner A \<Longrightarrow>
   (case acting E x w ps s of
      Inl e \<Rightarrow> fst (run_state (winner_loop E x w winner ps) s) = Inl e
    | Inr B \<Rightarrow> \<exists>r. fst (run_state (winner_loop E x w winner ps) s) = Inr r \<and> best_option r (A \<union> B))"
proof (induction ps arbitrary: winner A s)
  case (Cons c ps)
  obtain v t where v: "run_state (policyWouldAct E c x w) s = (v, t)" by force
  show ?case
  proof (cases v)
    case (Inl e)
    with v show ?thesis by (simp add: winner_loop_Cons run_prog)
  next
    case (Inr acts)
    show ?thesis
    proof (cases acts)
      case False
      with Cons.IH [OF Cons.prems, of t] v Inr show ?thesis
        by (simp add: winner_loop_Cons run_prog split: sum.splits)
    next
      case True
      with Cons.IH [OF best_option_step [OF Cons.prems], of c t] v Inr show ?thesis
        by (simp add: winner_loop_Cons run_prog split: sum.splits)
    qed
  qed
qed simp

text \<open>
  C8: whatever the API server answers, \<open>winningPolicy\<close> returns a most restrictive one of the
  policies that said they would act in this pass, none exactly when no policy said so, and the
  first error when a policy could not be checked: a policy that would not act never wins, and
  never keeps one that would from winning.
\<close>

theorem winningPolicy_least:
  "case acting E x w policies s of
     Inl e \<Rightarrow> fst (run_state (winningPolicy E policies x w) s) = Inl e
   | Inr B \<Rightarrow> \<exists>winner. fst (run_state (winningPolicy E policies x w) s) = Inr winner \<and>
       (case winner of None \<Rightarrow> B = {} | Some p \<Rightarrow> p \<in> B \<and> {q \<in> B. isMoreRestrictive q p} = {})"
proof -
  have "best_option None {}" by (simp add: best_option_def)
  from winner_loop_best [OF this, of E x w policies s] show ?thesis
    by (auto simp: winningPolicy_def best_option_def restrictive.least_of_def split: sum.splits option.splits)
qed

text \<open>When each policy's verdict does not depend on when it is asked.\<close>

definition steady :: "'w env \<Rightarrow> pod \<Rightarrow> ownerWorkload \<Rightarrow> (CrashLoopPolicy \<Rightarrow> bool) \<Rightarrow> CrashLoopPolicy set \<Rightarrow> bool" where
  "steady E x w verdict ps \<longleftrightarrow>
     (\<forall>p \<in> ps. \<forall>s. \<exists>s'. run_state (policyWouldAct E p x w) s = (Inr (verdict p), s'))"

lemma acting_steady:
  "steady E x w verdict (set ps) \<Longrightarrow> acting E x w ps s = Inr {p \<in> set ps. verdict p}"
proof (induction ps arbitrary: s)
  case (Cons c ps)
  then have "\<exists>t. run_state (policyWouldAct E c x w) s = (Inr (verdict c), t)" by (simp add: steady_def)
  then obtain t where "run_state (policyWouldAct E c x w) s = (Inr (verdict c), t)" by blast
  moreover have "steady E x w verdict (set ps)" using Cons.prems by (simp add: steady_def)
  ultimately show ?case using Cons.IH [of t] by auto
qed simp

lemma winningPolicy_steady:
  assumes "steady E x w verdict (set ps)"
  shows "\<exists>r s'. run_state (winningPolicy E ps x w) s = (Inr r, s') \<and> best_option r {p \<in> set ps. verdict p}"
proof -
  have "best_option None {}" by (simp add: best_option_def)
  from winner_loop_best [OF this, of E x w ps s] acting_steady [OF assms, of s]
  have "\<exists>r. fst (run_state (winningPolicy E ps x w) s) = Inr r \<and> best_option r {p \<in> set ps. verdict p}"
    by (simp add: winningPolicy_def)
  then show ?thesis by (metis prod.collapse)
qed


text \<open>Two policies that act on partial failure, and a pod past both restart thresholds.\<close>

definition eager :: "string \<Rightarrow> int32 \<Rightarrow> CrashLoopPolicy" where
  "eager n k = policy0 n (spec0\<lparr>AllReplicasFailing := Some False, RestartThreshold := k\<rparr>)"

definition backoff_pod :: pod where
  "backoff_pod = pod0 ''web-0'' [cs0 ''app'' (Some ''CrashLoopBackOff'') 12 None] [] []"

lemma eager_steady: "steady cluster_env backoff_pod web_workload (\<lambda>_. True) (set [eager ''a'' 3, eager ''b'' 5])"
  by (auto simp: steady_def policyWouldAct_def allowed_def eager_def backoff_pod_def web_workload_def
      policy_example_defs example_defs run_prog effective_defs DefaultTargets_def DefaultWatchReasons_def
      podHasFailureReason_def podExceedsRestartThreshold_def sless_sint sle_sint admits_def
      isExcludedNamespace_def isTargetKind_def time_now_def cluster_client_def)


end
