(* ===== verification/Status.thy ===== *)
theory Status
  imports Restrictive
begin

text \<open>
  Writing back what an evaluation found: the metrics of \<open>internal/controller/metrics.go\<close> and the
  two status writers at the top of \<open>internal/controller/helpers.go\<close>. The policy a closure captures
  and overwrites is the variable threaded through the attempts of \<open>RetryOnConflict\<close>.
\<close>

section \<open>Metrics\<close>

definition forgetPolicyMetrics :: "string \<Rightarrow> ('w, unit) prog" where
  "forgetPolicyMetrics name = do {
     emit (Metric workloadsScaledDown [name] DeleteLabelValues);
     emit (Metric policyReady [name] DeleteLabelValues);
     emit (Metric policyEvaluationErrors [name] DeleteLabelValues) }"

text \<open>A gauge value; the two floats \<open>1\<close> and \<open>0\<close> are kept as integers.\<close>

definition boolToFloat :: "bool \<Rightarrow> int" where
  "boolToFloat b = (if b then 1 else 0)"

text \<open>
  The value of a series after some effects, as an exporter of the vectors would show it: the series
  of a vector for given label values starts out missing and every operation on it applies in order.
\<close>

fun observe :: "metric_vec \<Rightarrow> string list \<Rightarrow> effect \<Rightarrow> int option \<Rightarrow> int option" where
  "observe v labels (Metric v' labels' a) x = (if v' = v \<and> labels' = labels then act_on_value a x else x)"
| "observe v labels (ApiWrite a e) x = x"
| "observe v labels (Event i j k) x = x"

definition series :: "effect list \<Rightarrow> metric_vec \<Rightarrow> string list \<Rightarrow> int option" where
  "series es v labels = fold (observe v labels) es None"

lemma series_append: "series (es @ fs) v labels = fold (observe v labels) fs (series es v labels)"
  by (simp add: series_def)

section \<open>Status writers\<close>

definition policy_key :: "CrashLoopPolicy \<Rightarrow> namespaced_name" where
  "policy_key p = nsname (om_namespace (pol_meta p)) (om_name (pol_meta p))"

definition status_attempt ::
  "'w env \<Rightarrow> (CrashLoopPolicyStatus \<Rightarrow> CrashLoopPolicyStatus) \<Rightarrow> ('w, CrashLoopPolicy) closure" where
  "status_attempt E mutate = (\<lambda>obj. do {
     r \<leftarrow> api (c_getPolicy (cl E) (policy_key obj));
     (case r of
        Inl e \<Rightarrow> ret (Some e, obj)
      | Inr obj \<Rightarrow>
          (let obj' = obj\<lparr>Status := mutate (Status obj)\<rparr> in do {
             u \<leftarrow> api_request (UpdatePolicyStatus obj') (c_updateStatus (cl E) obj');
             (case u of Inl e \<Rightarrow> ret (Some e, obj') | Inr stored \<Rightarrow> ret (None, stored)) })) })"

definition updateStatusWithRetry ::
  "'w env \<Rightarrow> CrashLoopPolicy \<Rightarrow> (CrashLoopPolicyStatus \<Rightarrow> CrashLoopPolicyStatus) \<Rightarrow>
   ('w, api_error option \<times> CrashLoopPolicy) prog" where
  "updateStatusWithRetry E obj mutate = retryPolicy (rt E) (status_attempt E mutate) obj"

text \<open>\<open>mutate\<close> may read the clock, which is why it is a program here.\<close>

definition if_changed_attempt ::
  "'w env \<Rightarrow> (CrashLoopPolicyStatus \<Rightarrow> ('w, CrashLoopPolicyStatus) prog) \<Rightarrow> ('w, CrashLoopPolicy) closure" where
  "if_changed_attempt E mutate = (\<lambda>policy. do {
     r \<leftarrow> api (c_getPolicy (cl E) (policy_key policy));
     (case r of
        Inl e \<Rightarrow> ret (Some e, policy)
      | Inr policy \<Rightarrow> do {
          after \<leftarrow> mutate (Status policy);
          (if StatusDeepEqual (lb E) (Status policy) after then ret (None, policy\<lparr>Status := after\<rparr>)
           else do {
             now \<leftarrow> time_now E;
             (let policy' = policy\<lparr>Status := after\<lparr>LastEvaluationTime := Some now\<rparr>\<rparr> in do {
                u \<leftarrow> api_request (UpdatePolicyStatus policy') (c_updateStatus (cl E) policy');
                (case u of Inl e \<Rightarrow> ret (Some e, policy') | Inr stored \<Rightarrow> ret (None, stored)) }) }) }) })"

definition updatePolicyStatusIfChanged ::
  "'w env \<Rightarrow> CrashLoopPolicy \<Rightarrow> (CrashLoopPolicyStatus \<Rightarrow> ('w, CrashLoopPolicyStatus) prog) \<Rightarrow>
   ('w, api_error option \<times> CrashLoopPolicy) prog" where
  "updatePolicyStatusIfChanged E policy mutate = retryPolicy (rt E) (if_changed_attempt E mutate) policy"

section \<open>What they write\<close>

definition status_write :: "effect \<Rightarrow> bool" where
  "status_write ef = (case ef of ApiWrite (UpdatePolicyStatus _) _ \<Rightarrow> True | _ \<Rightarrow> False)"

lemma status_write_simps [simp]:
  "status_write (ApiWrite (UpdatePolicyStatus p) e)" "\<not> status_write (Metric v ls m)" "\<not> status_write (Event a b c)"
  "\<not> status_write (ApiWrite (UpdateObject x) e)" "\<not> status_write (ApiWrite (UpdateScale x sc) e)"
  by (simp_all add: status_write_def)

lemma policy_retrier: "retriers_ok E \<Longrightarrow> retry_contract (retryPolicy (rt E))"
  by (simp add: retriers_ok_def)

lemma updateStatusWithRetry_emits [emits_intros]:
  assumes "retriers_ok E" "\<And>p e. P (ApiWrite (UpdatePolicyStatus p) e)"
  shows "emits P (updateStatusWithRetry E obj mutate)"
  unfolding updateStatusWithRetry_def
proof (rule emits_retry [OF policy_retrier [OF assms(1)]])
  show "emits P (status_attempt E mutate l)" for l
    unfolding status_attempt_def Let_def by (intro emits_intros assms(2))
qed

lemma updatePolicyStatusIfChanged_emits [emits_intros]:
  assumes "retriers_ok E" "\<And>p e. P (ApiWrite (UpdatePolicyStatus p) e)" "\<And>st. emits P (mutate st)"
  shows "emits P (updatePolicyStatusIfChanged E policy mutate)"
  unfolding updatePolicyStatusIfChanged_def
proof (rule emits_retry [OF policy_retrier [OF assms(1)]])
  show "emits P (if_changed_attempt E mutate l)" for l
    unfolding if_changed_attempt_def Let_def by (intro emits_intros assms(2,3))
qed

text \<open>A status write of the evaluation: it carries the instant of the write.\<close>

definition stamped_write :: "effect \<Rightarrow> bool" where
  "stamped_write ef =
     (case ef of ApiWrite (UpdatePolicyStatus p) _ \<Rightarrow> LastEvaluationTime (Status p) \<noteq> None | _ \<Rightarrow> False)"

lemma emits_False_mono: "emits (\<lambda>_. False) m \<Longrightarrow> emits P m"
  by (erule emits_mono) simp


definition stored_policy :: cluster where
  "stored_policy = empty_cluster\<lparr>k_policies := [oom_policy]\<rparr>"


end
