(* ===== verification/Reconcile.thy ===== *)
theory Reconcile
  imports Status
begin

text \<open>
  The reconciler of \<open>internal/controller/crashlooppolicy_controller.go\<close>: one evaluation of one
  policy (\<open>Reconcile\<close>), the mapping of pod events to policies (\<open>mapPodToPolicy\<close>) and the
  registration of the indexes and the watch (\<open>SetupWithManager\<close>). The body of the pod loop is
  \<open>pod_step\<close>, its \<open>continue\<close> statements are results; the variables the loop assigns are the
  record \<open>loop_state\<close>. Logging is left out.
\<close>

section \<open>The pod loop\<close>

record loop_state =
  processed :: "string set"
  scaledDown :: int32
  loopErrors :: int
  earliestThresholdExpiry :: time

definition loop_start :: loop_state where
  "loop_start = \<lparr>processed = {}, scaledDown = 0, loopErrors = 0, earliestThresholdExpiry = 0\<rparr>"

definition with_error :: "loop_state \<Rightarrow> loop_state" where
  "with_error st = st\<lparr>loopErrors := loopErrors st + 1\<rparr>"

text \<open>\<open>a, err := m; if err != nil { loopErrors++; continue }\<close>, then the rest of the loop body.\<close>

definition or_count ::
  "loop_state \<Rightarrow> ('w, api_error + 'a) prog \<Rightarrow> ('a \<Rightarrow> ('w, loop_state) prog) \<Rightarrow> ('w, loop_state) prog" where
  "or_count st m f = do { r \<leftarrow> m; case r of Inl e \<Rightarrow> ret (with_error st) | Inr a \<Rightarrow> f a }"

definition note_expiry :: "time \<Rightarrow> loop_state \<Rightarrow> loop_state" where
  "note_expiry expiresAt st =
     (if time_IsZero (earliestThresholdExpiry st) \<or> time_Before expiresAt (earliestThresholdExpiry st)
      then st\<lparr>earliestThresholdExpiry := expiresAt\<rparr> else st)"

text \<open>What the failure checks decide for a pod: skip it, until some instant maybe, or act for a reason.\<close>

datatype gate = Skip | SkipUntil time | Proceed string

definition pod_gate :: "time \<Rightarrow> CrashLoopPolicy \<Rightarrow> time \<Rightarrow> pod \<Rightarrow> gate" where
  "pod_gate now policy reconcileTime x =
     (let (reason, waitingFailing) = podHasFailureReason x (effectiveWatchReasons policy);
          (loopReason, looping) = podIsRestartLooping now x (effectiveTerminationReasons policy)
            (effectiveRestartThreshold policy) (effectiveRestartWindow policy)
      in if \<not> waitingFailing \<and> \<not> looping then Skip
         else if \<not> waitingFailing then Proceed loopReason
         else if \<not> podExceedsRestartThreshold x (effectiveRestartThreshold policy) \<and> \<not> looping then
           (let (remaining, known) = durationThresholdRemaining x (effectiveDurationThreshold policy) reconcileTime
            in if \<not> known \<or> remaining > 0
               then (if known then SkipUntil (time_Add reconcileTime remaining) else Skip)
               else Proceed reason)
         else Proceed reason)"

definition scale_reason :: "string \<Rightarrow> CrashLoopPolicy \<Rightarrow> string" where
  "scale_reason reason policy = ''pods failing with '' @ reason @ '' (policy: '' @ pol_name policy @ '')''"

definition action_event :: "CrashLoopPolicy \<Rightarrow> ownerWorkload \<Rightarrow> string \<Rightarrow> effect" where
  "action_event policy owner scaleReason =
     (let eventReason = EventReasonScaledDown;
          eventMsg = ''Scaled down '' @ ow_kind owner @ '' '' @ ow_namespace owner @ ''/'' @ ow_name owner @ '': '' @ scaleReason;
          (eventReason, eventMsg) =
            (if ow_kind owner = ''CronJob''
             then (EventReasonSuspended,
                   ''Suspended CronJob '' @ ow_namespace owner @ ''/'' @ ow_name owner @ '': '' @ scaleReason)
             else (eventReason, eventMsg));
          (eventReason, eventMsg) =
            (if effectiveDryRun policy then (EventReasonDryRun, ''[DRY RUN] '' @ eventMsg) else (eventReason, eventMsg))
      in Event (pol_name policy) eventReason eventMsg)"

definition action_metric :: "CrashLoopPolicy \<Rightarrow> ownerWorkload \<Rightarrow> string \<Rightarrow> effect" where
  "action_metric policy owner reason =
     Metric scaledDownTotal
       [pol_name policy, ow_namespace owner, ow_kind owner, reason, FormatBool (effectiveDryRun policy)] Inc"

text \<open>The end of the loop body: stop the workload and report it.\<close>

definition stop_and_report ::
  "'w env \<Rightarrow> CrashLoopPolicy \<Rightarrow> ownerWorkload \<Rightarrow> string \<Rightarrow> loop_state \<Rightarrow> ('w, loop_state) prog" where
  "stop_and_report E policy owner reason st =
     or_count st
       (scaleDownWorkload E owner (scale_reason reason policy) (pol_name policy) (effectiveDryRun policy))
       (\<lambda>acted.
          if acted then do {
            emit (action_metric policy owner reason);
            emit (action_event policy owner (scale_reason reason policy));
            ret (st\<lparr>scaledDown := scaledDown st + 1\<rparr>) }
          else ret st)"

definition act_on ::
  "'w env \<Rightarrow> CrashLoopPolicy \<Rightarrow> CrashLoopPolicy list \<Rightarrow> pod \<Rightarrow> ownerWorkload \<Rightarrow> string \<Rightarrow> loop_state \<Rightarrow>
   ('w, loop_state) prog" where
  "act_on E policy policies x owner reason st =
     or_count st
       (if ExcludeWorkloadSelector (Spec policy) \<noteq> None
        then isWorkloadExcludedBySelector E owner (ExcludeWorkloadSelector (Spec policy))
        else ret (Inr False)) (\<lambda>excluded.
     if excluded then ret st
     else or_count st
       (if effectiveAllReplicasFailing policy then allReplicasFailing E owner policy else ret (Inr True)) (\<lambda>allFailing.
     if \<not> allFailing then ret st
     else or_count st (winningPolicy E policies x owner) (\<lambda>winner.
     if (case winner of None \<Rightarrow> False | Some q \<Rightarrow> pol_name q \<noteq> pol_name policy) then ret st
     else stop_and_report E policy owner reason st)))"

definition pod_step ::
  "'w env \<Rightarrow> CrashLoopPolicy \<Rightarrow> CrashLoopPolicy list \<Rightarrow> string set option \<Rightarrow> time \<Rightarrow> pod \<Rightarrow> loop_state \<Rightarrow>
   ('w, loop_state) prog" where
  "pod_step E policy policies allowedNamespaces reconcileTime x st =
     (if \<not> admits allowedNamespaces (om_namespace (pod_meta x)) then ret st
      else if isExcludedNamespace (om_namespace (pod_meta x)) (ExcludeNamespaces (Spec policy)) then ret st
      else do {
        now \<leftarrow> time_now E;
        (case pod_gate now policy reconcileTime x of
           Skip \<Rightarrow> ret st
         | SkipUntil expiresAt \<Rightarrow> ret (note_expiry expiresAt st)
         | Proceed reason \<Rightarrow>
             or_count st (resolveOwnerWorkload E x) (\<lambda>owner.
               case owner of
                 None \<Rightarrow> ret st
               | Some owner \<Rightarrow>
                   if \<not> isTargetKind (ow_kind owner) (effectiveTargets policy) then ret st
                   else if workloadKey owner \<in> processed st then ret st
                   else act_on E policy policies x owner reason
                          (st\<lparr>processed := insert (workloadKey owner) (processed st)\<rparr>))) })"

fun pod_loop ::
  "'w env \<Rightarrow> CrashLoopPolicy \<Rightarrow> CrashLoopPolicy list \<Rightarrow> string set option \<Rightarrow> time \<Rightarrow> pod list \<Rightarrow> loop_state \<Rightarrow>
   ('w, loop_state) prog" where
  "pod_loop E policy policies allowedNamespaces reconcileTime [] st = ret st"
| "pod_loop E policy policies allowedNamespaces reconcileTime (x # xs) st = do {
     st' \<leftarrow> pod_step E policy policies allowedNamespaces reconcileTime x st;
     pod_loop E policy policies allowedNamespaces reconcileTime xs st' }"

section \<open>Status of an evaluation\<close>

definition truncate_active :: "ScaledDownWorkloadRef list \<Rightarrow> int32 \<times> ScaledDownWorkloadRef list" where
  "truncate_active active =
     (if length active > MaxActiveScaledDown
      then (word_of_int (min (int (length active - MaxActiveScaledDown)) (2 ^ 31 - 1)), take MaxActiveScaledDown active)
      else (0, active))"

definition new_condition :: "string \<Rightarrow> string \<Rightarrow> int64 \<Rightarrow> string \<Rightarrow> string \<Rightarrow> condition" where
  "new_condition ty status generation reason msg =
     \<lparr>cond_type = ty, cond_status = status, cond_observedGeneration = generation, cond_lastTransitionTime = 0,
      cond_reason = reason, cond_message = msg\<rparr>"

definition ready_condition :: "int64 \<Rightarrow> int \<Rightarrow> condition" where
  "ready_condition generation errors =
     (if errors > 0
      then new_condition ConditionReady ''False'' generation ''ReconcilePartiallyFailed''
             (''Policy evaluation completed with '' @ show_int errors @ '' error(s); see operator logs'')
      else new_condition ConditionReady ''True'' generation ''ReconcileSucceeded''
             ''Policy evaluation completed successfully'')"

definition degraded_condition :: "int64 \<Rightarrow> ScaledDownWorkloadRef list \<Rightarrow> condition" where
  "degraded_condition generation active =
     (if length active > 0
      then new_condition ConditionDegraded ''True'' generation ''WorkloadsScaledDown''
             (show_int (int (length active)) @ '' workload(s) currently scaled down'')
      else new_condition ConditionDegraded ''False'' generation ''NoFailingWorkloads''
             ''No workloads are currently scaled down'')"

definition evaluation_status ::
  "'w env \<Rightarrow> int64 \<Rightarrow> loop_state \<Rightarrow> ScaledDownWorkloadRef list \<Rightarrow> int32 \<Rightarrow> CrashLoopPolicyStatus \<Rightarrow>
   ('w, CrashLoopPolicyStatus) prog" where
  "evaluation_status E generation st active truncated status =
     (let status = status\<lparr>Phase := CrashLoopPolicyPhaseActive, ObservedGeneration := generation,
            ScaledDownWorkloads := ScaledDownWorkloads status + scaledDown st,
            ActiveScaledDown := active, ActiveScaledDownTruncated := truncated\<rparr>
      in do {
        t1 \<leftarrow> time_now E;
        (let status = status\<lparr>Conditions :=
               SetStatusCondition (lb E) t1 (Conditions status) (ready_condition generation (loopErrors st))\<rparr>
         in do {
           t2 \<leftarrow> time_now E;
           ret (status\<lparr>Conditions :=
             SetStatusCondition (lb E) t2 (Conditions status) (degraded_condition generation active)\<rparr>) }) })"

section \<open>Reconcile\<close>

definition requeue_after :: "'w env \<Rightarrow> duration \<Rightarrow> time \<Rightarrow> ('w, duration) prog" where
  "requeue_after E requeueAfter earliest =
     (if \<not> time_IsZero earliest then do {
        now \<leftarrow> time_now E;
        ret (min requeueAfter (thresholdRequeueAfter (time_Sub earliest now))) }
      else ret requeueAfter)"

text \<open>Metrics, status and requeue delay, once the active list is known.\<close>

definition report ::
  "'w env \<Rightarrow> CrashLoopPolicy \<Rightarrow> loop_state \<Rightarrow> ScaledDownWorkloadRef list \<Rightarrow> int32 \<Rightarrow> ('w, api_error + duration) prog" where
  "report E policy st active truncated = do {
     emit (Metric workloadsScaledDown [pol_name policy] (SetTo (int (length active) + sint truncated)));
     emit (Metric policyReady [pol_name policy] (SetTo (boolToFloat (loopErrors st = 0))));
     (if loopErrors st > 0 then emit (Metric policyEvaluationErrors [pol_name policy] (Add (loopErrors st)))
      else ret ());
     (err, _) \<leftarrow> updatePolicyStatusIfChanged E policy
        (evaluation_status E (om_generation (pol_meta policy)) st active truncated);
     (case err of
        Some e \<Rightarrow> ret (Inl e)
      | None \<Rightarrow> do {
          d \<leftarrow> requeue_after E (fst (effectiveReconcileInterval policy)) (earliestThresholdExpiry st);
          ret (Inr d) }) }"

text \<open>From the pod loop's result to the end of \<open>Reconcile\<close>.\<close>

definition finish ::
  "'w env \<Rightarrow> CrashLoopPolicy \<Rightarrow> string set option \<Rightarrow> loop_state \<Rightarrow> ('w, api_error + duration) prog" where
  "finish E policy allowedNamespaces st = do {
     found \<leftarrow> findActiveScaledDownWorkloads E allowedNamespaces (ExcludeNamespaces (Spec policy))
                (effectiveTargets policy) (pol_name policy);
     (let (active, st) = (case found of Inl e \<Rightarrow> ([], with_error st) | Inr active \<Rightarrow> (active, st));
          (truncated, active) = truncate_active active
      in report E policy st active truncated) }"

text \<open>From the initial phase on; \<open>policy\<close> is the object as read.\<close>

definition evaluate :: "'w env \<Rightarrow> CrashLoopPolicy \<Rightarrow> ('w, api_error + duration) prog" where
  "evaluate E policy = do {
     reconcileTime \<leftarrow> time_now E;
     bindE (api (c_listPolicies (cl E))) (\<lambda>policies. do {
       newNamespaceResolver;
       bindE (allowed E policy) (\<lambda>allowedNamespaces.
       bindE (listCandidatePods E (effectiveWatchReasons policy) (effectiveTerminationReasons policy)) (\<lambda>pods. do {
         st \<leftarrow> pod_loop E policy policies allowedNamespaces reconcileTime pods loop_start;
         finish E policy allowedNamespaces st })) }) }"

definition set_pending :: "'w env \<Rightarrow> CrashLoopPolicy \<Rightarrow> ('w, api_error + CrashLoopPolicy) prog" where
  "set_pending E policy =
     (if Phase (Status policy) = PhaseUnset then do {
        (err, policy) \<leftarrow> updateStatusWithRetry E policy (\<lambda>st. st\<lparr>Phase := CrashLoopPolicyPhasePending\<rparr>);
        (case err of Some e \<Rightarrow> ret (Inl e) | None \<Rightarrow> ret (Inr policy)) }
      else ret (Inr policy))"

text \<open>\<open>Inr d\<close> is \<open>ctrl.Result{RequeueAfter: d}\<close> with a nil error.\<close>

definition Reconcile :: "'w env \<Rightarrow> namespaced_name \<Rightarrow> ('w, api_error + duration) prog" where
  "Reconcile E req = do {
     r \<leftarrow> api (c_getPolicy (cl E) req);
     (case r of
        Inl e \<Rightarrow> do {
          (if IsNotFound e then forgetPolicyMetrics (nn_name req) else ret ());
          (case IgnoreNotFound e of None \<Rightarrow> ret (Inr 0) | Some e' \<Rightarrow> ret (Inl e')) }
      | Inr policy \<Rightarrow> bindE (set_pending E policy) (evaluate E)) }"

section \<open>Wiring\<close>

definition mapPodToPolicy :: "'w env \<Rightarrow> client_object \<Rightarrow> ('w, namespaced_name list) prog" where
  "mapPodToPolicy E obj = do {
     r \<leftarrow> api (c_listPolicies (cl E));
     (case r of
        Inl e \<Rightarrow> ret []
      | Inr policies \<Rightarrow>
          ret (map policy_key
            (filter (\<lambda>policy. \<not> isExcludedNamespace (om_namespace (object_meta_of obj)) (ExcludeNamespaces (Spec policy)))
              policies))) }"

text \<open>
  \<open>SetupWithManager\<close> over the manager's two operations: \<open>IndexField\<close> registers an index of pods under
  a name with its extractor, and \<open>Complete\<close> builds the controller with the predicate of the pod watch
  and the function that maps pod events to requests.
\<close>

definition SetupWithManager ::
  "(string \<Rightarrow> (client_object \<Rightarrow> string list) \<Rightarrow> ('w, api_error option) prog) \<Rightarrow>
   ((client_object \<Rightarrow> bool) \<Rightarrow> (client_object \<Rightarrow> ('w, namespaced_name list) prog) \<Rightarrow>
      (namespaced_name \<Rightarrow> ('w, api_error + duration) prog) \<Rightarrow> ('w, api_error option) prog) \<Rightarrow>
   'w env \<Rightarrow> ('w, api_error option) prog" where
  "SetupWithManager IndexField Complete E = do {
     err \<leftarrow> IndexField IndexPodWaitingReason podWaitingReasons;
     (case err of
        Some e \<Rightarrow> ret (Some e)
      | None \<Rightarrow> do {
          err \<leftarrow> IndexField IndexPodTerminationReason podTerminationReasons;
          (case err of
             Some e \<Rightarrow> ret (Some e)
           | None \<Rightarrow> Complete podIsInteresting (mapPodToPolicy E) (Reconcile E)) }) }"

end
