(* ===== verification/Evaluation.thy ===== *)
theory Evaluation
  imports Reconcile
begin

text \<open>
  What one evaluation guarantees: the effects of the pod loop come in blocks, one per workload, each
  justified by the precedence of policies; a dry run touches no workload; the requeue delay is
  bounded; the status tells what happened.
\<close>

section \<open>Blocks of effects\<close>

text \<open>
  A block: a workload, the reason, whether the stop was reported as acted, and the effects. Its
  effects are those of the stop (none in a dry run), followed by the counter and the event exactly
  when it acted. It exists only if, when asked, no other policy was the winner.
\<close>

record block =
  b_owner :: ownerWorkload
  b_reason :: string
  b_acted :: bool
  b_effects :: "effect list"

definition unopposed :: "'w env \<Rightarrow> CrashLoopPolicy \<Rightarrow> CrashLoopPolicy list \<Rightarrow> ownerWorkload \<Rightarrow> bool" where
  "unopposed E policy policies owner \<longleftrightarrow>
     (\<exists>x u u' winner. run_state (winningPolicy E policies x owner) u = (Inr winner, u') \<and>
        (case winner of None \<Rightarrow> True | Some q \<Rightarrow> pol_name q = pol_name policy))"

definition block_ok :: "'w env \<Rightarrow> CrashLoopPolicy \<Rightarrow> CrashLoopPolicy list \<Rightarrow> block \<Rightarrow> bool" where
  "block_ok E policy policies b \<longleftrightarrow>
     unopposed E policy policies (b_owner b) \<and>
     isTargetKind (ow_kind (b_owner b)) (effectiveTargets policy) \<and>
     (\<exists>writes. b_effects b = writes @
          (if b_acted b then [action_metric policy (b_owner b) (b_reason b),
                              action_event policy (b_owner b) (scale_reason (b_reason b) policy)] else []) \<and>
        (if effectiveDryRun policy then writes = []
         else stop_trace (scale_reason (b_reason b) policy) (pol_name policy)
                (b_acted b \<and> ow_kind (b_owner b) \<noteq> ''CronJob'') writes))"

definition acted_count :: "block list \<Rightarrow> nat" where
  "acted_count bs = length (filter b_acted bs)"

lemma no_effects: "emits (\<lambda>_. False) m \<Longrightarrow> run_state m s = (a, t) \<Longrightarrow> trace t = trace s"
  using emits_nothing [of m s] by simp

lemma run_or_count: "run_state (or_count st m f) s =
    (case run_state m s of (Inl e, s') \<Rightarrow> (with_error st, s') | (Inr a, s') \<Rightarrow> run_state (f a) s')"
  by (simp add: or_count_def split: prod.split sum.split)

lemma stop_and_report_block:
  assumes ok: "retriers_ok E" and r: "run_state (stop_and_report E policy owner reason st) s = (st', t)"
    and u: "unopposed E policy policies owner" "isTargetKind (ow_kind owner) (effectiveTargets policy)"
  shows "\<exists>b. b_owner b = owner \<and> block_ok E policy policies b \<and> trace t = trace s @ b_effects b \<and>
     processed st' = processed st \<and> earliestThresholdExpiry st' = earliestThresholdExpiry st \<and>
     scaledDown st' = scaledDown st + of_nat (acted_count [b])"
proof -
  let ?reason = "scale_reason reason policy" and ?n = "pol_name policy" and ?dry = "effectiveDryRun policy"
  obtain acted s1 where a: "run_state (scaleDownWorkload E owner ?reason ?n ?dry) s = (acted, s1)" by force
  have "\<exists>writes. trace s1 = trace s @ writes \<and> (if ?dry then writes = []
      else stop_trace ?reason ?n (acted = Inr True \<and> ow_kind owner \<noteq> ''CronJob'') writes)"
  proof (cases ?dry)
    case True
    have "trace s1 = trace s"
      using no_effects [OF scaleDownWorkload_dry a [unfolded Eq_TrueI [OF True]]] .
    with True show ?thesis by simp
  next
    case False
    from scaleDownWorkload_trace [OF ok a [unfolded Eq_FalseI [OF False]]] False show ?thesis by simp
  qed
  then obtain writes where w: "trace s1 = trace s @ writes" "if ?dry then writes = []
      else stop_trace ?reason ?n (acted = Inr True \<and> ow_kind owner \<noteq> ''CronJob'') writes"
    by blast
  define b where "b = \<lparr>b_owner = owner, b_reason = reason, b_acted = (acted = Inr True),
    b_effects = writes @ (if acted = Inr True then [action_metric policy owner reason,
                              action_event policy owner ?reason] else [])\<rparr>"
  have "block_ok E policy policies b" using u w(2) by (auto simp: block_ok_def b_def)
  moreover have "trace t = trace s @ b_effects b \<and> processed st' = processed st \<and>
      earliestThresholdExpiry st' = earliestThresholdExpiry st \<and>
      scaledDown st' = scaledDown st + of_nat (acted_count [b])"
    using r a w(1) by (cases acted) (auto simp: stop_and_report_def run_or_count b_def acted_count_def with_error_def)
  ultimately show ?thesis by (intro exI [of _ b]) (simp add: b_def)
qed


text \<open>The blocks a part of the loop adds, and how they relate to the variables it assigns.\<close>

abbreviation block_key :: "block \<Rightarrow> string" where
  "block_key b \<equiv> workloadKey (b_owner b)"

definition pass_blocks ::
  "'w env \<Rightarrow> CrashLoopPolicy \<Rightarrow> CrashLoopPolicy list \<Rightarrow> block list \<Rightarrow> loop_state \<Rightarrow> 'w ost \<Rightarrow> loop_state \<Rightarrow> 'w ost \<Rightarrow> bool" where
  "pass_blocks E policy policies bs st s st' t \<longleftrightarrow>
     trace t = trace s @ concat (map b_effects bs) \<and> list_all (block_ok E policy policies) bs \<and>
     distinct (map block_key bs) \<and> set (map block_key bs) \<inter> processed st = {} \<and>
     set (map block_key bs) \<union> processed st \<subseteq> processed st' \<and>
     scaledDown st' = scaledDown st + of_nat (acted_count bs)"

lemma pass_blocks_trans:
  "pass_blocks E policy policies bs st s st1 s1 \<Longrightarrow> pass_blocks E policy policies cs st1 s1 st2 s2 \<Longrightarrow>
   pass_blocks E policy policies (bs @ cs) st s st2 s2"
  by (auto simp: pass_blocks_def acted_count_def)

lemma pass_blocks_Nil:
  "trace t = trace s \<Longrightarrow> processed st' = processed st \<Longrightarrow> scaledDown st' = scaledDown st \<Longrightarrow>
   pass_blocks E policy policies [] st s st' t"
  by (simp add: pass_blocks_def acted_count_def)

lemma with_error_simps [simp]:
  "processed (with_error st) = processed st" "scaledDown (with_error st) = scaledDown st"
  "earliestThresholdExpiry (with_error st) = earliestThresholdExpiry st" "loopErrors (with_error st) = loopErrors st + 1"
  by (simp_all add: with_error_def)

lemma note_expiry_simps [simp]:
  "processed (note_expiry e st) = processed st" "scaledDown (note_expiry e st) = scaledDown st"
  "loopErrors (note_expiry e st) = loopErrors st"
  by (simp_all add: note_expiry_def)

text \<open>How \<open>act_on\<close> ends: without an effect, or with the stop, after the winner was asked for.\<close>

lemma or_count_cases:
  assumes "run_state (or_count st m f) s = (st', t)" "emits (\<lambda>_. False) m"
  obtains (error) "st' = with_error st" "trace t = trace s"
  | (go) a u where "run_state m s = (Inr a, u)" "trace u = trace s" "run_state (f a) u = (st', t)"
proof -
  obtain r u where m: "run_state m s = (r, u)" by force
  have "trace u = trace s" by (rule no_effects [OF assms(2) m])
  with assms(1) m that show thesis by (cases r) (auto simp: run_or_count)
qed

text \<open>The loop body after the replicas check, and after the selector check.\<close>

lemma winner_cases:
  assumes "run_state (or_count st (winningPolicy E policies x owner) (\<lambda>winner.
     if (case winner of None \<Rightarrow> False | Some q \<Rightarrow> pol_name q \<noteq> pol_name policy) then ret st
     else stop_and_report E policy owner reason st)) s = (st', t)"
  shows "(trace t = trace s \<and> (st' = st \<or> st' = with_error st)) \<or>
     (\<exists>u. unopposed E policy policies owner \<and> trace u = trace s \<and>
          run_state (stop_and_report E policy owner reason st) u = (st', t))"
  using assms winningPolicy_emits
proof (rule or_count_cases)
  fix winner u
  assume w: "run_state (winningPolicy E policies x owner) s = (Inr winner, u)" "trace u = trace s"
    "run_state (if (case winner of None \<Rightarrow> False | Some q \<Rightarrow> pol_name q \<noteq> pol_name policy) then ret st
       else stop_and_report E policy owner reason st) u = (st', t)"
  then have "unopposed E policy policies owner" if "\<not> (case winner of None \<Rightarrow> False | Some q \<Rightarrow> pol_name q \<noteq> pol_name policy)"
    using that unfolding unopposed_def by (intro exI [of _ x] exI [of _ s] exI [of _ u]) (auto split: option.splits)
  with w show ?thesis by (cases "case winner of None \<Rightarrow> False | Some q \<Rightarrow> pol_name q \<noteq> pol_name policy") auto
qed simp

lemma check_cases:
  assumes "run_state (or_count st m (\<lambda>b. if b = stop then ret st else k)) s = (st', t)" "emits (\<lambda>_. False) m"
  shows "(trace t = trace s \<and> (st' = st \<or> st' = with_error st)) \<or> (\<exists>u. trace u = trace s \<and> run_state k u = (st', t))"
  using assms by (rule or_count_cases) (auto split: if_splits)

lemma act_on_cases:
  assumes r: "run_state (act_on E policy policies x owner reason st) s = (st', t)"
  shows "(trace t = trace s \<and> (st' = st \<or> st' = with_error st)) \<or>
     (\<exists>u. unopposed E policy policies owner \<and> trace u = trace s \<and>
          run_state (stop_and_report E policy owner reason st) u = (st', t))"
proof -
  let ?k2 = "or_count st (winningPolicy E policies x owner) (\<lambda>winner.
     if (case winner of None \<Rightarrow> False | Some q \<Rightarrow> pol_name q \<noteq> pol_name policy) then ret st
     else stop_and_report E policy owner reason st)"
  let ?k1 = "or_count st (if effectiveAllReplicasFailing policy then allReplicasFailing E owner policy else ret (Inr True))
     (\<lambda>b. if b = False then ret st else ?k2)"
  have "run_state (or_count st (if ExcludeWorkloadSelector (Spec policy) \<noteq> None
        then isWorkloadExcludedBySelector E owner (ExcludeWorkloadSelector (Spec policy))
        else ret (Inr False)) (\<lambda>b. if b = True then ret st else ?k1)) s = (st', t)"
    using r unfolding act_on_def by (simp only: eq_True eq_False)
  from check_cases [OF this] consider "trace t = trace s \<and> (st' = st \<or> st' = with_error st)"
    | u where "trace u = trace s" "run_state ?k1 u = (st', t)"
    by (auto intro: emits_intros)
  then show ?thesis
  proof cases
    case 2
    from check_cases [OF 2(2)] consider "trace t = trace u \<and> (st' = st \<or> st' = with_error st)"
      | v where "trace v = trace u" "run_state ?k2 v = (st', t)"
      by (auto intro: emits_intros)
    then show ?thesis
    proof cases
      case (2 v)
      with winner_cases [OF 2(2)] \<open>trace u = trace s\<close> show ?thesis by auto
    qed (use 2 in simp)
  qed simp
qed

text \<open>How the loop body ends for a pod: without an effect, or with a workload not seen before.\<close>

lemma pod_step_cases:
  assumes r: "run_state (pod_step E policy policies a rt' x st) s = (st', t)"
  shows "(trace t = trace s \<and> processed st' = processed st \<and> scaledDown st' = scaledDown st) \<or>
     (\<exists>owner reason u. isTargetKind (ow_kind owner) (effectiveTargets policy) \<and> workloadKey owner \<notin> processed st \<and>
        trace u = trace s \<and>
        run_state (act_on E policy policies x owner reason
          (st\<lparr>processed := insert (workloadKey owner) (processed st)\<rparr>)) u = (st', t))"
proof (cases "admits a (om_namespace (pod_meta x)) \<and>
    \<not> isExcludedNamespace (om_namespace (pod_meta x)) (ExcludeNamespaces (Spec policy))")
  case True
  obtain now s1 where 1: "run_state (time_now E) s = (now, s1)" by force
  have t1: "trace s1 = trace s" by (rule no_effects [OF _ 1]) (intro emits_intros)
  show ?thesis
  proof (cases "pod_gate now policy rt' x")
    case (Proceed reason)
    with r True 1 have "run_state (or_count st (resolveOwnerWorkload E x) (\<lambda>owner.
         case owner of
           None \<Rightarrow> ret st
         | Some owner \<Rightarrow>
             if \<not> isTargetKind (ow_kind owner) (effectiveTargets policy) then ret st
             else if workloadKey owner \<in> processed st then ret st
             else act_on E policy policies x owner reason
                    (st\<lparr>processed := insert (workloadKey owner) (processed st)\<rparr>))) s1 = (st', t)"
      by (simp add: pod_step_def)
    then show ?thesis
      by (rule or_count_cases [OF _ resolveOwnerWorkload_emits]) (use t1 in \<open>auto split: option.splits if_splits\<close>)
  qed (use r True 1 t1 in \<open>auto simp: pod_step_def\<close>)
qed (use r in \<open>auto simp: pod_step_def split: if_splits\<close>)

lemma pod_step_blocks:
  assumes ok: "retriers_ok E" and r: "run_state (pod_step E policy policies a rt' x st) s = (st', t)"
  shows "\<exists>bs. pass_blocks E policy policies bs st s st' t"
  using pod_step_cases [OF r]
proof (elim disjE exE conjE)
  fix owner reason u
  let ?st = "st\<lparr>processed := insert (workloadKey owner) (processed st)\<rparr>"
  assume o: "isTargetKind (ow_kind owner) (effectiveTargets policy)" "workloadKey owner \<notin> processed st"
    and u: "trace u = trace s" and act: "run_state (act_on E policy policies x owner reason ?st) u = (st', t)"
  from act_on_cases [OF act] show ?thesis
  proof (elim disjE exE)
    fix v
    assume "unopposed E policy policies owner \<and> trace v = trace u \<and>
      run_state (stop_and_report E policy owner reason ?st) v = (st', t)"
    then have v: "unopposed E policy policies owner" "trace v = trace u"
      "run_state (stop_and_report E policy owner reason ?st) v = (st', t)" by blast+
    from stop_and_report_block [OF ok v(3) v(1) o(1)] obtain b where
      "b_owner b = owner" "block_ok E policy policies b" "trace t = trace v @ b_effects b"
      "processed st' = processed ?st" "scaledDown st' = scaledDown ?st + of_nat (acted_count [b])" by blast
    then show ?thesis using v(2) u o(2)
      by (intro exI [of _ "[b]"]) (simp add: pass_blocks_def)
  next
    assume "trace t = trace u \<and> (st' = ?st \<or> st' = with_error ?st)"
    then show ?thesis using u by (intro exI [of _ "[]"]) (auto simp: pass_blocks_def acted_count_def)
  qed
qed (intro exI [of _ "[]"] pass_blocks_Nil)

lemma pod_loop_blocks:
  "retriers_ok E \<Longrightarrow> run_state (pod_loop E policy policies a rt' xs st) s = (st', t) \<Longrightarrow>
   \<exists>bs. pass_blocks E policy policies bs st s st' t"
proof (induction xs arbitrary: st s)
  case Nil
  then show ?case by (intro exI [of _ "[]"] pass_blocks_Nil) auto
next
  case (Cons x xs)
  obtain st1 s1 where 1: "run_state (pod_step E policy policies a rt' x st) s = (st1, s1)" by force
  with Cons.prems have 2: "run_state (pod_loop E policy policies a rt' xs st1) s1 = (st', t)" by simp
  from pod_step_blocks [OF Cons.prems(1) 1] Cons.IH [OF Cons.prems(1) 2] show ?case
    using pass_blocks_trans by blast
qed


section \<open>Dry run\<close>

definition workload_write :: "effect \<Rightarrow> bool" where
  "workload_write ef =
     (case ef of ApiWrite (UpdateObject _) _ \<Rightarrow> True | ApiWrite (UpdateScale _ _) _ \<Rightarrow> True | _ \<Rightarrow> False)"

lemma workload_write_simps [simp]:
  "workload_write (ApiWrite (UpdateObject obj) e)" "workload_write (ApiWrite (UpdateScale obj sc) e)"
  "\<not> workload_write (ApiWrite (UpdatePolicyStatus p) e)" "\<not> workload_write (Metric v ls m)" "\<not> workload_write (Event i j k)"
  by (simp_all add: workload_write_def)

lemma emits_or_count [emits_intros]:
  "emits P m \<Longrightarrow> (\<And>a. emits P (f a)) \<Longrightarrow> emits P (or_count st m f)"
  unfolding or_count_def by (intro emits_intros)

lemma evaluation_status_emits [emits_intros]: "emits P (evaluation_status E g st active n status)"
  unfolding evaluation_status_def Let_def by (intro emits_intros)

lemma requeue_after_emits [emits_intros]: "emits P (requeue_after E d e)"
  unfolding requeue_after_def by (intro emits_intros)

lemma pod_step_dry:
  assumes "effectiveDryRun policy"
  shows "emits (\<lambda>ef. \<not> workload_write ef) (pod_step E policy policies a rt' x st)"
proof -
  have "emits (\<lambda>ef. \<not> workload_write ef) (stop_and_report E policy owner reason st)" for owner reason st
    unfolding stop_and_report_def Eq_TrueI [OF assms]
    by (intro emits_intros scaleDownWorkload_dry) (auto simp: action_metric_def action_event_def Let_def split: prod.split)
  note stop = this
  have "emits (\<lambda>ef. \<not> workload_write ef) (act_on E policy policies x owner reason st)" for owner reason st
    unfolding act_on_def by (intro emits_intros stop)
  note act = this
  have gate: "emits (\<lambda>ef. \<not> workload_write ef) (case g of Skip \<Rightarrow> m | SkipUntil e \<Rightarrow> f e | Proceed reason \<Rightarrow> h reason)"
    if "emits (\<lambda>ef. \<not> workload_write ef) m" "\<And>e. emits (\<lambda>ef. \<not> workload_write ef) (f e)"
      "\<And>reason. emits (\<lambda>ef. \<not> workload_write ef) (h reason)" for g m f h
    using that by (cases g) auto
  show ?thesis unfolding pod_step_def by (intro emits_intros gate act)
qed

lemma pod_loop_dry:
  "effectiveDryRun policy \<Longrightarrow> emits (\<lambda>ef. \<not> workload_write ef) (pod_loop E policy policies a rt' xs st)"
  by (induction xs arbitrary: st) (auto intro!: emits_ret emits_bind pod_step_dry)

lemma finish_no_workload_write:
  "retriers_ok E \<Longrightarrow> emits (\<lambda>ef. \<not> workload_write ef) (finish E policy a st)"
  unfolding finish_def report_def Let_def by (intro emits_intros) auto

text \<open>
  C4: evaluating a policy in dry-run mode sends no write for any workload: whatever the pods, the
  other policies and the API server's answers are, its effects are metrics, events and writes of
  its own status.
\<close>

theorem dry_run_evaluation_touches_no_workload:
  assumes "retriers_ok E" "effectiveDryRun policy"
  shows "emits (\<lambda>ef. \<not> workload_write ef) (evaluate E policy)"
  unfolding evaluate_def
  by (intro emits_intros pod_loop_dry [OF assms(2)] finish_no_workload_write [OF assms(1)])

end
