(* ===== verification/Schedule.thy ===== *)
theory Schedule
  imports Evaluation
begin

text \<open>
  When the operator looks again: the failure gate of the loop against the checks of
  \<open>policyWouldAct\<close>, the bounds of the requeue delay, and the scheduling of threshold expiries.
\<close>

section \<open>The failure gate\<close>


section \<open>Results of programs\<close>

text \<open>Every result of the program satisfies \<open>Q\<close>, whatever the environment answers.\<close>

definition yields :: "('a \<Rightarrow> bool) \<Rightarrow> ('w, 'a) prog \<Rightarrow> bool" where
  "yields Q m \<longleftrightarrow> (\<forall>s. Q (fst (run_state m s)))"

lemma yieldsD: "yields Q m \<Longrightarrow> run_state m s = (a, t) \<Longrightarrow> Q a"
  unfolding yields_def by (metis fst_conv)

lemma yields_ret: "Q a \<Longrightarrow> yields Q (ret a)"
  by (simp add: yields_def)

lemma yields_bind: "(\<And>a. yields Q (f a)) \<Longrightarrow> yields Q (State_Monad.bind m f)"
  by (simp add: yields_def split: prod.split)

lemma yields_bindE: "(\<And>e. Q (Inl e)) \<Longrightarrow> (\<And>a. yields Q (f a)) \<Longrightarrow> yields Q (bindE m f)"
  by (simp add: yields_def run_bindE split: prod.split sum.split)

lemma yields_or_count: "Q (with_error st) \<Longrightarrow> (\<And>a. yields Q (f a)) \<Longrightarrow> yields Q (or_count st m f)"
  by (simp add: yields_def run_or_count split: prod.split sum.split)

lemma yields_if: "(b \<Longrightarrow> yields Q m) \<Longrightarrow> (\<not> b \<Longrightarrow> yields Q n) \<Longrightarrow> yields Q (if b then m else n)"
  by simp

lemma yields_option: "yields Q m \<Longrightarrow> (\<And>x. yields Q (f x)) \<Longrightarrow> yields Q (case p of None \<Rightarrow> m | Some x \<Rightarrow> f x)"
  by (cases p) auto

lemma yields_prod: "(\<And>x y. yields Q (f x y)) \<Longrightarrow> yields Q (case p of (x, y) \<Rightarrow> f x y)"
  by (cases p) auto

lemmas yields_intros = yields_ret yields_bind yields_bindE yields_or_count yields_if yields_option yields_prod

section \<open>The requeue delay\<close>

definition delay_ok :: "CrashLoopPolicy \<Rightarrow> api_error + duration \<Rightarrow> bool" where
  "delay_ok policy r =
     (case r of
        Inl e \<Rightarrow> True
      | Inr d \<Rightarrow> min Second (fst (effectiveReconcileInterval policy)) \<le> d \<and> d \<le> fst (effectiveReconcileInterval policy))"

lemma delay_ok_Inl [simp]: "delay_ok policy (Inl e)"
  by (simp add: delay_ok_def)

lemma delay_ok_pos: "delay_ok policy (Inr d) \<Longrightarrow> 0 < d"
  using effectiveReconcileInterval_pos [of policy] by (auto simp: delay_ok_def)

lemma requeue_after_delay:
  "yields (\<lambda>d. delay_ok policy (Inr d)) (requeue_after E (fst (effectiveReconcileInterval policy)) e)"
  using effectiveReconcileInterval_pos [of policy]
  unfolding requeue_after_def
  by (intro yields_intros) (auto simp: delay_ok_def thresholdRequeueAfter_def minimumThresholdRequeue_def)

lemma finish_delay: "yields (delay_ok policy) (finish E policy a st)"
proof -
  have d: "yields (delay_ok policy) (do {
      d \<leftarrow> requeue_after E (fst (effectiveReconcileInterval policy)) e; ret (Inr d) })" for e
    by (auto simp: yields_def split: prod.split dest: yieldsD [OF requeue_after_delay])
  show ?thesis
    unfolding finish_def report_def Let_def by (rule d | rule yields_intros | simp)+
qed

lemma evaluate_delay: "yields (delay_ok policy) (evaluate E policy)"
  unfolding evaluate_def by (intro yields_intros finish_delay) simp_all

text \<open>
  C12: the operator never stops looking at a policy and never spins on it: an evaluation without an
  error asks for the next one after at least one second (or the policy's interval, if shorter) and
  at most the policy's interval; only a policy that no longer exists is not requeued.
\<close>

theorem requeue_bounded:
  assumes "run_state (Reconcile E req) s = (Inr d, t)"
  shows "case fst (run_state (c_getPolicy (cl E) req) (world s)) of
      Inl e \<Rightarrow> IsNotFound e \<and> d = 0
    | Inr p \<Rightarrow> 0 < d \<and> (Phase (Status p) \<noteq> PhaseUnset \<longrightarrow>
        min Second (fst (effectiveReconcileInterval p)) \<le> d \<and> d \<le> fst (effectiveReconcileInterval p))"
proof -
  obtain r w where r: "run_state (c_getPolicy (cl E) req) (world s) = (r, w)" by (rule prod.exhaust)
  show ?thesis
  proof (cases r)
    case (Inl e)
    with assms r show ?thesis
      by (auto simp: Reconcile_def run_prog IgnoreNotFound_def split: if_splits prod.splits)
  next
    case (Inr p)
    with assms r have run: "run_state (bindE (set_pending E p) (evaluate E)) (s\<lparr>world := w\<rparr>) = (Inr d, t)"
      by (simp add: Reconcile_def run_prog)
    then obtain p' u where p': "run_state (set_pending E p) (s\<lparr>world := w\<rparr>) = (Inr p', u)"
      "run_state (evaluate E p') u = (Inr d, t)"
      by (auto simp: run_bindE split: prod.splits sum.splits)
    have ok: "delay_ok p' (Inr d)" by (rule yieldsD [OF evaluate_delay p'(2)])
    have "p' = p" if "Phase (Status p) \<noteq> PhaseUnset" using p'(1) that by (simp add: set_pending_def)
    then show ?thesis using r Inr ok delay_ok_pos [OF ok] by (auto simp: delay_ok_def)
  qed
qed

section \<open>Threshold expiries\<close>

lemma act_on_expiry:
  "yields (\<lambda>st'. earliestThresholdExpiry st' = earliestThresholdExpiry st) (act_on E policy policies x owner reason st)"
  unfolding act_on_def stop_and_report_def by (intro yields_intros) simp_all

lemma clamp64_mono: "d \<le> e \<Longrightarrow> clamp64 d \<le> clamp64 e"
  by (simp add: clamp64_def)

lemma SkipUntil_future: "pod_gate now policy rt' x = SkipUntil e \<Longrightarrow> rt' < e"
  by (auto simp: pod_gate_def Let_def time_Add_def split: prod.splits if_splits)

definition expiry_by :: "time \<Rightarrow> loop_state \<Rightarrow> bool" where
  "expiry_by e st \<longleftrightarrow> earliestThresholdExpiry st \<noteq> 0 \<and> earliestThresholdExpiry st \<le> e"

lemma note_expiry_by: "0 < e' \<Longrightarrow> expiry_by e st \<Longrightarrow> expiry_by e (note_expiry e' st)"
  by (auto simp: expiry_by_def note_expiry_def time_IsZero_def time_Before_def)

lemma pod_step_expiry:
  assumes "0 \<le> rt'"
  shows "yields (\<lambda>st'. earliestThresholdExpiry st' = earliestThresholdExpiry st \<or>
      (\<exists>e'>0. st' = note_expiry e' st)) (pod_step E policy policies a rt' x st)"
    (is "yields ?Q _")
proof -
  have act: "yields ?Q (act_on E policy policies x owner reason
      (st\<lparr>processed := insert (workloadKey owner) (processed st)\<rparr>))" for owner reason
    using act_on_expiry [of "st\<lparr>processed := insert (workloadKey owner) (processed st)\<rparr>" E policy policies x owner reason]
    by (auto simp: yields_def)
  have gate: "yields ?Q (case g of Skip \<Rightarrow> ret st | SkipUntil e \<Rightarrow> ret (note_expiry e st)
     | Proceed reason \<Rightarrow>
         or_count st (resolveOwnerWorkload E x) (\<lambda>owner.
           case owner of
             None \<Rightarrow> ret st
           | Some owner \<Rightarrow>
               if \<not> isTargetKind (ow_kind owner) (effectiveTargets policy) then ret st
               else if workloadKey owner \<in> processed st then ret st
               else act_on E policy policies x owner reason
                      (st\<lparr>processed := insert (workloadKey owner) (processed st)\<rparr>)))"
    if "\<And>e. g = SkipUntil e \<Longrightarrow> 0 < e" for g
  proof (cases g)
    case (SkipUntil e)
    with that show ?thesis by (auto intro!: yields_ret)
  next
    case (Proceed reason)
    then show ?thesis unfolding Proceed gate.case by (intro yields_intros act) auto
  qed (auto intro: yields_ret)
  show ?thesis
    unfolding pod_step_def
    by (intro yields_ret yields_if yields_bind gate) (use assms in \<open>auto dest: SkipUntil_future\<close>)
qed

lemma pod_loop_expiry:
  "0 \<le> rt' \<Longrightarrow> expiry_by e st \<Longrightarrow> run_state (pod_loop E policy policies a rt' xs st) s = (st', t) \<Longrightarrow> expiry_by e st'"
proof (induction xs arbitrary: st s)
  case (Cons x xs)
  obtain st1 s1 where 1: "run_state (pod_step E policy policies a rt' x st) s = (st1, s1)" by force
  from yieldsD [OF pod_step_expiry [OF Cons.prems(1)] 1] Cons.prems(2) have "expiry_by e st1"
    using note_expiry_by by (auto simp: expiry_by_def)
  moreover have "run_state (pod_loop E policy policies a rt' xs st1) s1 = (st', t)" using Cons.prems(3) 1 by simp
  ultimately show ?case by (rule Cons.IH [OF Cons.prems(1)])
qed simp

lemma gate_clock_free:
  "effectiveTerminationReasons policy = [] \<Longrightarrow> pod_gate now policy rt' x = pod_gate now' policy rt' x"
  by (simp add: pod_gate_def podIsRestartLooping_def)

lemma pod_loop_notes:
  assumes "0 \<le> rt'" "effectiveTerminationReasons policy = []" "pod_gate now policy rt' x = SkipUntil e"
    and "admits a (om_namespace (pod_meta x))"
    and "\<not> isExcludedNamespace (om_namespace (pod_meta x)) (ExcludeNamespaces (Spec policy))"
  shows "x \<in> set xs \<Longrightarrow> run_state (pod_loop E policy policies a rt' xs st) s = (st', t) \<Longrightarrow> expiry_by e st'"
proof (induction xs arbitrary: st s)
  case (Cons y ys)
  obtain st1 s1 where 1: "run_state (pod_step E policy policies a rt' y st) s = (st1, s1)" by force
  have run: "run_state (pod_loop E policy policies a rt' ys st1) s1 = (st', t)" using Cons.prems(2) 1 by simp
  show ?case
  proof (cases "x = y")
    case False
    with Cons.prems(1) show ?thesis using Cons.IH [OF _ run] by simp
  next
    case True
    have "pod_gate now' policy rt' y = SkipUntil e" for now'
      using assms(3) True gate_clock_free [OF assms(2)] by metis
    then have "st1 = note_expiry e st"
      using 1 assms(4,5) True by (auto simp: pod_step_def split: prod.splits)
    moreover have "0 < e" using SkipUntil_future [OF assms(3)] assms(1) by simp
    ultimately have "expiry_by e st1"
      by (auto simp: expiry_by_def note_expiry_def time_IsZero_def time_Before_def)
    then show ?thesis by (rule pod_loop_expiry [OF assms(1) _ run])
  qed
qed simp


end
