(* ===== verification/Reporting.thy ===== *)
theory Reporting
  imports Schedule
begin

text \<open>
  What an evaluation reports: the status it writes and the gauges it sets say what was found, and
  what happens at the edges: a list that fails, a policy that is gone, a pod event no policy wants.
\<close>

section \<open>The written status\<close>

text \<open>
  The documented behaviour of \<open>meta.SetStatusCondition\<close>: afterwards the list has a condition of that
  type with the given status, reason, message and generation, and other types are as before.
\<close>

definition find_condition :: "string \<Rightarrow> condition list \<Rightarrow> condition option" where
  "find_condition ty cs = find (\<lambda>c. cond_type c = ty) cs"

definition sets_conditions :: "'w env \<Rightarrow> bool" where
  "sets_conditions E \<longleftrightarrow>
     (\<forall>now cs c.
        (\<exists>c'. find_condition (cond_type c) (SetStatusCondition (lb E) now cs c) = Some c' \<and>
           cond_status c' = cond_status c \<and> cond_reason c' = cond_reason c \<and> cond_message c' = cond_message c \<and>
           cond_observedGeneration c' = cond_observedGeneration c) \<and>
        (\<forall>ty. ty \<noteq> cond_type c \<longrightarrow>
           find_condition ty (SetStatusCondition (lb E) now cs c) = find_condition ty cs))"

definition condition_status :: "string \<Rightarrow> CrashLoopPolicyStatus \<Rightarrow> string option" where
  "condition_status ty st = map_option cond_status (find_condition ty (Conditions st))"

lemma condition_types_differ [simp]: "ConditionReady \<noteq> ConditionDegraded" "ConditionDegraded \<noteq> ConditionReady"
  by (simp_all add: ConditionReady_def ConditionDegraded_def)

lemma condition_types [simp]:
  "cond_type (ready_condition g n) = ConditionReady" "cond_type (degraded_condition g xs) = ConditionDegraded"
  by (simp_all add: ready_condition_def degraded_condition_def new_condition_def)

lemma condition_statuses [simp]:
  "cond_status (ready_condition g n) = (if n > 0 then ''False'' else ''True'')"
  "cond_status (degraded_condition g xs) = (if xs = [] then ''False'' else ''True'')"
  by (simp_all add: ready_condition_def degraded_condition_def new_condition_def)

text \<open>The status reflects the generation, the number of errors and the workloads found.\<close>

definition reflects :: "int64 \<Rightarrow> int \<Rightarrow> ScaledDownWorkloadRef list \<Rightarrow> CrashLoopPolicyStatus \<Rightarrow> bool" where
  "reflects generation errors found status \<longleftrightarrow>
     Phase status = CrashLoopPolicyPhaseActive \<and> ObservedGeneration status = generation \<and>
     ActiveScaledDown status = take MaxActiveScaledDown found \<and>
     sint (ActiveScaledDownTruncated status) = min (int (length found - MaxActiveScaledDown)) (2 ^ 31 - 1) \<and>
     condition_status ConditionReady status = Some (if errors > 0 then ''False'' else ''True'') \<and>
     condition_status ConditionDegraded status = Some (if found = [] then ''False'' else ''True'')"

lemma sint_bounded_word: "0 \<le> k \<Longrightarrow> k < 2 ^ 31 \<Longrightarrow> sint (word_of_int k :: int32) = k"
  by (simp add: sint_sbintrunc' signed_take_bit_int_eq_self)

lemma truncate_active_spec:
  assumes "truncate_active found = (n, active)"
  shows "active = take MaxActiveScaledDown found \<and>
     sint n = min (int (length found - MaxActiveScaledDown)) (2 ^ 31 - 1) \<and> (active = [] \<longleftrightarrow> found = [])"
proof -
  have "sint (word_of_int (min k (2 ^ 31 - 1)) :: int32) = min k (2 ^ 31 - 1)" if "0 \<le> k" for k
    by (rule sint_bounded_word) (use that in auto)
  with assms show ?thesis
    by (auto simp: truncate_active_def MaxActiveScaledDown_def split: if_splits)
qed

lemma evaluation_status_reflects:
  assumes "sets_conditions E" "truncate_active found = (n, active)"
  shows "yields (\<lambda>status. reflects g (loopErrors st) found status) (evaluation_status E g st active n old)"
proof -
  have set1: "condition_status (cond_type c) (s\<lparr>Conditions := SetStatusCondition (lb E) now cs c\<rparr>) = Some (cond_status c)"
    and set2: "ty \<noteq> cond_type c \<Longrightarrow> find_condition ty (SetStatusCondition (lb E) now cs c) = find_condition ty cs"
    for s now cs c ty
    using assms(1) by (fastforce simp: sets_conditions_def condition_status_def)+
  have "condition_status ConditionDegraded (s\<lparr>Conditions := SetStatusCondition (lb E) t2
       (SetStatusCondition (lb E) t1 cs (ready_condition g k)) (degraded_condition g xs)\<rparr>) =
       Some (if xs = [] then ''False'' else ''True'')" for s t1 t2 cs k xs
    using set1 [of "degraded_condition g xs"] by simp
  moreover have "condition_status ConditionReady (s\<lparr>Conditions := SetStatusCondition (lb E) t2
       (SetStatusCondition (lb E) t1 cs (ready_condition g k)) (degraded_condition g xs)\<rparr>) =
       Some (if k > 0 then ''False'' else ''True'')" for s t1 t2 cs k xs
    using set1 [of "ready_condition g k"] set2 [of ConditionReady "degraded_condition g xs"]
    by (simp add: condition_status_def)
  ultimately show ?thesis
    using truncate_active_spec [OF assms(2)]
    by (auto simp: evaluation_status_def Let_def reflects_def intro!: yields_bind yields_ret)
qed

section \<open>Everything an evaluation reports\<close>

lemma emits_bind_fst: "emits P m \<Longrightarrow> (\<And>s. emits P (f (fst (run_state m s)))) \<Longrightarrow> emits P (State_Monad.bind m f)"
proof (rule emitsI)
  fix s a s'
  assume m: "emits P m" and f: "\<And>s. emits P (f (fst (run_state m s)))"
    and r: "run_state (State_Monad.bind m f) s = (a, s')"
  obtain b t where b: "run_state m s = (b, t)" by force
  with r have "run_state (f b) t = (a, s')" by simp
  moreover have "emits P (f b)" using f [of s] b by simp
  ultimately show "\<exists>es. trace s' = trace s @ es \<and> list_all P es"
    using emitsD [OF m b] emitsD [of P "f b" t a s'] by fastforce
qed

lemma updatePolicyStatusIfChanged_writes:
  assumes "retriers_ok E" "\<And>st. emits P (mutate st)" "\<And>st. yields R (mutate st)"
    and "\<And>p st now e. R st \<Longrightarrow> P (ApiWrite (UpdatePolicyStatus (p\<lparr>Status := st\<lparr>LastEvaluationTime := Some now\<rparr>\<rparr>)) e)"
  shows "emits P (updatePolicyStatusIfChanged E policy mutate)"
  unfolding updatePolicyStatusIfChanged_def
proof (rule emits_retry [OF policy_retrier [OF assms(1)]])
  have w: "P (ApiWrite (UpdatePolicyStatus (p\<lparr>Status := fst (run_state (mutate st) s)\<lparr>LastEvaluationTime := Some now\<rparr>\<rparr>)) e)"
    for p st s now e
    using assms(3) by (intro assms(4)) (simp add: yields_def)
  show "emits P (if_changed_attempt E mutate l)" for l
    unfolding if_changed_attempt_def Let_def
    by (intro emits_bind [OF emits_api] emits_sum emits_ret emits_bind_fst [OF assms(2)] emits_if
        emits_bind [OF emits_time_now] emits_bind emits_request w)
qed

definition found_held :: "api_error + ScaledDownWorkloadRef list \<Rightarrow> ScaledDownWorkloadRef list" where
  "found_held r = (case r of Inl e \<Rightarrow> [] | Inr refs \<Rightarrow> refs)"

definition list_errors :: "api_error + ScaledDownWorkloadRef list \<Rightarrow> int" where
  "list_errors r = (case r of Inl e \<Rightarrow> 1 | Inr refs \<Rightarrow> 0)"

text \<open>
  An effect of the report is truthful about \<open>errors\<close> and \<open>found\<close>: a status write reflects both, and
  the gauges and the error counter have their values.
\<close>

definition truthful :: "CrashLoopPolicy \<Rightarrow> int \<Rightarrow> ScaledDownWorkloadRef list \<Rightarrow> effect \<Rightarrow> bool" where
  "truthful policy errors found ef =
     (case ef of
        ApiWrite (UpdatePolicyStatus p) _ \<Rightarrow> reflects (om_generation (pol_meta policy)) errors found (Status p)
      | Metric workloadsScaledDown labels (SetTo v) \<Rightarrow>
          labels = [pol_name policy] \<and> (length found \<le> 2 ^ 31 \<longrightarrow> v = int (length found))
      | Metric policyReady labels (SetTo v) \<Rightarrow> labels = [pol_name policy] \<and> v = (if errors = 0 then 1 else 0)
      | Metric policyEvaluationErrors labels (Add v) \<Rightarrow> labels = [pol_name policy] \<and> v = errors \<and> 0 < v
      | _ \<Rightarrow> False)"

lemma truthful_simps [simp]:
  "truthful policy errors found (ApiWrite (UpdatePolicyStatus p) e) =
     reflects (om_generation (pol_meta policy)) errors found (Status p)"
  by (simp add: truthful_def)

lemma reflects_stamp [simp]: "reflects g n xs (st\<lparr>LastEvaluationTime := t\<rparr>) = reflects g n xs st"
  by (simp add: reflects_def condition_status_def)

lemma gauge_value:
  "truncate_active found = (n, active) \<Longrightarrow> length found \<le> 2 ^ 31 \<Longrightarrow> int (length active) + sint n = int (length found)"
  using truncate_active_spec [of found n active] by (auto simp: MaxActiveScaledDown_def)

lemma finish_truthful:
  assumes "retriers_ok E" "sets_conditions E"
    and r: "run_state (findActiveScaledDownWorkloads E a (ExcludeNamespaces (Spec policy))
      (effectiveTargets policy) (pol_name policy)) s = (r, u)"
  shows "\<exists>es. trace (snd (run_state (finish E policy a st) s)) = trace s @ es \<and>
     list_all (truthful policy (loopErrors st + list_errors r) (found_held r)) es"
proof -
  have tr: "trace u = trace s" by (rule no_effects [OF _ r]) (intro emits_intros)
  define st' where "st' = (case r of Inl e \<Rightarrow> with_error st | Inr _ \<Rightarrow> st)"
  have errs: "loopErrors st' = loopErrors st + list_errors r" by (simp add: st'_def list_errors_def split: sum.split)
  obtain n active where na: "truncate_active (found_held r) = (n, active)" by force
  let ?P = "truthful policy (loopErrors st') (found_held r)"
  let ?rest = "report E policy st' active n"
  have fin: "run_state (finish E policy a st) s = run_state ?rest u"
    using r na by (cases r) (simp_all add: finish_def st'_def found_held_def)
  have w: "emits ?P (updatePolicyStatusIfChanged E policy
      (evaluation_status E (om_generation (pol_meta policy)) st' active n))"
  proof (rule updatePolicyStatusIfChanged_writes [OF assms(1)])
    show "yields (reflects (om_generation (pol_meta policy)) (loopErrors st') (found_held r))
        (evaluation_status E (om_generation (pol_meta policy)) st' active n status)" for status
      by (rule evaluation_status_reflects [OF assms(2) na])
  qed (simp_all add: evaluation_status_emits)
  have "emits ?P ?rest"
    using gauge_value [OF na] unfolding report_def
    by (intro emits_intros w) (auto simp: truthful_def boolToFloat_def)
  then obtain es where "trace (snd (run_state ?rest u)) = trace u @ es" "list_all ?P es"
    by (auto simp: emits_def)
  then show ?thesis using fin tr errs by auto
qed

text \<open>
  C10: what an evaluation reports is what it found. Every status it writes (also after a conflict)
  has the policy's generation, phase Active, at most 1000 of the workloads found held and the number
  of the others, Ready True exactly when no error was counted and Degraded True exactly when a
  workload was found; the gauges and the error counter agree with it.
\<close>

theorem report_is_truthful:
  assumes "retriers_ok E" "sets_conditions E"
  shows "\<exists>es. trace (snd (run_state (finish E policy a st) s)) = trace s @ es \<and>
     (let r = fst (run_state (findActiveScaledDownWorkloads E a (ExcludeNamespaces (Spec policy))
                (effectiveTargets policy) (pol_name policy)) s)
      in list_all (truthful policy (loopErrors st + list_errors r) (found_held r)) es)"
proof -
  obtain r u where r: "run_state (findActiveScaledDownWorkloads E a (ExcludeNamespaces (Spec policy))
      (effectiveTargets policy) (pol_name policy)) s = (r, u)" by force
  from finish_truthful [OF assms r, of st] show ?thesis using r by simp
qed

text \<open>
  C35: when the workloads held cannot be listed, the evaluation reports that none is: every status
  it writes has an empty list and Degraded False (and Ready False for the error). A comment at this
  place says the list is left incomplete rather than empty.
\<close>

theorem failed_list_reports_nothing_held:
  assumes "retriers_ok E" "sets_conditions E" "0 \<le> loopErrors st"
    and "run_state (findActiveScaledDownWorkloads E a (ExcludeNamespaces (Spec policy))
      (effectiveTargets policy) (pol_name policy)) s = (Inl e, u)"
    and "trace (snd (run_state (finish E policy a st) s)) = trace s @ es" "ApiWrite (UpdatePolicyStatus p) out \<in> set es"
  shows "ActiveScaledDown (Status p) = [] \<and> condition_status ConditionDegraded (Status p) = Some ''False'' \<and>
     condition_status ConditionReady (Status p) = Some ''False''"
proof -
  from finish_truthful [OF assms(1,2,4), of st] assms(5)
  have "list_all (truthful policy (loopErrors st + 1) []) es"
    by (simp add: list_errors_def found_held_def)
  with assms(6) have "reflects (om_generation (pol_meta policy)) (loopErrors st + 1) [] (Status p)"
    by (auto simp: list_all_iff)
  with assms(3) show ?thesis by (simp add: reflects_def)
qed

section \<open>A policy that is gone, a pod nobody wants\<close>

text \<open>
  C36: the reconcile of a policy that no longer exists drops its three series, so that no series with
  the policy as its only label is left, has no other effect, and is neither an error nor requeued.
\<close>

theorem deleted_policy_is_forgotten:
  assumes "run_state (c_getPolicy (cl E) req) (world s) = (Inl e, w)" "IsNotFound e"
  shows "\<exists>t. run_state (Reconcile E req) s = (Inr 0, t) \<and> world t = w \<and>
     trace t = trace s @ map (\<lambda>v. Metric v [nn_name req] DeleteLabelValues)
       [workloadsScaledDown, policyReady, policyEvaluationErrors] \<and>
     (\<forall>v. vd_labels (metric_desc v) = [''policy''] \<longrightarrow> series (trace t) v [nn_name req] = None)"
proof -
  have "series (es @ map (\<lambda>v. Metric v [n] DeleteLabelValues) [workloadsScaledDown, policyReady, policyEvaluationErrors])
      v [n] = None" if "vd_labels (metric_desc v) = [''policy'']" for es n v
    using that by (cases v) (simp_all add: series_append)
  with assms show ?thesis by (simp add: Reconcile_def run_prog forgetPolicyMetrics_def IgnoreNotFound_def)
qed

text \<open>
  C26: mapping a pod event to policies loses nothing: if a listed policy is not among the requests,
  its evaluation would skip that pod without a request or an effect; and every request is for a
  listed policy.
\<close>

theorem mapPodToPolicy_misses_nothing:
  assumes "run_state (c_listPolicies (cl E)) (world s) = (Inr policies, w)"
    and "run_state (mapPodToPolicy E (PodObj x)) s = (requests, t)"
  shows "set requests \<subseteq> policy_key ` set policies \<and>
     (policy \<in> set policies \<and> policy_key policy \<notin> set requests \<longrightarrow>
        run_state (pod_step E policy qs a reconcileTime x st) u = (st, u))"
  using assms
  by (auto simp: mapPodToPolicy_def run_prog pod_step_def object_meta_of_def split: if_splits)

section \<open>Witnesses\<close>

lemma cluster_sets_conditions: "sets_conditions cluster_env"
proof (unfold sets_conditions_def, intro allI conjI impI)
  fix now c ty and cs :: "condition list"
  have upd: "find (\<lambda>x. cond_type x = ty') (map (\<lambda>x. if cond_type x = cond_type c then c\<lparr>cond_lastTransitionTime := f x\<rparr> else x) cs) =
      (if ty' = cond_type c then map_option (\<lambda>x. c\<lparr>cond_lastTransitionTime := f x\<rparr>) (find (\<lambda>x. cond_type x = ty') cs)
       else find (\<lambda>x. cond_type x = ty') cs)" for f ty'
    by (induction cs) auto
  have app: "find P (cs @ [d]) = (case find P cs of None \<Rightarrow> if P d then Some d else None | Some y \<Rightarrow> Some y)" for P d
    by (induction cs) auto
  show "\<exists>c'. find_condition (cond_type c) (SetStatusCondition (lb cluster_env) now cs c) = Some c' \<and>
      cond_status c' = cond_status c \<and> cond_reason c' = cond_reason c \<and> cond_message c' = cond_message c \<and>
      cond_observedGeneration c' = cond_observedGeneration c"
    by (cases "find (\<lambda>x. cond_type x = cond_type c) cs")
      (simp_all add: cluster_lib_def set_condition_def find_condition_def upd app)
  show "find_condition ty (SetStatusCondition (lb cluster_env) now cs c) = find_condition ty cs" if "ty \<noteq> cond_type c"
    using that by (auto simp: cluster_lib_def set_condition_def find_condition_def upd app split: option.split)
qed

end
