(* ===== verification/Passes.thy ===== *)
theory Passes
  imports Reporting
begin

text \<open>
  Whole passes in the in-memory cluster: the witnesses of the properties of an evaluation, among
  them a pass that finds nothing, one in which a list fails, and one that stops a workload.
\<close>

text \<open>The stored policy of the witnesses: evaluated before, reporting a held workload.\<close>

definition active_policy :: CrashLoopPolicy where
  "active_policy = policy0 ''pol'' (spec0\<lparr>ExcludeNamespaces := [''kube-system'']\<rparr>)
     \<lparr>Status := status0\<lparr>Phase := CrashLoopPolicyPhaseActive,
        ActiveScaledDown := [\<lparr>ref_kind = ''Deployment'', ref_namespace = ''prod'', ref_name = ''web''\<rparr>]\<rparr>\<rparr>"

definition policy_cluster :: cluster where
  "policy_cluster = web_cluster\<lparr>k_policies := [active_policy]\<rparr>"

abbreviation failing_lists :: "cluster env" where
  "failing_lists \<equiv> listing_env (Inl (Failed ''down'')) held_deployment"

lemma listing_env_contracts: "retriers_ok (listing_env sts d)" "sets_conditions (listing_env sts d)"
  using cluster_retriers_ok cluster_sets_conditions
  by (simp_all add: listing_env_def retriers_ok_def sets_conditions_def)

lemma active_policy_effective [simp]:
  "effectiveTargets active_policy = DefaultTargets" "ExcludeNamespaces (Spec active_policy) = [''kube-system'']"
  "pol_name active_policy = ''pol''" "fst (effectiveReconcileInterval active_policy) = 60 * Second"
  "Status active_policy = status0\<lparr>Phase := CrashLoopPolicyPhaseActive,
        ActiveScaledDown := [\<lparr>ref_kind = ''Deployment'', ref_namespace = ''prod'', ref_name = ''web''\<rparr>]\<rparr>"
  "om_generation (pol_meta active_policy) = 1" "policy_key active_policy = nsname [] ''pol''"
  by (simp_all add: active_policy_def effective_defs policy_example_defs RequeueIntervalDefault_def policy_key_def)

lemma stored_active_policy: "fetch pol_meta (k_policies policy_cluster) (nsname [] ''pol'') = Inr active_policy"
  by (simp add: policy_cluster_def fetch_def meta_key_def nsname_def active_policy_def policy_example_defs)

lemma failing_find:
  "run_state (findActiveScaledDownWorkloads failing_lists a x DefaultTargets p) s = (Inl (Failed ''down''), s)"
  by (simp add: findActiveScaledDownWorkloads_def append_held_def listing_env_def run_prog Let_def
      isTargetKind_def DefaultTargets_def)

lemma listing_env_simps [simp]:
  "rt (listing_env sts d) = cluster_retriers" "lb (listing_env sts d) = cluster_lib"
  "c_now (cl (listing_env sts d)) = reads k_clock"
  "c_getPolicy (cl (listing_env sts d)) = (\<lambda>k. reads (\<lambda>w. fetch pol_meta (k_policies w) k))"
  "c_updateStatus (cl (listing_env sts d)) =
     (\<lambda>p. State (\<lambda>w. (Inr p, w\<lparr>k_policies := put pol_meta p (k_policies w)\<rparr>)))"
  by (simp_all add: listing_env_def cluster_client_def)

lemma failing_finish:
  "run_state (finish failing_lists active_policy None loop_start) s =
   run_state (report failing_lists active_policy (with_error loop_start) [] 0) s"
  by (simp add: finish_def failing_find truncate_active_def)

lemma failing_finish_writes:
  "\<exists>es p. trace (snd (run_state (finish failing_lists active_policy None loop_start) (run_in policy_cluster))) = es \<and>
     ApiWrite (UpdatePolicyStatus p) None \<in> set es"
  unfolding failing_finish
  by (simp add: report_def run_prog with_error_def loop_start_def
      updatePolicyStatusIfChanged_def cluster_retriers_def retry_times_numeral if_changed_attempt_def
      run_in_def stored_active_policy evaluation_status_def time_now_def Let_def cluster_lib_def
      status0_def api_request_def err_of_def requeue_after_def time_IsZero_def)

theorem failed_list_reports_nothing_held_witness:
  "\<exists>p. ApiWrite (UpdatePolicyStatus p) None
       \<in> set (trace (snd (run_state (finish failing_lists active_policy None loop_start) (run_in policy_cluster)))) \<and>
     ActiveScaledDown (Status active_policy) \<noteq> [] \<and> ActiveScaledDown (Status p) = [] \<and>
     condition_status ConditionDegraded (Status p) = Some ''False''"
proof -
  let ?s = "run_in policy_cluster"
  obtain es p where es: "trace (snd (run_state (finish failing_lists active_policy None loop_start) ?s)) = es"
    "ApiWrite (UpdatePolicyStatus p) None \<in> set es" using failing_finish_writes by blast
  have f: "run_state (findActiveScaledDownWorkloads failing_lists None (ExcludeNamespaces (Spec active_policy))
      (effectiveTargets active_policy) (pol_name active_policy)) ?s = (Inl (Failed ''down''), ?s)"
    by (simp add: failing_find)
  have t: "trace (snd (run_state (finish failing_lists active_policy None loop_start) ?s)) = trace ?s @ es"
    using es(1) by (simp add: run_in_def)
  have z: "0 \<le> loopErrors loop_start" by (simp add: loop_start_def)
  from failed_list_reports_nothing_held [OF listing_env_contracts z f t es(2)] es
  show ?thesis by auto
qed

theorem report_is_truthful_witness:
  "\<exists>es. trace (snd (run_state (finish (listing_env (Inr []) held_deployment) active_policy None loop_start) (run_in policy_cluster))) = es \<and>
     list_all (truthful active_policy 0 [\<lparr>ref_kind = ''Deployment'', ref_namespace = ''prod'', ref_name = ''web''\<rparr>]) es"
proof -
  have "fst (run_state (findActiveScaledDownWorkloads (listing_env (Inr []) held_deployment) None
      (ExcludeNamespaces (Spec active_policy)) (effectiveTargets active_policy) (pol_name active_policy)) (run_in policy_cluster)) =
      Inr [\<lparr>ref_kind = ''Deployment'', ref_namespace = ''prod'', ref_name = ''web''\<rparr>]"
    by (simp add: findActiveScaledDownWorkloads_def append_held_def listing_env_def run_prog Let_def isTargetKind_def
        DefaultTargets_def held_by_def held_meta isExcludedNamespace_def admits_def held_ref_def)
  with report_is_truthful [OF listing_env_contracts [of "Inr []" held_deployment], of active_policy None loop_start "run_in policy_cluster"]
  show ?thesis by (simp add: run_in_def loop_start_def list_errors_def found_held_def Let_def)
qed

theorem deleted_policy_is_forgotten_witness:
  "trace (snd (run_state (Reconcile cluster_env (nsname [] ''gone'')) (run_in policy_cluster))) =
     map (\<lambda>v. Metric v [''gone''] DeleteLabelValues) [workloadsScaledDown, policyReady, policyEvaluationErrors]"
proof -
  have g: "run_state (c_getPolicy (cl cluster_env) (nsname [] ''gone'')) (world (run_in policy_cluster)) =
      (Inl NotFound, policy_cluster)"
    by (simp add: cluster_client_def policy_cluster_def fetch_def meta_key_def nsname_def run_in_def active_policy_def
        policy_example_defs)
  have "IsNotFound NotFound" by simp
  from deleted_policy_is_forgotten [OF g this] show ?thesis by (auto simp: run_in_def nsname_def)
qed

definition system_pod :: pod where
  "system_pod = (waiting_pod ''dns'')\<lparr>pod_meta := meta0 ''kube-system'' ''dns''\<rparr>"

theorem mapPodToPolicy_misses_nothing_witness:
  "run_state (pod_step cluster_env active_policy [] None 0 system_pod loop_start) (run_in policy_cluster) =
     (loop_start, run_in policy_cluster)"
proof -
  have l: "run_state (c_listPolicies (cl cluster_env)) (world (run_in policy_cluster)) = (Inr [active_policy], policy_cluster)"
    by (simp add: cluster_client_def policy_cluster_def run_in_def)
  have m: "run_state (mapPodToPolicy cluster_env (PodObj system_pod)) (run_in policy_cluster) = ([], run_in policy_cluster)"
    using l by (simp add: mapPodToPolicy_def run_prog object_meta_of_def system_pod_def meta0_def isExcludedNamespace_def run_in_def)
  have "active_policy \<in> set [active_policy] \<and> policy_key active_policy \<notin> set []" by simp
  with mapPodToPolicy_misses_nothing [OF l m, of active_policy "[]" None 0 loop_start "run_in policy_cluster"]
  show ?thesis by blast
qed

section \<open>A quiet pass\<close>

lemma active_policy_reasons [simp]:
  "effectiveWatchReasons active_policy = DefaultWatchReasons" "effectiveTerminationReasons active_policy = []"
  "NamespaceSelector (Spec active_policy) = None"
  by (simp_all add: active_policy_def effective_defs policy_example_defs)

lemma no_candidates:
  "k_pods (world s) = [] \<Longrightarrow> run_state (listCandidatePods cluster_env DefaultWatchReasons []) s = (Inr [], s)"
  by (simp add: listCandidatePods_def listPodsByIndex_def DefaultWatchReasons_def run_prog cluster_client_def cluster_by_field_def)

lemma none_held:
  "run_state (findActiveScaledDownWorkloads cluster_env None [''kube-system''] DefaultTargets ''pol'') (run_in policy_cluster) =
     (Inr [], run_in policy_cluster)"
  by (simp add: findActiveScaledDownWorkloads_def append_held_def run_prog Let_def isTargetKind_def DefaultTargets_def
      held_by_def cluster_client_def run_in_def policy_cluster_def web_cluster_def empty_cluster_def web_deployment_def meta0_def)

lemma quiet_report:
  "\<exists>t. run_state (report cluster_env active_policy loop_start [] 0) (run_in policy_cluster) = (Inr (60 * Second), t)"
  by (simp add: report_def run_prog loop_start_def updatePolicyStatusIfChanged_def cluster_retriers_def retry_times_numeral
      if_changed_attempt_def run_in_def cluster_client_def stored_active_policy evaluation_status_def time_now_def Let_def
      cluster_lib_def status0_def api_request_def err_of_def requeue_after_def time_IsZero_def)

lemma quiet_pass: "\<exists>t. run_state (Reconcile cluster_env (nsname [] ''pol'')) (run_in policy_cluster) = (Inr (60 * Second), t)"
proof -
  have g: "run_state (c_getPolicy cluster_client (nsname [] ''pol'')) policy_cluster = (Inr active_policy, policy_cluster)"
    by (simp add: cluster_client_def stored_active_policy)
  have l: "run_state (c_listPolicies cluster_client) policy_cluster = (Inr [active_policy], policy_cluster)"
    by (simp add: cluster_client_def policy_cluster_def)
  have p: "k_pods policy_cluster = []" by (simp add: policy_cluster_def web_cluster_def empty_cluster_def)
  have f: "run_state (finish cluster_env active_policy None loop_start) (run_in policy_cluster) =
      run_state (report cluster_env active_policy loop_start [] 0) (run_in policy_cluster)"
    by (simp add: finish_def none_held truncate_active_def)
  have n: "run_state (time_now cluster_env) (run_in policy_cluster) = (k_clock policy_cluster, run_in policy_cluster)"
    by (simp add: time_now_def run_api cluster_client_def run_in_def)
  have w: "world (run_in policy_cluster) = policy_cluster" "run_in policy_cluster\<lparr>world := policy_cluster\<rparr> = run_in policy_cluster"
    "run_in policy_cluster\<lparr>nsCache := Map.empty\<rparr> = run_in policy_cluster"
    by (simp_all add: run_in_def)
  have "run_state (Reconcile cluster_env (nsname [] ''pol'')) (run_in policy_cluster) =
      run_state (finish cluster_env active_policy None loop_start) (run_in policy_cluster)"
    using no_candidates [of "run_in policy_cluster"]
    by (simp add: Reconcile_def run_prog g l n w p set_pending_def status0_def evaluate_def newNamespaceResolver_def allowed_def)
  with f quiet_report show ?thesis by simp
qed

theorem requeue_bounded_witness:
  "\<exists>d t. run_state (Reconcile cluster_env (nsname [] ''pol'')) (run_in policy_cluster) = (Inr d, t) \<and> 0 < d"
proof -
  obtain t where t: "run_state (Reconcile cluster_env (nsname [] ''pol'')) (run_in policy_cluster) = (Inr (60 * Second), t)"
    using quiet_pass by blast
  have g: "fst (run_state (c_getPolicy (cl cluster_env) (nsname [] ''pol'')) (world (run_in policy_cluster))) = Inr active_policy"
    by (simp add: cluster_client_def run_in_def stored_active_policy)
  from requeue_bounded [OF t, unfolded g] t show ?thesis by auto
qed


section \<open>Threshold and dry-run witnesses\<close>

definition slow_pod :: pod where
  "slow_pod = pod0 ''slow'' [cs0 ''app'' (Some ''CrashLoopBackOff'') 3 None] [] [notReady Hour]"

lemma active_policy_thresholds [simp]:
  "effectiveRestartThreshold active_policy = 10" "effectiveDurationThreshold active_policy = 30 * Minute"
  "effectiveAllReplicasFailing active_policy" "\<not> effectiveDryRun active_policy"
  "ExcludeWorkloadSelector (Spec active_policy) = None" "effectiveFailureCorrelation active_policy = CorrelationPod"
  by (simp_all add: active_policy_def effective_defs policy_example_defs DefaultRestartThreshold_def sless_sint
      parseDuration_def ParseDuration_defaults DefaultDurationThresholdDuration_def CorrelationContainer_def)

lemma slow_pod_gate:
  "pod_gate now active_policy (Hour + 10 * Minute) slow_pod = SkipUntil (Hour + 30 * Minute)"
  by (simp add: pod_gate_def slow_pod_def example_defs podHasFailureReason_def DefaultWatchReasons_def
      podIsRestartLooping_def podExceedsRestartThreshold_def sle_sint durationThresholdRemaining_def podFailingSince_def
      notReady_def ContainersReady_def PodReady_def ConditionFalse_def time_Add_def time_Sub_def time_IsZero_def clamp64_def)


definition dry_policy :: CrashLoopPolicy where
  "dry_policy = policy0 ''dry'' (spec0\<lparr>DryRun := Some True\<rparr>)"

theorem dry_run_evaluation_touches_no_workload_witness:
  "emits (\<lambda>ef. \<not> workload_write ef) (evaluate cluster_env dry_policy)"
  by (rule dry_run_evaluation_touches_no_workload [OF cluster_retriers_ok])
    (simp add: dry_policy_def effectiveDryRun_def policy_example_defs)

section \<open>A pass that stops a workload\<close>

text \<open>A Deployment with three replicas whose two pods are both past the restart threshold.\<close>

definition crash_cluster :: cluster where
  "crash_cluster = policy_cluster\<lparr>k_replicasets := [web_replicaset], k_pods := [web_pod ''web-1-a'', web_pod ''web-1-b'']\<rparr>"

lemma web_pod_gate: "pod_gate now active_policy t (web_pod n) = Proceed ''CrashLoopBackOff''"
  by (simp add: pod_gate_def web_pod_def example_defs podHasFailureReason_def DefaultWatchReasons_def
      podIsRestartLooping_def podExceedsRestartThreshold_def sle_sint)

lemma web_pod_owner:
  "k_replicasets (world s) = [web_replicaset] \<Longrightarrow>
   run_state (resolveOwnerWorkload cluster_env (web_pod n)) s = (Inr (Some web_workload), s)"
  by (simp add: resolveOwnerWorkload_def web_defs cluster_lib_def cluster_client_def example_defs fetch_def
      meta_key_def nsname_def run_prog Let_def owner_if_kind_def)

text \<open>Policies that apply the default checks to every namespace but \<open>kube-system\<close>.\<close>

definition default_checks :: "CrashLoopPolicy \<Rightarrow> bool" where
  "default_checks p \<longleftrightarrow>
     effectiveWatchReasons p = DefaultWatchReasons \<and> effectiveTargets p = DefaultTargets \<and>
     effectiveRestartThreshold p = 10 \<and> effectiveAllReplicasFailing p \<and> ExcludeWorkloadSelector (Spec p) = None \<and>
     NamespaceSelector (Spec p) = None \<and> ExcludeNamespaces (Spec p) = [''kube-system''] \<and>
     effectiveFailureCorrelation p = CorrelationPod"

lemma active_policy_default [simp]: "default_checks active_policy"
  by (simp add: default_checks_def)

lemma web_all_failing:
  assumes "k_deployments (world s) = [web_deployment]" "k_pods (world s) = [web_pod ''web-1-a'', web_pod ''web-1-b'']"
    and "default_checks p"
  shows "run_state (allReplicasFailing cluster_env web_workload p) s = (Inr True, s)"
proof -
  have m: "podMatchesPolicy now p (web_pod n)" for now n
    using assms(3) by (simp add: podMatchesPolicy_def podHasFailureReason_def web_pod_def example_defs
        DefaultWatchReasons_def default_checks_def)
  have "replicasAllFailing now p [web_pod ''web-1-a'', web_pod ''web-1-b'']" for now
    using assms(3) by (simp add: replicasAllFailing_def m default_checks_def)
  then show ?thesis
    by (simp add: allReplicasFailing_def web_workload_def run_prog cluster_client_def fetch_def assms web_deployment_def
        meta_key_def nsname_def meta0_def selected_pods_failing_def desired_replicas_def cluster_lib_def in_ns_def
        web_pod_def example_defs label_match_def time_now_def)
qed

lemma web_would_act:
  assumes "k_deployments (world s) = [web_deployment]" "k_pods (world s) = [web_pod ''web-1-a'', web_pod ''web-1-b'']"
    and "default_checks p"
  shows "run_state (policyWouldAct cluster_env p (web_pod n) web_workload) s = (Inr True, s)"
proof -
  have r: "snd (podHasFailureReason (web_pod n) DefaultWatchReasons)" "podExceedsRestartThreshold (web_pod n) 10"
    "om_namespace (pod_meta (web_pod n)) = ''prod''"
    by (simp_all add: podHasFailureReason_def web_pod_def example_defs DefaultWatchReasons_def podExceedsRestartThreshold_def sle_sint)
  have "run_state (time_now cluster_env) s = (k_clock (world s), s)"
    by (simp add: time_now_def run_api cluster_client_def)
  then show ?thesis
    using web_all_failing [OF assms] r assms(3)
    by (simp add: policyWouldAct_def allowed_def run_bindE admits_def isExcludedNamespace_def isTargetKind_def
        DefaultTargets_def web_workload_def Let_def default_checks_def)
qed

lemma web_winner:
  assumes "k_deployments (world s) = [web_deployment]" "k_pods (world s) = [web_pod ''web-1-a'', web_pod ''web-1-b'']"
  shows "run_state (winningPolicy cluster_env [active_policy] (web_pod n) web_workload) s = (Inr (Some active_policy), s)"
  by (simp add: winningPolicy_def winner_loop_Cons run_bindE keep_better_def web_would_act [OF assms])

definition stopped_deployment :: "string \<Rightarrow> time \<Rightarrow> deployment" where
  "stopped_deployment reason t = web_deployment
     \<lparr>dep_meta := record_stop reason (format_rfc3339 t) ''pol'' 3 (dep_meta web_deployment), dep_replicas := Some 0\<rparr>"

lemma web_scale_down:
  assumes "k_deployments (world s) = [web_deployment]"
  shows "\<exists>us. run_state (scaleDownWorkload cluster_env web_workload reason ''pol'' False) s =
     (Inr True, s\<lparr>world := (world s)\<lparr>k_deployments := [stopped_deployment reason (k_clock (world s))]\<rparr>,
                  trace := trace s @ us\<rparr>)"
proof -
  let ?out = "run_state (scaleDownWorkload cluster_env web_workload reason ''pol'' False) s"
  have "fst ?out = Inr True \<and> nsCache (snd ?out) = nsCache s \<and>
      world (snd ?out) = (world s)\<lparr>k_deployments := [stopped_deployment reason (k_clock (world s))]\<rparr> \<and>
      (\<exists>us. trace (snd ?out) = trace s @ us)"
    using assms
    by (simp add: stop_defs web_workload_def web_deployment_def cluster_client_def stopped_deployment_def)
  then obtain us where "fst ?out = Inr True" "nsCache (snd ?out) = nsCache s"
    "world (snd ?out) = (world s)\<lparr>k_deployments := [stopped_deployment reason (k_clock (world s))]\<rparr>"
    "trace (snd ?out) = trace s @ us" by blast
  then show ?thesis by (intro exI [of _ us] prod_eqI ost.equality) simp_all
qed

definition web_reason :: string where
  "web_reason = scale_reason ''CrashLoopBackOff'' active_policy"

lemma web_step:
  assumes "k_deployments (world s) = [web_deployment]" "k_pods (world s) = [web_pod ''web-1-a'', web_pod ''web-1-b'']"
    and "k_replicasets (world s) = [web_replicaset]"
  shows "\<exists>us. run_state (pod_step cluster_env active_policy [active_policy] None rt' (web_pod n) loop_start) s =
     (loop_start\<lparr>processed := {workloadKey web_workload}, scaledDown := 1\<rparr>,
      s\<lparr>world := (world s)\<lparr>k_deployments := [stopped_deployment web_reason (k_clock (world s))]\<rparr>,
        trace := trace s @ us @ [action_metric active_policy web_workload ''CrashLoopBackOff'',
                                 action_event active_policy web_workload web_reason]\<rparr>)"
proof -
  obtain us where us: "run_state (scaleDownWorkload cluster_env web_workload web_reason ''pol'' False) s =
     (Inr True, s\<lparr>world := (world s)\<lparr>k_deployments := [stopped_deployment web_reason (k_clock (world s))]\<rparr>,
                  trace := trace s @ us\<rparr>)"
    using web_scale_down [OF assms(1)] by blast
  have n: "run_state (time_now cluster_env) s = (k_clock (world s), s)"
    by (simp add: time_now_def run_api cluster_client_def)
  have ns: "om_namespace (pod_meta (web_pod n)) = ''prod''" by (simp add: web_pod_def meta0_def)
  have "run_state (act_on cluster_env active_policy [active_policy] (web_pod n) web_workload ''CrashLoopBackOff'' st) s =
      (st\<lparr>scaledDown := scaledDown st + 1\<rparr>,
       s\<lparr>world := (world s)\<lparr>k_deployments := [stopped_deployment web_reason (k_clock (world s))]\<rparr>,
         trace := trace s @ us @ [action_metric active_policy web_workload ''CrashLoopBackOff'',
                                 action_event active_policy web_workload web_reason]\<rparr>)" for st
    using us by (simp add: act_on_def run_or_count web_all_failing [OF assms(1,2) active_policy_default] web_winner [OF assms(1,2)]
        stop_and_report_def web_reason_def)
  then show ?thesis
    using n by (intro exI [of _ us])
      (simp add: pod_step_def ns admits_def isExcludedNamespace_def web_pod_gate run_or_count web_pod_owner [OF assms(3)]
        isTargetKind_def DefaultTargets_def loop_start_def web_workload_def)
qed

lemma web_step_again:
  assumes "k_replicasets (world s) = [web_replicaset]" "workloadKey web_workload \<in> processed st"
  shows "run_state (pod_step cluster_env active_policy ps None rt' (web_pod n) st) s = (st, s)"
proof -
  have "run_state (time_now cluster_env) s = (k_clock (world s), s)"
    by (simp add: time_now_def run_api cluster_client_def)
  moreover have "om_namespace (pod_meta (web_pod n)) = ''prod''" by (simp add: web_pod_def meta0_def)
  ultimately show ?thesis using assms
    by (simp add: pod_step_def admits_def isExcludedNamespace_def web_pod_gate run_or_count web_pod_owner)
qed

lemma crash_candidates:
  "run_state (listCandidatePods cluster_env DefaultWatchReasons []) (run_in crash_cluster) =
     (Inr [web_pod ''web-1-a'', web_pod ''web-1-b''], run_in crash_cluster)"
proof -
  have "podWaitingReasons (PodObj (web_pod n)) = [''CrashLoopBackOff'']" "om_uid (pod_meta (web_pod n)) = n" for n
    by (simp_all add: podWaitingReasons_def web_pod_def example_defs)
  then show ?thesis
    by (simp add: listCandidatePods_def listPodsByIndex_def DefaultWatchReasons_def run_prog cluster_client_def
        cluster_by_field_def run_in_def crash_cluster_def)
qed

text \<open>The pod loop of the pass: the first pod stops the workload, the second finds it processed.\<close>

lemma crash_loop:
  "\<exists>us. run_state (pod_loop cluster_env active_policy [active_policy] None rt'
      [web_pod ''web-1-a'', web_pod ''web-1-b''] loop_start) (run_in crash_cluster) =
     (loop_start\<lparr>processed := {workloadKey web_workload}, scaledDown := 1\<rparr>,
      (run_in crash_cluster)\<lparr>world := crash_cluster\<lparr>k_deployments := [stopped_deployment web_reason (k_clock crash_cluster)]\<rparr>, trace := us\<rparr>)"
proof -
  have c: "k_deployments crash_cluster = [web_deployment]" "k_pods crash_cluster = [web_pod ''web-1-a'', web_pod ''web-1-b'']"
    "k_replicasets crash_cluster = [web_replicaset]"
    by (simp_all add: crash_cluster_def policy_cluster_def web_cluster_def empty_cluster_def)
  have w: "world (run_in crash_cluster) = crash_cluster" "trace (run_in crash_cluster) = []" by (simp_all add: run_in_def)
  obtain us where us: "run_state (pod_step cluster_env active_policy [active_policy] None rt' (web_pod ''web-1-a'') loop_start) (run_in crash_cluster) =
     (loop_start\<lparr>processed := {workloadKey web_workload}, scaledDown := 1\<rparr>,
      (run_in crash_cluster)\<lparr>world := crash_cluster\<lparr>k_deployments := [stopped_deployment web_reason (k_clock crash_cluster)]\<rparr>, trace := us\<rparr>)"
    using web_step [of "run_in crash_cluster" "rt'" "''web-1-a''"] c w by auto
  show ?thesis
    by (intro exI [of _ us]) (simp add: us web_step_again c)
qed


text \<open>
  The whole pass: the Deployment is at zero with its record, the policy's status names it and counts
  one action, and the next evaluation is due after the policy's interval.
\<close>

lemma crash_find:
  assumes "world s = crash_cluster\<lparr>k_deployments := [stopped_deployment reason t]\<rparr>" "reason \<noteq> []"
  shows "run_state (findActiveScaledDownWorkloads cluster_env None [''kube-system''] DefaultTargets ''pol'') s =
     (Inr [\<lparr>ref_kind = ''Deployment'', ref_namespace = ''prod'', ref_name = ''web''\<rparr>], s)"
proof -
  have "s\<lparr>world := crash_cluster\<lparr>k_deployments := [stopped_deployment reason t]\<rparr>\<rparr> = s"
    using assms(1) by (metis ost.surjective ost.update_convs(1))
  then show ?thesis using assms
    by (simp add: findActiveScaledDownWorkloads_def append_held_def run_prog Let_def isTargetKind_def DefaultTargets_def
      held_by_def cluster_client_def crash_cluster_def policy_cluster_def web_cluster_def empty_cluster_def
      stopped_deployment_def web_deployment_def meta0_def record_stop_def attribute_def isExcludedNamespace_def
      admits_def held_ref_def)
qed

lemma crash_report:
  assumes "k_policies (world s) = [active_policy]"
  shows "\<exists>t c1 c2. run_state (report cluster_env active_policy
       (loop_start\<lparr>processed := ks, scaledDown := 1\<rparr>) [\<lparr>ref_kind = ''Deployment'', ref_namespace = ''prod'', ref_name = ''web''\<rparr>] 0) s =
     (Inr (60 * Second), t) \<and> k_deployments (world t) = k_deployments (world s) \<and>
     map (ScaledDownWorkloads \<circ> Status) (k_policies (world t)) = [1] \<and>
     map (map ref_name \<circ> ActiveScaledDown \<circ> Status) (k_policies (world t)) = [[''web'']]"
proof -
  have f: "fetch pol_meta [active_policy] (nsname [] ''pol'') = Inr active_policy"
    "meta_key (pol_meta active_policy) = nsname [] ''pol''"
    by (simp_all add: fetch_def meta_key_def nsname_def active_policy_def policy_example_defs)
  show ?thesis
    using assms by (simp add: report_def run_prog loop_start_def updatePolicyStatusIfChanged_def cluster_retriers_def
      retry_times_numeral if_changed_attempt_def cluster_client_def f evaluation_status_def time_now_def Let_def
      cluster_lib_def status0_def api_request_def err_of_def requeue_after_def time_IsZero_def put_def)
qed

lemma crash_pass:
  "\<exists>t. run_state (Reconcile cluster_env (nsname [] ''pol'')) (run_in crash_cluster) = (Inr (60 * Second), t) \<and>
     k_deployments (world t) = [stopped_deployment web_reason (k_clock crash_cluster)] \<and>
     map (ScaledDownWorkloads \<circ> Status) (k_policies (world t)) = [1] \<and>
     map (map ref_name \<circ> ActiveScaledDown \<circ> Status) (k_policies (world t)) = [[''web'']]"
proof -
  let ?s = "run_in crash_cluster"
  have k: "k_policies crash_cluster = [active_policy]" "k_policies policy_cluster = [active_policy]"
    by (simp_all add: crash_cluster_def policy_cluster_def)
  have g: "run_state (c_getPolicy cluster_client (nsname [] ''pol'')) crash_cluster = (Inr active_policy, crash_cluster)"
    using stored_active_policy k by (simp add: cluster_client_def)
  have l: "run_state (c_listPolicies cluster_client) crash_cluster = (Inr [active_policy], crash_cluster)"
    using k by (simp add: cluster_client_def)
  have n: "run_state (time_now cluster_env) ?s = (k_clock crash_cluster, ?s)"
    by (simp add: time_now_def run_api cluster_client_def run_in_def)
  have w: "world ?s = crash_cluster" "?s\<lparr>world := crash_cluster\<rparr> = ?s" "?s\<lparr>nsCache := Map.empty\<rparr> = ?s"
    by (simp_all add: run_in_def)
  obtain us where us: "run_state (pod_loop cluster_env active_policy [active_policy] None (k_clock crash_cluster)
      [web_pod ''web-1-a'', web_pod ''web-1-b''] loop_start) ?s =
     (loop_start\<lparr>processed := {workloadKey web_workload}, scaledDown := 1\<rparr>,
      ?s\<lparr>world := crash_cluster\<lparr>k_deployments := [stopped_deployment web_reason (k_clock crash_cluster)]\<rparr>, trace := us\<rparr>)"
    using crash_loop by blast
  let ?s1 = "?s\<lparr>world := crash_cluster\<lparr>k_deployments := [stopped_deployment web_reason (k_clock crash_cluster)]\<rparr>, trace := us\<rparr>"
  have run: "run_state (Reconcile cluster_env (nsname [] ''pol'')) ?s =
      run_state (finish cluster_env active_policy None (loop_start\<lparr>processed := {workloadKey web_workload}, scaledDown := 1\<rparr>)) ?s1"
    by (simp add: Reconcile_def run_prog g l n w set_pending_def status0_def evaluate_def newNamespaceResolver_def
        allowed_def crash_candidates us del: pod_loop.simps)
  have "run_state (findActiveScaledDownWorkloads cluster_env None [''kube-system''] DefaultTargets ''pol'') ?s1 =
      (Inr [\<lparr>ref_kind = ''Deployment'', ref_namespace = ''prod'', ref_name = ''web''\<rparr>], ?s1)"
    by (rule crash_find [where reason = web_reason and t = "k_clock crash_cluster"])
      (simp, unfold web_reason_def scale_reason_def, blast)
  then have "run_state (finish cluster_env active_policy None (loop_start\<lparr>processed := {workloadKey web_workload}, scaledDown := 1\<rparr>)) ?s1 =
      run_state (report cluster_env active_policy (loop_start\<lparr>processed := {workloadKey web_workload}, scaledDown := 1\<rparr>)
        [\<lparr>ref_kind = ''Deployment'', ref_namespace = ''prod'', ref_name = ''web''\<rparr>] 0) ?s1"
    by (simp add: finish_def truncate_active_def MaxActiveScaledDown_def)
  with run crash_report [of ?s1 "{workloadKey web_workload}"] show ?thesis by (simp add: k) 
qed

end
