(* ===== verification/Progress.thy ===== *)
theory Progress
  imports Passes
begin

text \<open>
  Progress of the policies together: in a world in which nobody else acts, the policies agree on one
  of them, that one stops the workload in its own pass, and the others leave it alone. So overlapping
  policies neither act twice nor all wait for each other.
\<close>

section \<open>Programs that only read\<close>

named_theorems pure_intros \<open>which programs are functions of the world\<close>

definition still_read :: "('w, 'a) state \<Rightarrow> bool" where
  "still_read m \<longleftrightarrow> (\<forall>w. snd (run_state m w) = w)"

text \<open>Read requests do not change the world: nobody else acts while the operator looks.\<close>

definition still :: "'w env \<Rightarrow> bool" where
  "still E \<longleftrightarrow> still_read (c_now (cl E)) \<and> (\<forall>k. still_read (c_getPolicy (cl E) k)) \<and> still_read (c_listPolicies (cl E)) \<and>
     (\<forall>index v. still_read (c_listPodsByField (cl E) index v)) \<and>
     (\<forall>k. still_read (c_getDeployment (cl E) k) \<and> still_read (c_getStatefulSet (cl E) k) \<and>
        still_read (c_getCronJob (cl E) k) \<and> still_read (c_getReplicaSet (cl E) k) \<and> still_read (c_getJob (cl E) k)) \<and>
     (\<forall>ns sel. still_read (c_listPodsBySelector (cl E) ns sel)) \<and> (\<forall>ns. still_read (c_listPodsIn (cl E) ns)) \<and>
     (\<forall>ns. still_read (c_listJobsIn (cl E) ns)) \<and> (\<forall>sel. still_read (c_listNamespaces (cl E) sel))"

text \<open>A program that changes nothing and whose result is a function of the world.\<close>

definition pure_read :: "('w, 'a) prog \<Rightarrow> bool" where
  "pure_read m \<longleftrightarrow> (\<exists>f. \<forall>s. run_state m s = (f (world s), s))"

definition start_in :: "'w \<Rightarrow> 'w ost" where
  "start_in w = \<lparr>world = w, trace = [], nsCache = Map.empty\<rparr>"

definition answer :: "('w, 'a) prog \<Rightarrow> 'w \<Rightarrow> 'a" where
  "answer m w = fst (run_state m (start_in w))"

lemma start_in_simps [simp]: "world (start_in w) = w" "trace (start_in w) = []" "nsCache (start_in w) = Map.empty"
  by (simp_all add: start_in_def)

lemma pure_run: "pure_read m \<Longrightarrow> run_state m s = (answer m (world s), s)"
  unfolding pure_read_def answer_def by (metis fst_conv start_in_simps(1))

lemma pure_ret [pure_intros]: "pure_read (ret a)"
  by (auto simp: pure_read_def)

lemma pure_api [pure_intros]: "still_read m \<Longrightarrow> pure_read (api m)"
  unfolding pure_read_def still_read_def
  by (intro exI [of _ "\<lambda>w. fst (run_state m w)"]) (auto simp: run_api split: prod.split, metis ost.surjective snd_conv ost.update_convs(1))

lemma pure_bind [pure_intros]:
  assumes "pure_read m" "\<And>a. pure_read (f a)"
  shows "pure_read (State_Monad.bind m f)"
  unfolding pure_read_def
  by (intro exI [of _ "\<lambda>w. answer (f (answer m w)) w"])
    (simp add: pure_run [OF assms(1)] pure_run [OF assms(2)])

lemma pure_sum [pure_intros]:
  "(\<And>x. pure_read (f x)) \<Longrightarrow> (\<And>x. pure_read (g x)) \<Longrightarrow> pure_read (case r of Inl x \<Rightarrow> f x | Inr x \<Rightarrow> g x)"
  by (cases r) auto

lemma pure_option [pure_intros]:
  "pure_read m \<Longrightarrow> (\<And>x. pure_read (f x)) \<Longrightarrow> pure_read (case p of None \<Rightarrow> m | Some x \<Rightarrow> f x)"
  by (cases p) auto

lemma pure_bindE [pure_intros]: "pure_read m \<Longrightarrow> (\<And>a. pure_read (f a)) \<Longrightarrow> pure_read (bindE m f)"
  unfolding bindE_def by (intro pure_intros)

lemma pure_if [pure_intros]: "(b \<Longrightarrow> pure_read m) \<Longrightarrow> (\<not> b \<Longrightarrow> pure_read n) \<Longrightarrow> pure_read (if b then m else n)"
  by simp

lemma pure_let [pure_intros]: "pure_read (f a) \<Longrightarrow> pure_read (Let a f)"
  by simp

lemma still_reads:
  assumes "still E"
  shows "still_read (c_now (cl E))" "still_read (c_getDeployment (cl E) k)" "still_read (c_getStatefulSet (cl E) k)"
    "still_read (c_getCronJob (cl E) k)" "still_read (c_getReplicaSet (cl E) k)" "still_read (c_getJob (cl E) k)"
    "still_read (c_listPodsBySelector (cl E) ns sel)" "still_read (c_listPodsIn (cl E) ns)"
    "still_read (c_listJobsIn (cl E) ns)" "still_read (c_listNamespaces (cl E) sel)"
    "still_read (c_getPolicy (cl E) k)" "still_read (c_listPolicies (cl E))" "still_read (c_listPodsByField (cl E) index v)"
  using assms by (simp_all add: still_def)

lemma pure_time_now: "still E \<Longrightarrow> pure_read (time_now E)"
  unfolding time_now_def by (intro pure_intros still_reads)

lemma pure_resolveNamespaces: "still E \<Longrightarrow> pure_read (resolveNamespaces E sel)"
  unfolding resolveNamespaces_def by (intro pure_intros still_reads)

lemma pure_resolveOwnerWorkload: "still E \<Longrightarrow> pure_read (resolveOwnerWorkload E x)"
  unfolding resolveOwnerWorkload_def by (intro pure_intros still_reads)

lemma pure_allReplicasFailing: "still E \<Longrightarrow> pure_read (allReplicasFailing E w p)"
  unfolding allReplicasFailing_def selected_pods_failing_def by (intro pure_intros pure_time_now still_reads)

lemma pure_isWorkloadExcludedBySelector: "still E \<Longrightarrow> pure_read (isWorkloadExcludedBySelector E w sel)"
  unfolding isWorkloadExcludedBySelector_def labels_or_missing_def by (intro pure_intros still_reads)

lemmas pure_operations = pure_time_now pure_resolveNamespaces pure_resolveOwnerWorkload pure_allReplicasFailing
  pure_isWorkloadExcludedBySelector

section \<open>What the policies answer\<close>

definition namespaces_of :: "'w env \<Rightarrow> CrashLoopPolicy \<Rightarrow> 'w \<Rightarrow> api_error + string set option" where
  "namespaces_of E p = answer (resolveNamespaces E (NamespaceSelector (Spec p)))"

text \<open>The cache of a pass holds what the selectors of the policies resolve to.\<close>

definition coherent :: "'w env \<Rightarrow> CrashLoopPolicy set \<Rightarrow> 'w ost \<Rightarrow> bool" where
  "coherent E ps s \<longleftrightarrow> (\<forall>p \<in> ps. \<forall>v. nsCache s (pol_name p) = Some v \<longrightarrow> namespaces_of E p (world s) = Inr v)"

text \<open>States that differ from \<open>s\<close> in a coherent cache only.\<close>

definition recached :: "'w env \<Rightarrow> CrashLoopPolicy set \<Rightarrow> 'w ost \<Rightarrow> 'w ost \<Rightarrow> bool" where
  "recached E ps s t \<longleftrightarrow> world t = world s \<and> trace t = trace s \<and> coherent E ps t"

lemma recached_trans: "recached E ps s t \<Longrightarrow> recached E ps t u \<Longrightarrow> recached E ps s u"
  by (simp add: recached_def)

lemma coherent_start: "coherent E ps (start_in w)"
  by (simp add: coherent_def)

lemma recached_refl: "coherent E ps s \<Longrightarrow> recached E ps s s"
  by (simp add: recached_def)

lemma recached_coherent: "recached E ps s t \<Longrightarrow> coherent E ps t"
  by (simp add: recached_def)

text \<open>\<open>m\<close> answers as it does in a fresh pass and changes the cache only.\<close>

definition answers :: "'w env \<Rightarrow> CrashLoopPolicy set \<Rightarrow> ('w, 'a) prog \<Rightarrow> bool" where
  "answers E ps m \<longleftrightarrow>
     (\<forall>s. coherent E ps s \<longrightarrow> fst (run_state m s) = answer m (world s) \<and> recached E ps s (snd (run_state m s)))"

lemma answersD:
  "answers E ps m \<Longrightarrow> coherent E ps s \<Longrightarrow> \<exists>t. run_state m s = (answer m (world s), t) \<and> recached E ps s t"
  unfolding answers_def by (metis prod.collapse)

lemma answers_pure: "pure_read m \<Longrightarrow> answers E ps m"
  by (simp add: answers_def pure_run recached_refl)

lemma run_bindE_answers:
  assumes "answers E ps m" "\<And>a. answers E ps (f a)" "coherent E ps s"
  shows "\<exists>t. run_state (bindE m f) s =
    (case answer m (world s) of Inl e \<Rightarrow> Inl e | Inr a \<Rightarrow> answer (f a) (world s), t) \<and> recached E ps s t"
proof -
  obtain t where t: "run_state m s = (answer m (world s), t)" "recached E ps s t"
    using answersD [OF assms(1,3)] by blast
  then have w: "world t = world s" and c: "coherent E ps t" by (simp_all add: recached_def)
  show ?thesis
  proof (cases "answer m (world s)")
    case (Inl e)
    with t show ?thesis by (simp add: run_bindE)
  next
    case (Inr a)
    obtain u where "run_state (f a) t = (answer (f a) (world t), u)" "recached E ps t u"
      using answersD [OF assms(2) c] by blast
    with t Inr w show ?thesis by (auto simp: run_bindE intro: recached_trans)
  qed
qed

lemma answers_bindE:
  assumes "answers E ps m" "\<And>a. answers E ps (f a)"
  shows "answers E ps (bindE m f)"
proof -
  have step: "\<exists>t. run_state (bindE m f) s =
      (case answer m (world s) of Inl e \<Rightarrow> Inl e | Inr a \<Rightarrow> answer (f a) (world s), t) \<and> recached E ps s t"
    if "coherent E ps s" for s
    by (rule run_bindE_answers [OF assms(1) _ that]) (rule assms(2))
  have "answer (bindE m f) w = (case answer m w of Inl e \<Rightarrow> Inl e | Inr a \<Rightarrow> answer (f a) w)" for w
    using step [OF coherent_start, of w] unfolding answer_def [of "bindE m f"] start_in_simps by (elim exE conjE) simp
  then show ?thesis
    unfolding answers_def by (intro allI impI) (drule step, elim exE conjE, simp)
qed

lemma answers_allowed:
  assumes "still E" "p \<in> ps" "inj_on pol_name ps"
  shows "answers E ps (allowed E p)" "answer (allowed E p) w = namespaces_of E p w"
proof -
  note r = pure_run [OF pure_resolveNamespaces [OF assms(1)]]
  have step: "fst (run_state (allowed E p) s) = namespaces_of E p (world s) \<and> recached E ps s (snd (run_state (allowed E p) s))"
    if c: "coherent E ps s" for s
  proof (cases "NamespaceSelector (Spec p) = None")
    case True
    then have "namespaces_of E p (world s) = Inr None"
      by (simp add: namespaces_of_def answer_def resolveNamespaces_def)
    with True c show ?thesis by (simp add: allowed_def recached_refl)
  next
    case sel: False
    show ?thesis
    proof (cases "nsCache s (pol_name p)")
      case None
      have "coherent E ps (s\<lparr>nsCache := (nsCache s)(pol_name p \<mapsto> v)\<rparr>)" if "namespaces_of E p (world s) = Inr v" for v
        using c that assms(2,3) by (auto simp: coherent_def dest: inj_onD)
      with sel None c show ?thesis
        by (auto simp: allowed_def run_prog r namespaces_of_def [symmetric] recached_def split: sum.split)
    next
      case (Some v)
      with c assms(2) have "namespaces_of E p (world s) = Inr v" by (simp add: coherent_def)
      with sel Some c show ?thesis by (auto simp: allowed_def recached_refl)
    qed
  qed
  from step [OF coherent_start] have a: "answer (allowed E p) w = namespaces_of E p w" for w by (simp add: answer_def)
  from step a show "answers E ps (allowed E p)" by (simp add: answers_def)
  show "answer (allowed E p) w = namespaces_of E p w" by (rule a)
qed

lemma answers_policyWouldAct:
  assumes "still E" "p \<in> ps" "inj_on pol_name ps"
  shows "answers E ps (policyWouldAct E p x w)"
  unfolding policyWouldAct_def
  by (intro answers_bindE answers_allowed assms answers_pure pure_intros pure_operations)

lemma answers_winner_loop:
  assumes "still E" "inj_on pol_name ps"
  shows "set qs \<subseteq> ps \<Longrightarrow> answers E ps (winner_loop E x w winner qs)"
proof (induction qs arbitrary: winner)
  case Nil
  show ?case by (simp, intro answers_pure pure_ret)
next
  case (Cons c qs)
  have "answers E ps (if b then winner_loop E x w u qs else winner_loop E x w v qs)" for b u v
    using Cons by simp
  then show ?case unfolding winner_loop_Cons
    by (intro answers_bindE answers_policyWouldAct assms) (use Cons.prems in simp_all)
qed

lemma answers_winningPolicy:
  "still E \<Longrightarrow> inj_on pol_name (set qs) \<Longrightarrow> answers E (set qs) (winningPolicy E qs x w)"
  unfolding winningPolicy_def by (rule answers_winner_loop) simp_all

section \<open>The winner would act\<close>

lemma acting_answers:
  assumes "still E" "inj_on pol_name ps"
  shows "acting E x w qs s = Inr B \<Longrightarrow> q \<in> B \<Longrightarrow> set qs \<subseteq> ps \<Longrightarrow> coherent E ps s \<Longrightarrow>
    q \<in> set qs \<and> answer (policyWouldAct E q x w) (world s) = Inr True"
proof (induction qs arbitrary: s B)
  case (Cons c qs)
  from Cons.prems(3) have "c \<in> ps" by simp
  from answersD [OF answers_policyWouldAct [OF assms(1) this assms(2)] Cons.prems(4)] obtain t where
    t: "run_state (policyWouldAct E c x w) s = (answer (policyWouldAct E c x w) (world s), t)" "recached E ps s t" by blast
  from t Cons.prems(1) obtain acts B' where a: "answer (policyWouldAct E c x w) (world s) = Inr acts"
    "acting E x w qs t = Inr B'" "B = (if acts then insert c B' else B')"
    by (auto split: sum.splits)
  show ?case
  proof (cases "q \<in> B'")
    case True
    from Cons.IH [OF a(2) True] Cons.prems(3) t(2) show ?thesis by (simp add: recached_def)
  next
    case False
    with a Cons.prems(2) show ?thesis by (auto split: if_splits)
  qed
qed simp

lemma winner_would_act:
  assumes "still E" "inj_on pol_name (set qs)" "answer (winningPolicy E qs x w) W = Inr (Some q)"
  shows "q \<in> set qs \<and> answer (policyWouldAct E q x w) W = Inr True"
proof -
  have "best_option None {}" by (simp add: best_option_def)
  from winner_loop_best [OF this, of E x w qs "start_in W"] assms(3)
  obtain B where "acting E x w qs (start_in W) = Inr B" "q \<in> B"
    by (auto simp: answer_def winningPolicy_def best_option_def restrictive.least_of_def split: sum.splits)
  from acting_answers [OF assms(1,2) this] show ?thesis by (simp add: coherent_start)
qed

section \<open>The checks that passed\<close>

lemma gate_proceeds:
  "(\<exists>reason. pod_gate now p now x = Proceed reason) \<longleftrightarrow>
   (snd (podHasFailureReason x (effectiveWatchReasons p)) \<or>
    snd (podIsRestartLooping now x (effectiveTerminationReasons p) (effectiveRestartThreshold p) (effectiveRestartWindow p))) \<and>
   (snd (podIsRestartLooping now x (effectiveTerminationReasons p) (effectiveRestartThreshold p) (effectiveRestartWindow p)) \<or>
    podExceedsRestartThreshold x (effectiveRestartThreshold p) \<or>
    podExceedsDurationThreshold now x (effectiveDurationThreshold p))"
  by (auto simp: pod_gate_def Let_def podExceedsDurationThreshold_def split: prod.splits)

abbreviation selector_check :: "'w env \<Rightarrow> CrashLoopPolicy \<Rightarrow> ownerWorkload \<Rightarrow> ('w, api_error + bool) prog" where
  "selector_check E p w \<equiv>
     (if ExcludeWorkloadSelector (Spec p) \<noteq> None
      then isWorkloadExcludedBySelector E w (ExcludeWorkloadSelector (Spec p)) else ret (Inr False))"

abbreviation replicas_check :: "'w env \<Rightarrow> CrashLoopPolicy \<Rightarrow> ownerWorkload \<Rightarrow> ('w, api_error + bool) prog" where
  "replicas_check E p w \<equiv> (if effectiveAllReplicasFailing p then allReplicasFailing E w p else ret (Inr True))"

lemma pure_checks: "still E \<Longrightarrow> pure_read (selector_check E p w)" "still E \<Longrightarrow> pure_read (replicas_check E p w)"
  by (intro pure_intros pure_operations, assumption)+

text \<open>What \<open>policyWouldAct\<close> answers, as a function of the answers of the checks.\<close>

definition would_answer ::
  "CrashLoopPolicy \<Rightarrow> pod \<Rightarrow> ownerWorkload \<Rightarrow> api_error + string set option \<Rightarrow> time \<Rightarrow> api_error + bool \<Rightarrow> api_error + bool \<Rightarrow>
   api_error + bool" where
  "would_answer p x w ns now sel rep =
     (case ns of Inl e \<Rightarrow> Inl e | Inr a \<Rightarrow>
        if admits a (om_namespace (pod_meta x)) \<and>
           \<not> isExcludedNamespace (om_namespace (pod_meta x)) (ExcludeNamespaces (Spec p)) \<and>
           isTargetKind (ow_kind w) (effectiveTargets p) \<and> (\<exists>reason. pod_gate now p now x = Proceed reason)
        then case sel of Inl e \<Rightarrow> Inl e | Inr excluded \<Rightarrow> if excluded then Inr False else rep
        else Inr False)"

lemma answer_would_act:
  assumes st: "still E" and p: "p \<in> ps" "inj_on pol_name ps"
  shows "answer (policyWouldAct E p x w) W = would_answer p x w (namespaces_of E p W) (answer (time_now E) W)
     (answer (selector_check E p w) W) (answer (replicas_check E p w) W)"
proof -
  define now sel rep where d: "now = answer (time_now E) W" "sel = selector_check E p w" "rep = replicas_check E p w"
  have pure: "pure_read (time_now E)" "pure_read sel" "pure_read rep"
    unfolding d by (rule pure_time_now [OF st] pure_checks [OF st])+
  obtain t where t: "run_state (allowed E p) (start_in W) = (namespaces_of E p W, t)" "world t = W"
    using answersD [OF answers_allowed(1) [OF st p] coherent_start, of W] answers_allowed(2) [OF st p]
    by (auto simp: recached_def)
  have runs: "run_state (time_now E) t = (now, t)" "run_state sel t = (answer sel W, t)" "run_state rep t = (answer rep W, t)"
    using pure_run [OF pure(1)] pure_run [OF pure(2)] pure_run [OF pure(3)] t(2) by (simp_all add: d)
  have "answer (policyWouldAct E p x w) W = fst (run_state (policyWouldAct E p x w) (start_in W))"
    by (simp add: answer_def)
  then show ?thesis
    unfolding would_answer_def gate_proceeds d [symmetric] policyWouldAct_def
    by (auto simp: run_bindE Let_def t(1) runs split: sum.splits)
qed

lemma would_act_iff:
  assumes "still E" "p \<in> ps" "inj_on pol_name ps"
  shows "answer (policyWouldAct E p x w) W = Inr True \<longleftrightarrow>
     (\<exists>a. namespaces_of E p W = Inr a \<and> admits a (om_namespace (pod_meta x))) \<and>
     \<not> isExcludedNamespace (om_namespace (pod_meta x)) (ExcludeNamespaces (Spec p)) \<and>
     isTargetKind (ow_kind w) (effectiveTargets p) \<and>
     (\<exists>reason. pod_gate (answer (time_now E) W) p (answer (time_now E) W) x = Proceed reason) \<and>
     answer (selector_check E p w) W = Inr False \<and> answer (replicas_check E p w) W = Inr True"
  unfolding answer_would_act [OF assms] would_answer_def by (auto split: sum.splits)

section \<open>One policy acts\<close>

text \<open>In world \<open>W\<close> the program changes the cache only.\<close>

definition idle :: "'w env \<Rightarrow> CrashLoopPolicy set \<Rightarrow> 'w \<Rightarrow> ('w, 'a) prog \<Rightarrow> bool" where
  "idle E ps W m \<longleftrightarrow> (\<forall>s. coherent E ps s \<longrightarrow> world s = W \<longrightarrow> recached E ps s (snd (run_state m s)))"

lemma idle_ret: "idle E ps W (ret a)"
  by (simp add: idle_def recached_refl)

lemma idle_or_count:
  assumes "answers E ps m" "\<And>a. answer m W = Inr a \<Longrightarrow> idle E ps W (f a)"
  shows "idle E ps W (or_count st m f)"
  unfolding idle_def
proof (intro allI impI)
  fix s assume s: "coherent E ps s" "world s = W"
  obtain t where t: "run_state m s = (answer m W, t)" "recached E ps s t" using answersD [OF assms(1) s(1)] s(2) by blast
  then have "coherent E ps t" "world t = W" using s by (simp_all add: recached_def)
  with t assms(2) show "recached E ps s (snd (run_state (or_count st m f) s))"
    by (cases "answer m W") (auto simp: run_or_count idle_def intro: recached_trans)
qed

lemma idle_if: "(b \<Longrightarrow> idle E ps W m) \<Longrightarrow> (\<not> b \<Longrightarrow> idle E ps W n) \<Longrightarrow> idle E ps W (if b then m else n)"
  by simp

lemma idle_bind: "pure_read m \<Longrightarrow> (\<And>a. idle E ps W (f a)) \<Longrightarrow> idle E ps W (State_Monad.bind m f)"
  by (simp add: idle_def pure_run)

lemma outranked_policy_is_idle:
  assumes st: "still E" and inj: "inj_on pol_name (set policies)"
    and w: "answer (winningPolicy E policies x w) W = Inr (Some q)" "pol_name p \<noteq> pol_name q"
    and o: "answer (resolveOwnerWorkload E x) W = Inr (Some w)"
  shows "idle E (set policies) W (pod_step E p policies a now x ls)"
proof -
  have act: "idle E (set policies) W (act_on E p policies x w reason ls')" for reason ls'
    unfolding act_on_def
    by (intro idle_or_count answers_winningPolicy st inj answers_pure pure_checks idle_if idle_ret)
      (use w in auto)
  have gate: "idle E (set policies) W (case g of Skip \<Rightarrow> ret l1 | SkipUntil e \<Rightarrow> ret (l2 e) | Proceed reason \<Rightarrow> m reason)"
    if "\<And>reason. idle E (set policies) W (m reason)" for g l1 l2 m
    using that by (cases g) (auto simp: idle_ret)
  show ?thesis
    unfolding pod_step_def
    by (intro idle_if idle_ret idle_bind gate idle_or_count answers_pure pure_operations st)
      (auto simp: o idle_ret act)
qed

lemma winner_stops:
  assumes st: "still E" and inj: "inj_on pol_name (set policies)"
    and w: "answer (winningPolicy E policies x w) W = Inr (Some q)"
    and o: "answer (resolveOwnerWorkload E x) W = Inr (Some w)"
    and s: "coherent E (set policies) s" "world s = W" and k: "workloadKey w \<notin> processed ls"
    and a: "namespaces_of E q W = Inr a"
  shows "\<exists>u reason. recached E (set policies) s u \<and>
     run_state (pod_step E q policies a (answer (time_now E) W) x ls) s =
     run_state (stop_and_report E q w reason (ls\<lparr>processed := insert (workloadKey w) (processed ls)\<rparr>)) u"
proof -
  from winner_would_act [OF st inj w] have q: "q \<in> set policies" "answer (policyWouldAct E q x w) W = Inr True" by blast+
  from q(2) [unfolded would_act_iff [OF st q(1) inj]] a obtain reason where c:
    "admits a (om_namespace (pod_meta x))"
    "\<not> isExcludedNamespace (om_namespace (pod_meta x)) (ExcludeNamespaces (Spec q))"
    "isTargetKind (ow_kind w) (effectiveTargets q)"
    "pod_gate (answer (time_now E) W) q (answer (time_now E) W) x = Proceed reason"
    "answer (selector_check E q w) W = Inr False" "answer (replicas_check E q w) W = Inr True" by auto
  obtain u where u: "run_state (winningPolicy E policies x w) s = (Inr (Some q), u)" "recached E (set policies) s u"
    using answersD [OF answers_winningPolicy [OF st inj] s(1)] w s(2) by metis
  have runs: "run_state (time_now E) s = (answer (time_now E) W, s)"
    "run_state (resolveOwnerWorkload E x) s = (Inr (Some w), s)"
    "run_state (selector_check E q w) s = (Inr False, s)" "run_state (replicas_check E q w) s = (Inr True, s)"
    using pure_run [OF pure_time_now [OF st], of s] pure_run [OF pure_resolveOwnerWorkload [OF st], of x s]
      pure_run [OF pure_checks(1) [OF st], of q w s] pure_run [OF pure_checks(2) [OF st], of q w s] c(5,6) o s(2)
    by simp_all
  have "run_state (act_on E q policies x w reason ls') s = run_state (stop_and_report E q w reason ls') u" for ls'
    unfolding act_on_def run_or_count runs(3,4) using u(1) by (simp add: run_or_count runs(4))
  with runs c k u(2) show ?thesis
    by (intro exI [of _ u] exI [of _ reason]) (simp add: pod_step_def run_or_count)
qed

lemma store_dry_stop:
  assumes "replica_store E tmpl view" "still E" "template (ow_kind w) = Some tmpl"
    and "view (world s) (owner_key w) = Some obj" "0 <s fst (currentReplicas obj)"
  shows "run_state (scaleDownWorkload E w reason p True) s = (Inr True, s)"
proof -
  have g: "run_state (getObject E tmpl (owner_key w)) s = (Inr obj, s)"
    using assms(1,4) by (simp add: replica_store_def)
  have "snd (currentReplicas obj)"
    using assms(1,3,4) by (auto simp: replica_store_def like_def intro: template_supported)
  moreover have "fst (currentReplicas obj) \<noteq> 0" using assms(5) by auto
  ultimately obtain n where "currentReplicas obj = (n, True)" "n \<noteq> 0" by (cases "currentReplicas obj") simp
  then show ?thesis
    using g pure_run [OF pure_time_now [OF assms(2)], of s]
    by (simp add: scaleDownWorkload_template [OF assms(3)] scaleWorkloadToZero_def run_bindE)
qed

lemma stop_and_report_acted:
  assumes "run_state (scaleDownWorkload E w (scale_reason reason q) (pol_name q) (effectiveDryRun q)) u = (Inr True, v)"
  shows "\<exists>t. run_state (stop_and_report E q w reason st) u = (st\<lparr>scaledDown := scaledDown st + 1\<rparr>, t) \<and> world t = world v"
  using assms by (simp add: stop_and_report_def run_or_count)

text \<open>What the winner leaves behind: the workload at zero with its name on it, or nothing in a dry run.\<close>

definition stopped_by ::
  "('w \<Rightarrow> namespaced_name \<rightharpoonup> client_object) \<Rightarrow> CrashLoopPolicy \<Rightarrow> ownerWorkload \<Rightarrow> 'w \<Rightarrow> 'w \<Rightarrow> bool" where
  "stopped_by view q w W W' \<longleftrightarrow>
     (if effectiveDryRun q then W' = W
      else \<exists>obj. view W' = (view W)(owner_key w \<mapsto> obj) \<and> fst (currentReplicas obj) = 0 \<and>
             ann obj AnnotationScaledDownBy = Some (pol_name q))"

lemma winner_step:
  assumes st: "still E" "retriers_ok E" and store: "replica_store E tmpl view" "template (ow_kind w) = Some tmpl"
    and inj: "inj_on pol_name (set policies)"
    and w: "answer (winningPolicy E policies x w) W = Inr (Some q)" "answer (resolveOwnerWorkload E x) W = Inr (Some w)"
    and v: "view W (owner_key w) = Some obj" "0 <s fst (currentReplicas obj)"
    and s: "coherent E (set policies) s" "world s = W" and k: "workloadKey w \<notin> processed ls"
    and a: "namespaces_of E q W = Inr a"
    and r: "run_state (pod_step E q policies a (answer (time_now E) W) x ls) s = (ls', t)"
  shows "scaledDown ls' = scaledDown ls + 1 \<and> workloadKey w \<in> processed ls' \<and> stopped_by view q w W (world t)"
proof -
  let ?ls = "ls\<lparr>processed := insert (workloadKey w) (processed ls)\<rparr>"
  from winner_stops [OF st(1) inj w s k a] r obtain u reason where
    u: "recached E (set policies) s u" "run_state (stop_and_report E q w reason ?ls) u = (ls', t)" by metis
  then have wu: "world u = W" using s(2) by (simp add: recached_def)
  have view: "view (world u) (owner_key w) = Some obj" using wu v(1) by simp
  have "\<exists>y. run_state (scaleDownWorkload E w (scale_reason reason q) (pol_name q) (effectiveDryRun q)) u = (Inr True, y) \<and>
      stopped_by view q w W (world y)"
  proof (cases "effectiveDryRun q")
    case True
    with store_dry_stop [OF store(1) st(1) store(2) view v(2)] wu show ?thesis by (auto simp: stopped_by_def)
  next
    case False
    with store_stop_workload [OF store(1) st(2) store(2) view refl v(2), of "scale_reason reason q" "pol_name q"] wu
    show ?thesis by (auto simp: stopped_by_def)
  qed
  then obtain y where y: "run_state (scaleDownWorkload E w (scale_reason reason q) (pol_name q) (effectiveDryRun q)) u = (Inr True, y)"
    "stopped_by view q w W (world y)" by blast
  from stop_and_report_acted [OF y(1), of ?ls] y(2) u(2) show ?thesis by auto
qed


section \<open>Several pods of one workload\<close>

text \<open>
  The policies of a list that would act on the workload for some of its failing pods; a most
  restrictive one of them.
\<close>

definition acts_for :: "'w env \<Rightarrow> pod list \<Rightarrow> ownerWorkload \<Rightarrow> 'w \<Rightarrow> CrashLoopPolicy \<Rightarrow> bool" where
  "acts_for E xs w W p \<longleftrightarrow> (\<exists>x \<in> set xs. answer (policyWouldAct E p x w) W = Inr True)"

definition foremost :: "'w env \<Rightarrow> CrashLoopPolicy list \<Rightarrow> pod list \<Rightarrow> ownerWorkload \<Rightarrow> 'w \<Rightarrow> CrashLoopPolicy \<Rightarrow> bool" where
  "foremost E policies xs w W q \<longleftrightarrow>
     q \<in> set policies \<and> acts_for E xs w W q \<and>
     (\<forall>p \<in> set policies. acts_for E xs w W p \<longrightarrow> \<not> isMoreRestrictive p q)"

text \<open>Every policy can be checked for every pod.\<close>

definition all_checkable :: "'w env \<Rightarrow> CrashLoopPolicy list \<Rightarrow> pod list \<Rightarrow> ownerWorkload \<Rightarrow> 'w \<Rightarrow> bool" where
  "all_checkable E policies xs w W \<longleftrightarrow>
     (\<forall>p \<in> set policies. \<forall>x \<in> set xs. \<exists>b. answer (policyWouldAct E p x w) W = Inr b)"

lemma acting_all:
  assumes "still E" "inj_on pol_name ps"
  shows "set qs \<subseteq> ps \<Longrightarrow> coherent E ps s \<Longrightarrow> (\<forall>p \<in> set qs. \<exists>b. answer (policyWouldAct E p x w) (world s) = Inr b) \<Longrightarrow>
    acting E x w qs s = Inr {p \<in> set qs. answer (policyWouldAct E p x w) (world s) = Inr True}"
proof (induction qs arbitrary: s)
  case (Cons c qs)
  from Cons.prems(1) have "c \<in> ps" by simp
  from answersD [OF answers_policyWouldAct [OF assms(1) this assms(2)] Cons.prems(2)] obtain t where
    t: "run_state (policyWouldAct E c x w) s = (answer (policyWouldAct E c x w) (world s), t)" "recached E ps s t" by blast
  from Cons.prems(3) obtain b where "answer (policyWouldAct E c x w) (world s) = Inr b" by auto
  with t Cons.IH [of t] Cons.prems show ?case by (auto simp: recached_def)
qed simp

lemma foremost_wins:
  assumes "still E" "inj_on pol_name (set policies)" "all_checkable E policies xs w W" "foremost E policies xs w W q"
    and "x \<in> set xs" "answer (policyWouldAct E q x w) W = Inr True"
  shows "answer (winningPolicy E policies x w) W = Inr (Some q)"
proof -
  let ?A = "{p \<in> set policies. answer (policyWouldAct E p x w) W = Inr True}"
  have "\<forall>p \<in> set policies. \<exists>b. answer (policyWouldAct E p x w) (world (start_in W)) = Inr b"
    using assms(3,5) by (simp add: all_checkable_def)
  from acting_all [OF assms(1,2) subset_refl coherent_start this] have "acting E x w policies (start_in W) = Inr ?A" by simp
  moreover have "best_option None {}" by (simp add: best_option_def)
  note winner_loop_best [OF this, of E x w policies "start_in W"]
  ultimately obtain r where r: "answer (winningPolicy E policies x w) W = Inr r" "best_option r ?A"
    by (auto simp: answer_def winningPolicy_def)
  have q: "q \<in> ?A" using assms(4,6) by (simp add: foremost_def)
  then obtain p where p: "r = Some p" "restrictive.least_of p ?A"
    using r(2) by (auto simp: best_option_def split: option.splits)
  have "restrictive.least_of q ?A"
    using q assms(4,5) unfolding foremost_def acts_for_def restrictive.least_of_def by blast
  moreover have "inj_on restrictive_key ?A" using assms(2) by (auto simp: inj_on_def restrictive_key_def)
  ultimately have "p = q" using restrictive.least_of_unique p(2) by blast
  with r(1) p(1) show ?thesis by simp
qed

text \<open>A pod the policy would not act for leaves no trace in its pass.\<close>

lemma other_pod_passed_over:
  assumes st: "still E" and inj: "inj_on pol_name (set policies)" and q: "q \<in> set policies"
    and yes: "answer (policyWouldAct E q x0 w) W = Inr True" and no: "answer (policyWouldAct E q x w) W \<noteq> Inr True"
    and a: "namespaces_of E q W = Inr a" and s: "world s = W"
  shows "\<exists>e. run_state (pod_step E q policies a (answer (time_now E) W) x ls) s = (note_expiry e ls, s) \<or>
             run_state (pod_step E q policies a (answer (time_now E) W) x ls) s = (ls, s)"
proof -
  have now: "run_state (time_now E) s = (answer (time_now E) W, s)" using pure_run [OF pure_time_now [OF st], of s] s by simp
  have "\<not> (admits a (om_namespace (pod_meta x)) \<and>
      \<not> isExcludedNamespace (om_namespace (pod_meta x)) (ExcludeNamespaces (Spec q)) \<and>
      (\<exists>reason. pod_gate (answer (time_now E) W) q (answer (time_now E) W) x = Proceed reason))"
    using yes no a unfolding would_act_iff [OF st q inj] by blast
  then show ?thesis
    using now by (cases "pod_gate (answer (time_now E) W) q (answer (time_now E) W) x") (auto simp: pod_step_def)
qed

lemma pod_loop_append:
  "run_state (pod_loop E p ps a now (xs @ ys) ls) s =
     (case run_state (pod_loop E p ps a now xs ls) s of (ls', t) \<Rightarrow> run_state (pod_loop E p ps a now ys ls') t)"
  by (induction xs arbitrary: ls s) (simp_all split: prod.split)

section \<open>Two policies in the in-memory cluster\<close>

lemma cluster_still: "still cluster_env"
  by (simp add: still_def still_read_def cluster_client_def)

text \<open>A live policy and a dry run with the same thresholds: the live one wins.\<close>

definition shadow_policy :: CrashLoopPolicy where
  "shadow_policy = active_policy\<lparr>Spec := (Spec active_policy)\<lparr>DryRun := Some True\<rparr>,
     pol_meta := (pol_meta active_policy)\<lparr>om_name := ''a-shadow''\<rparr>\<rparr>"

lemma shadow_policy_simps [simp]:
  "pol_name shadow_policy = ''a-shadow''" "effectiveDryRun shadow_policy"
  "effectiveRestartThreshold shadow_policy = effectiveRestartThreshold active_policy"
  "effectiveDurationThreshold shadow_policy = effectiveDurationThreshold active_policy"
  "effectiveAllReplicasFailing shadow_policy = effectiveAllReplicasFailing active_policy"
  "effectiveFailureCorrelation shadow_policy = effectiveFailureCorrelation active_policy"
  "effectiveWatchReasons shadow_policy = effectiveWatchReasons active_policy"
  "effectiveTerminationReasons shadow_policy = effectiveTerminationReasons active_policy"
  "effectiveRestartWindow shadow_policy = effectiveRestartWindow active_policy"
  "effectiveTargets shadow_policy = effectiveTargets active_policy"
  by (simp_all add: shadow_policy_def effective_defs)

lemma shadow_policy_default [simp]: "default_checks shadow_policy"
  by (simp add: default_checks_def) (simp add: shadow_policy_def)

lemma crash_objects:
  "k_deployments crash_cluster = [web_deployment]" "k_pods crash_cluster = [web_pod ''web-1-a'', web_pod ''web-1-b'']"
  "k_replicasets crash_cluster = [web_replicaset]"
  by (simp_all add: crash_cluster_def policy_cluster_def web_cluster_def)

lemma crash_would_act:
  "p \<in> {shadow_policy, active_policy} \<Longrightarrow> answer (policyWouldAct cluster_env p (web_pod n) web_workload) crash_cluster = Inr True"
  using web_would_act [of "start_in crash_cluster" p n] by (auto simp: answer_def crash_objects)

lemma crash_owner: "answer (resolveOwnerWorkload cluster_env (web_pod n)) crash_cluster = Inr (Some web_workload)"
  using web_pod_owner [of "start_in crash_cluster"] by (simp add: answer_def crash_objects)

lemma crash_view: "deployment_view crash_cluster (owner_key web_workload) = Some (DeploymentObj web_deployment)"
  using web_view by (simp add: deployment_view_def crash_objects web_cluster_def)

lemma web_runs: "0 <s fst (currentReplicas (DeploymentObj web_deployment))"
  by (simp add: web_replicas sless_sint)

lemma crash_namespaces: "namespaces_of cluster_env active_policy crash_cluster = Inr None"
  by (simp add: namespaces_of_def answer_def resolveNamespaces_def)

lemma live_before_shadow: "isMoreRestrictive active_policy shadow_policy"
  by (simp add: isMoreRestrictive_def)

lemma two_policies_inj: "inj_on pol_name (set [shadow_policy, active_policy])"
  by (auto simp: inj_on_def)

lemma crash_clock: "answer (time_now cluster_env) crash_cluster = k_clock crash_cluster"
  by (simp add: answer_def time_now_def run_api cluster_client_def)


end
