(* ===== verification/Telemetry.thy ===== *)
theory Telemetry
  imports Progress
begin

text \<open>
  The metrics of a reconcile: every call on a vector is one the client library accepts, and after an
  evaluation the series of a policy show what the evaluation found.
\<close>

section \<open>Calls on the vectors\<close>

definition metric_ok :: "effect \<Rightarrow> bool" where
  "metric_ok ef = (case ef of Metric v labels a \<Rightarrow> metric_call_ok v labels a | _ \<Rightarrow> True)"

lemma metric_ok_simps [simp]:
  "metric_ok (ApiWrite a e)" "metric_ok (Event i j k)" "metric_ok (Metric v ls m) = metric_call_ok v ls m"
  by (simp_all add: metric_ok_def)

lemma retriers: "retriers_ok E \<Longrightarrow> retry_contract (retryObject (rt E)) \<and> retry_contract (retryScale (rt E)) \<and>
    retry_contract (retryCronJob (rt E))"
  by (simp add: retriers_ok_def)

lemma scaleDownWorkload_emits:
  assumes ok: "retriers_ok E"
    and w: "\<And>ob e. P (ApiWrite (UpdateObject ob) e)" "\<And>ob sc e. P (ApiWrite (UpdateScale ob sc) e)"
  shows "emits P (scaleDownWorkload E ow reason p dry)"
proof -
  have obj: "emits P (annotate_attempt E key reason p now l)" for key now l
    unfolding annotate_attempt_def Let_def by (intro emits_intros w)
  have sc: "emits P (scale_attempt E ob l)" for ob l
    unfolding scale_attempt_def Let_def by (intro emits_intros w)
  have cj: "emits P (suspend_attempt E key reason p now l)" for key now l
    unfolding suspend_attempt_def Let_def by (intro emits_intros w)
  have zero: "emits P (scaleWorkloadToZero E ob key reason p now dry)" for ob key now
    unfolding scaleWorkloadToZero_def
    by (intro emits_intros emits_retry [OF _ obj] emits_retry [OF _ sc]) (use retriers [OF ok] in simp_all)
  show ?thesis
    unfolding scaleDownWorkload_def Let_def
    by (intro emits_intros zero emits_retry [OF _ cj]) (use retriers [OF ok] in simp)
qed

lemma pod_step_emits:
  assumes "retriers_ok E" "\<And>ob e. P (ApiWrite (UpdateObject ob) e)" "\<And>ob sc e. P (ApiWrite (UpdateScale ob sc) e)"
    and "\<And>owner reason. P (action_metric policy owner reason)" "\<And>owner reason. P (action_event policy owner reason)"
  shows "emits P (pod_step E policy policies a rt' x st)"
proof -
  have act: "emits P (act_on E policy policies x owner reason ls)" for owner reason ls
    unfolding act_on_def stop_and_report_def
    by (intro emits_intros scaleDownWorkload_emits assms)
  have gate: "emits P (case g of Skip \<Rightarrow> m | SkipUntil e \<Rightarrow> f e | Proceed reason \<Rightarrow> h reason)"
    if "emits P m" "\<And>e. emits P (f e)" "\<And>reason. emits P (h reason)" for g m f h
    using that by (cases g) auto
  show ?thesis unfolding pod_step_def by (intro emits_intros gate act)
qed

lemma pod_loop_emits:
  assumes "retriers_ok E" "\<And>ob e. P (ApiWrite (UpdateObject ob) e)" "\<And>ob sc e. P (ApiWrite (UpdateScale ob sc) e)"
    and "\<And>owner reason. P (action_metric policy owner reason)" "\<And>owner reason. P (action_event policy owner reason)"
  shows "emits P (pod_loop E policy policies a rt' xs st)"
  by (induction xs arbitrary: st) (auto intro!: emits_ret emits_bind pod_step_emits assms)

lemma action_effects_ok [simp]: "metric_ok (action_metric policy owner reason)" "metric_ok (action_event policy owner reason)"
  by (auto simp: action_metric_def action_event_def metric_call_ok_def Let_def split: prod.split)

lemma set_pending_emits:
  "retriers_ok E \<Longrightarrow> (\<And>p e. P (ApiWrite (UpdatePolicyStatus p) e)) \<Longrightarrow> emits P (set_pending E policy)"
  unfolding set_pending_def by (intro emits_intros)

text \<open>
  C38: no call of a reconcile on a metric vector panics or is lost, whatever the API server answers:
  the vector is registered, it is given exactly one value per label it declares, no counter is
  decreased and only gauges are set.
\<close>

theorem metrics_well_formed:
  assumes "retriers_ok E"
  shows "emits metric_ok (Reconcile E req)"
proof -
  have fin: "emits metric_ok (finish E policy a st)" for policy a st
    unfolding finish_def report_def Let_def
    by (intro emits_intros assms) (auto simp: metric_call_ok_def)
  have ev: "emits metric_ok (evaluate E policy)" for policy
    unfolding evaluate_def by (intro emits_intros pod_loop_emits fin assms) simp_all
  have "emits metric_ok (forgetPolicyMetrics n)" for n
    unfolding forgetPolicyMetrics_def by (intro emits_intros) (simp_all add: metric_call_ok_def)
  then show ?thesis
    unfolding Reconcile_def by (intro emits_intros ev set_pending_emits assms) simp_all
qed

theorem metrics_well_formed_witness: "emits metric_ok (Reconcile cluster_env (nsname [] ''pol''))"
  by (rule metrics_well_formed [OF cluster_retriers_ok])

section \<open>The series after an evaluation\<close>

lemma observe_writes: "list_all status_write es \<Longrightarrow> fold (observe v labels) es x = x"
  by (induction es) (auto simp: status_write_def split: effect.splits api_write.splits)

lemma report_trace:
  assumes "retriers_ok E"
  shows "\<exists>es. list_all status_write es \<and>
     trace (snd (run_state (report E policy st active n) s)) = trace s @
       [Metric workloadsScaledDown [pol_name policy] (SetTo (int (length active) + sint n)),
        Metric policyReady [pol_name policy] (SetTo (boolToFloat (loopErrors st = 0)))] @
       (if loopErrors st > 0 then [Metric policyEvaluationErrors [pol_name policy] (Add (loopErrors st))] else []) @ es"
proof -
  define rest where "rest = (do {
     (err, _) \<leftarrow> updatePolicyStatusIfChanged E policy
        (evaluation_status E (om_generation (pol_meta policy)) st active n);
     (case err of
        Some e \<Rightarrow> ret (Inl e)
      | None \<Rightarrow> do {
          d \<leftarrow> requeue_after E (fst (effectiveReconcileInterval policy)) (earliestThresholdExpiry st);
          ret (Inr d) }) } :: ('a, api_error + duration) prog)"
  have "emits status_write rest" unfolding rest_def by (intro emits_intros assms) simp
  then have "\<exists>es. trace (snd (run_state rest u)) = trace u @ es \<and> list_all status_write es" for u
    by (simp add: emits_def)
  note r = this
  show ?thesis
    unfolding report_def rest_def [symmetric]
    using r [of "s\<lparr>trace := trace s @
       [Metric workloadsScaledDown [pol_name policy] (SetTo (int (length active) + sint n)),
        Metric policyReady [pol_name policy] (SetTo (boolToFloat (loopErrors st = 0)))] @
       (if loopErrors st > 0 then [Metric policyEvaluationErrors [pol_name policy] (Add (loopErrors st))] else [])\<rparr>"]
    by (auto split: if_splits)
qed

text \<open>
  C37: after an evaluation of a policy its gauges show this evaluation: \<open>crashloop_policy_ready\<close> is 1
  exactly when no error was counted, \<open>crashloop_workloads_scaled_down\<close> is the number of workloads
  found held (also beyond the length of the status list), and the error counter has grown by the
  number of errors.
\<close>

theorem gauges_after_evaluation:
  assumes "retriers_ok E"
    and "run_state (findActiveScaledDownWorkloads E a (ExcludeNamespaces (Spec policy))
      (effectiveTargets policy) (pol_name policy)) s = (r, u)"
    and "length (found_held r) \<le> 2 ^ 31" "errors = loopErrors st + list_errors r" "0 \<le> loopErrors st"
    and "run_state (finish E policy a st) s = (out, t)"
  shows "series (trace t) policyReady [pol_name policy] = Some (if errors = 0 then 1 else 0) \<and>
     series (trace t) workloadsScaledDown [pol_name policy] = Some (int (length (found_held r))) \<and>
     (errors \<noteq> 0 \<longrightarrow> series (trace t) policyEvaluationErrors [pol_name policy] =
        Some ((case series (trace s) policyEvaluationErrors [pol_name policy] of None \<Rightarrow> 0 | Some n \<Rightarrow> n) + errors))"
proof -
  have tr: "trace u = trace s" by (rule no_effects [OF _ assms(2)]) (intro emits_intros)
  define st' where "st' = (case r of Inl e \<Rightarrow> with_error st | Inr _ \<Rightarrow> st)"
  have errs: "loopErrors st' = errors" by (simp add: st'_def assms(4) list_errors_def split: sum.split)
  have pos: "0 \<le> errors" using assms(4,5) by (simp add: list_errors_def split: sum.splits)
  obtain n active where na: "truncate_active (found_held r) = (n, active)" by force
  have "run_state (finish E policy a st) s = run_state (report E policy st' active n) u"
    using assms(2) na by (cases r) (simp_all add: finish_def st'_def found_held_def)
  with assms(6) have t: "trace t = trace (snd (run_state (report E policy st' active n) u))" by simp
  obtain es where "list_all status_write es" "trace t = trace s @
       [Metric workloadsScaledDown [pol_name policy] (SetTo (int (length active) + sint n)),
        Metric policyReady [pol_name policy] (SetTo (boolToFloat (errors = 0)))] @
       (if errors > 0 then [Metric policyEvaluationErrors [pol_name policy] (Add errors)] else []) @ es"
    using report_trace [OF assms(1), of policy st' active n u] unfolding t tr errs by blast
  with pos gauge_value [OF na assms(3)] show ?thesis
    by (auto simp: series_append observe_writes boolToFloat_def)
qed

theorem gauges_after_evaluation_witness:
  "series (trace (snd (run_state (finish failing_lists active_policy None loop_start) (run_in policy_cluster))))
     policyReady [''pol''] = Some 0"
proof -
  let ?s = "run_in policy_cluster"
  obtain out t where t: "run_state (finish failing_lists active_policy None loop_start) ?s = (out, t)" by force
  have f: "run_state (findActiveScaledDownWorkloads failing_lists None (ExcludeNamespaces (Spec active_policy))
      (effectiveTargets active_policy) (pol_name active_policy)) ?s = (Inl (Failed ''down''), ?s)"
    by (simp add: failing_find)
  have h: "length (found_held (Inl (Failed ''down''))) \<le> 2 ^ 31" "0 \<le> loopErrors loop_start"
    by (simp_all add: found_held_def loop_start_def)
  have e: "1 = loopErrors loop_start + list_errors (Inl (Failed ''down''))" by (simp add: loop_start_def list_errors_def)
  from gauges_after_evaluation [OF listing_env_contracts(1) f h(1) e h(2) t] t show ?thesis by simp
qed

end
