(* ===== verification/Lifecycle.thy ===== *)
theory Lifecycle
  imports Telemetry
begin

text \<open>
  The phase of a policy as a state machine: a new policy has none, becomes Pending before its first
  evaluation and Active with the first one that reports, and never goes back. The steps are the
  status writes of a reconcile, failed and repeated ones included.
\<close>

inductive phase_step :: "CrashLoopPolicyPhase \<Rightarrow> CrashLoopPolicyPhase \<Rightarrow> bool" where
  accept: "phase_step PhaseUnset CrashLoopPolicyPhasePending"
| report_first: "phase_step CrashLoopPolicyPhasePending CrashLoopPolicyPhaseActive"
| repeat: "p \<noteq> PhaseUnset \<Longrightarrow> phase_step p p"

inductive_simps phase_step_from_unset [simp]: "phase_step PhaseUnset q"
inductive_simps phase_step_to_active [simp]: "phase_step p CrashLoopPolicyPhaseActive"

text \<open>\<open>phase_path p qs q\<close>: the writes \<open>qs\<close> lead from phase \<open>p\<close> to \<open>q\<close>.\<close>

inductive phase_path :: "CrashLoopPolicyPhase \<Rightarrow> CrashLoopPolicyPhase list \<Rightarrow> CrashLoopPolicyPhase \<Rightarrow> bool" where
  path_Nil: "phase_path p [] p"
| path_Cons: "phase_step p q \<Longrightarrow> phase_path q qs r \<Longrightarrow> phase_path p (q # qs) r"

inductive_cases phase_path_ConsE: "phase_path p (q # qs) r"

lemma path_append: "phase_path p ps q \<Longrightarrow> phase_path q qs r \<Longrightarrow> phase_path p (ps @ qs) r"
  by (induction rule: phase_path.induct) (auto intro: phase_path.intros)

lemma path_repeat: "p \<noteq> PhaseUnset \<Longrightarrow> list_all (\<lambda>q. q = p) qs \<Longrightarrow> phase_path p qs p"
  by (induction qs) (auto intro: phase_path.intros phase_step.intros)

text \<open>Once Active a policy stays Active: the machine has no way back.\<close>

lemma path_from_active: "phase_path p qs r \<Longrightarrow> p = CrashLoopPolicyPhaseActive \<Longrightarrow> r = CrashLoopPolicyPhaseActive"
  by (induction rule: phase_path.induct) (auto elim: phase_step.cases)

lemma path_to_active:
  "p \<noteq> PhaseUnset \<Longrightarrow> list_all (\<lambda>q. q = CrashLoopPolicyPhaseActive) qs \<Longrightarrow> \<exists>r. phase_path p qs r"
proof (induction qs)
  case Nil
  show ?case by (rule exI, rule path_Nil)
next
  case (Cons q qs)
  then have q: "q = CrashLoopPolicyPhaseActive" "phase_path CrashLoopPolicyPhaseActive qs CrashLoopPolicyPhaseActive"
    using path_repeat [of CrashLoopPolicyPhaseActive qs] by simp_all
  have "phase_step p CrashLoopPolicyPhaseActive" using Cons.prems(1) by (cases p) simp_all
  from path_Cons [OF this q(2)] q(1) show ?case by blast
qed

section \<open>The phases a reconcile writes\<close>

definition written_phase :: "effect \<Rightarrow> CrashLoopPolicyPhase list" where
  "written_phase ef = (case ef of ApiWrite (UpdatePolicyStatus p) _ \<Rightarrow> [Phase (Status p)] | _ \<Rightarrow> [])"

definition phases_written :: "effect list \<Rightarrow> CrashLoopPolicyPhase list" where
  "phases_written es = concat (map written_phase es)"

definition writes_phase :: "CrashLoopPolicyPhase \<Rightarrow> effect \<Rightarrow> bool" where
  "writes_phase q ef \<longleftrightarrow> list_all (\<lambda>p. p = q) (written_phase ef)"

lemma written_phase_simps [simp]:
  "written_phase (ApiWrite (UpdatePolicyStatus p) e) = [Phase (Status p)]" "written_phase (ApiWrite (UpdateObject ob) e) = []"
  "written_phase (ApiWrite (UpdateScale ob sc) e) = []" "written_phase (Metric v ls a) = []" "written_phase (Event i j k) = []"
  by (simp_all add: written_phase_def)

lemma phases_written_append [simp]: "phases_written (es @ fs) = phases_written es @ phases_written fs"
  by (simp add: phases_written_def)

lemma phases_written_all: "list_all (writes_phase q) es \<Longrightarrow> list_all (\<lambda>p. p = q) (phases_written es)"
  by (induction es) (auto simp: phases_written_def writes_phase_def)

lemma evaluate_writes_active:
  assumes "retriers_ok E"
  shows "emits (writes_phase CrashLoopPolicyPhaseActive) (evaluate E policy)"
proof -
  have upd: "emits (writes_phase CrashLoopPolicyPhaseActive)
      (updatePolicyStatusIfChanged E policy (evaluation_status E g st active n))" for g st active n
  proof (rule updatePolicyStatusIfChanged_writes [OF assms])
    show "yields (\<lambda>status. Phase status = CrashLoopPolicyPhaseActive) (evaluation_status E g st active n old)" for old
      unfolding evaluation_status_def Let_def by (intro yields_bind yields_ret) simp
  qed (simp_all add: evaluation_status_emits writes_phase_def)
  have fin: "emits (writes_phase CrashLoopPolicyPhaseActive) (finish E policy a st)" for a st
    unfolding finish_def report_def Let_def
    by (intro emits_intros upd) (simp_all add: writes_phase_def)
  show ?thesis
    unfolding evaluate_def
    by (intro emits_intros pod_loop_emits fin assms)
      (simp_all add: writes_phase_def action_metric_def action_event_def Let_def split: prod.split)
qed

lemma pending_writes:
  assumes ok: "retriers_ok E"
    and r: "run_state (updateStatusWithRetry E policy (\<lambda>st. st\<lparr>Phase := CrashLoopPolicyPhasePending\<rparr>)) s = ((err, p'), t)"
  shows "\<exists>es. trace t = trace s @ es \<and> list_all (writes_phase CrashLoopPolicyPhasePending) es \<and>
     (err = None \<longrightarrow> phases_written es \<noteq> [])"
proof -
  let ?f = "status_attempt E (\<lambda>st. st\<lparr>Phase := CrashLoopPolicyPhasePending\<rparr>)"
  let ?I = "\<lambda>(l :: CrashLoopPolicy) tr. \<exists>es. tr = trace s @ es \<and> list_all (writes_phase CrashLoopPolicyPhasePending) es"
  have at: "emits (writes_phase CrashLoopPolicyPhasePending) (?f l)" for l
    unfolding status_attempt_def Let_def by (intro emits_intros) (simp add: writes_phase_def)
  have "retry_run ?f policy s ((err, p'), t)"
    using r ok unfolding updateStatusWithRetry_def retriers_ok_def retry_contract_def by metis
  then have "\<exists>l0 s0. ?I l0 (trace s0) \<and> run_state (?f l0) s0 = ((err, p'), t)"
  proof (rule retry_run_last)
    show "?I policy (trace s)" by (intro exI [of _ "[]"]) simp
    show "?I l' (trace v)" if "?I l (trace u)" "run_state (?f l) u = ((Some e, l'), v)" for l u e l' v
      using that(1) emitsD [OF at that(2)] by (metis append_assoc list_all_append)
  qed
  then obtain l0 s0 es where l: "trace s0 = trace s @ es" "list_all (writes_phase CrashLoopPolicyPhasePending) es"
    "run_state (?f l0) s0 = ((err, p'), t)" by blast
  from emitsD [OF at l(3)] obtain ds where ds: "trace t = trace s0 @ ds" "list_all (writes_phase CrashLoopPolicyPhasePending) ds" by blast
  have "phases_written ds \<noteq> []" if "err = None"
    using l(3) ds(1) that
    by (auto simp: status_attempt_def run_prog api_request_def Let_def phases_written_def split: prod.splits sum.splits)
  with l ds show ?thesis by (intro exI [of _ "es @ ds"]) auto
qed

lemma set_pending_path:
  assumes "retriers_ok E" "run_state (set_pending E policy) s = (r, t)"
  shows "\<exists>es q. trace t = trace s @ es \<and> phase_path (Phase (Status policy)) (phases_written es) q \<and>
     (\<forall>p. r = Inr p \<longrightarrow> q \<noteq> PhaseUnset)"
proof (cases "Phase (Status policy) = PhaseUnset")
  case False
  with assms(2) show ?thesis
    by (intro exI [of _ "[]"] exI [of _ "Phase (Status policy)"]) (simp add: set_pending_def phases_written_def path_Nil)
next
  case True
  obtain err p' u where u: "run_state (updateStatusWithRetry E policy (\<lambda>st. st\<lparr>Phase := CrashLoopPolicyPhasePending\<rparr>)) s = ((err, p'), u)"
    by (metis surj_pair)
  from pending_writes [OF assms(1) u] obtain es where es: "trace u = trace s @ es"
    "list_all (writes_phase CrashLoopPolicyPhasePending) es" "err = None \<longrightarrow> phases_written es \<noteq> []" by blast
  have t: "trace t = trace u" "r = Inr p \<longrightarrow> err = None" for p
    using assms(2) True u by (auto simp: set_pending_def split: option.splits)
  from phases_written_all [OF es(2)] have all: "list_all (\<lambda>q. q = CrashLoopPolicyPhasePending) (phases_written es)" .
  show ?thesis
  proof (cases "phases_written es")
    case Nil
    with es t True show ?thesis by (intro exI [of _ es] exI [of _ PhaseUnset]) (auto intro: path_Nil)
  next
    case (Cons q qs)
    with all have "phase_path PhaseUnset (phases_written es) CrashLoopPolicyPhasePending"
      by (auto intro!: path_Cons accept path_repeat)
    with es t True show ?thesis by (intro exI [of _ es] exI [of _ CrashLoopPolicyPhasePending]) auto
  qed
qed

text \<open>
  C11: the status writes of a reconcile follow the life cycle of a policy: from the phase the policy
  had, in the order sent and whatever the API server answers, they are a path of the state machine. So
  a new policy is written Pending before it is written Active, and a policy is never written back.
\<close>

theorem phases_follow_lifecycle:
  assumes "retriers_ok E" "run_state (c_getPolicy (cl E) req) (world s) = (Inr policy, w)"
    and "run_state (Reconcile E req) s = (r, t)"
  shows "\<exists>es q. trace t = trace s @ es \<and> phase_path (Phase (Status policy)) (phases_written es) q"
proof -
  let ?s = "s\<lparr>world := w\<rparr>"
  obtain x u where x: "run_state (set_pending E policy) ?s = (x, u)" by force
  from set_pending_path [OF assms(1) x] obtain es q where es: "trace u = trace s @ es"
    "phase_path (Phase (Status policy)) (phases_written es) q" "\<forall>p. x = Inr p \<longrightarrow> q \<noteq> PhaseUnset" by auto
  have run: "run_state (bindE (set_pending E policy) (evaluate E)) ?s = (r, t)"
    using assms(2,3) by (simp add: Reconcile_def run_prog)
  show ?thesis
  proof (cases x)
    case (Inl e)
    with run x es show ?thesis by (auto simp: run_bindE)
  next
    case (Inr p)
    with run x have "run_state (evaluate E p) u = (r, t)" by (simp add: run_bindE)
    from emitsD [OF evaluate_writes_active [OF assms(1)] this] obtain ds where
      ds: "trace t = trace u @ ds" "list_all (writes_phase CrashLoopPolicyPhaseActive) ds" by blast
    from path_to_active [OF _ phases_written_all [OF ds(2)]] es(3) Inr obtain q' where
      "phase_path q (phases_written ds) q'" by blast
    from path_append [OF es(2) this] es(1) ds(1) show ?thesis by (intro exI [of _ "es @ ds"]) auto
  qed
qed

theorem phases_follow_lifecycle_witness:
  "\<exists>q. phase_path CrashLoopPolicyPhaseActive
     (phases_written (trace (snd (run_state (Reconcile cluster_env (nsname [] ''pol'')) (run_in policy_cluster))))) q"
proof -
  have g: "run_state (c_getPolicy (cl cluster_env) (nsname [] ''pol'')) (world (run_in policy_cluster)) =
      (Inr active_policy, policy_cluster)"
    by (simp add: cluster_client_def run_in_def stored_active_policy)
  obtain r t where r: "run_state (Reconcile cluster_env (nsname [] ''pol'')) (run_in policy_cluster) = (r, t)" by force
  from phases_follow_lifecycle [OF cluster_retriers_ok g r] r show ?thesis by (auto simp: run_in_def status0_def)
qed

end
