(* ===== verification/Ledger.thy ===== *)
theory Ledger
  imports Lifecycle
begin

text \<open>
  Accounting for effects: a program spends at most \<open>n\<close> when the effects that count, together with a
  potential of the world it leaves behind, exceed the potential it started from by at most \<open>n\<close>. With
  no potential this bounds what one run sends; with a potential that a program has to use up it
  bounds what any number of runs send. The rules follow the structure of programs; the reconcile loop
  is charged once for all potentials, in terms of what a stop and a status write cost.
\<close>

lemma retry_run_once:
  "retry_run f l s out \<Longrightarrow> (\<And>e l' s'. run_state (f l) s = ((Some e, l'), s') \<Longrightarrow> \<not> IsConflict e) \<Longrightarrow>
   out = run_state (f l) s"
  by (induction rule: retry_run.induct) auto

locale ledger =
  fixes counts :: "effect \<Rightarrow> bool"
    and potential :: "'w \<Rightarrow> nat"
  assumes only_requests: "counts ef \<Longrightarrow> \<exists>a e. ef = ApiWrite a e"
begin

definition cost :: "effect list \<Rightarrow> nat" where
  "cost es = length (filter counts es)"

definition spends :: "nat \<Rightarrow> ('w, 'a) prog \<Rightarrow> bool" where
  "spends n m \<longleftrightarrow> (\<forall>s. \<exists>es. trace (snd (run_state m s)) = trace s @ es \<and>
     cost es + potential (world (snd (run_state m s))) \<le> potential (world s) + n)"

definition keeps :: "('w, 'a) state \<Rightarrow> bool" where
  "keeps m \<longleftrightarrow> (\<forall>w. potential (snd (run_state m w)) \<le> potential w)"

text \<open>Every read request of the reconcile loop leaves the potential as it is or lowers it.\<close>

definition calm :: "'w env \<Rightarrow> bool" where
  "calm E \<longleftrightarrow> keeps (c_now (cl E)) \<and> (\<forall>k. keeps (c_getPolicy (cl E) k)) \<and> keeps (c_listPolicies (cl E)) \<and>
     (\<forall>k. keeps (c_getDeployment (cl E) k)) \<and> (\<forall>k. keeps (c_getStatefulSet (cl E) k)) \<and>
     (\<forall>k. keeps (c_getCronJob (cl E) k)) \<and> (\<forall>k. keeps (c_getReplicaSet (cl E) k)) \<and> (\<forall>k. keeps (c_getJob (cl E) k)) \<and>
     (\<forall>i v. keeps (c_listPodsByField (cl E) i v)) \<and> (\<forall>ns sel. keeps (c_listPodsBySelector (cl E) ns sel)) \<and>
     (\<forall>ns. keeps (c_listPodsIn (cl E) ns)) \<and> (\<forall>ns. keeps (c_listJobsIn (cl E) ns)) \<and>
     keeps (c_listDeployments (cl E)) \<and> keeps (c_listStatefulSets (cl E)) \<and> keeps (c_listCronJobs (cl E)) \<and>
     (\<forall>sel. keeps (c_listNamespaces (cl E) sel))"

lemma calm_reads:
  assumes "calm E"
  shows "keeps (c_now (cl E))" "keeps (c_getPolicy (cl E) k)" "keeps (c_listPolicies (cl E))"
    "keeps (c_getDeployment (cl E) k)" "keeps (c_getStatefulSet (cl E) k)" "keeps (c_getCronJob (cl E) k)"
    "keeps (c_getReplicaSet (cl E) k)" "keeps (c_getJob (cl E) k)" "keeps (c_listPodsByField (cl E) i v)"
    "keeps (c_listPodsBySelector (cl E) ns sel)" "keeps (c_listPodsIn (cl E) ns)" "keeps (c_listJobsIn (cl E) ns)"
    "keeps (c_listDeployments (cl E))" "keeps (c_listStatefulSets (cl E))" "keeps (c_listCronJobs (cl E))"
    "keeps (c_listNamespaces (cl E) sel)"
  using assms by (simp_all add: calm_def)

text \<open>Rules, one per construct.\<close>

lemma spendsD:
  "spends n m \<Longrightarrow> run_state m s = (a, t) \<Longrightarrow>
   \<exists>es. trace t = trace s @ es \<and> cost es + potential (world t) \<le> potential (world s) + n"
  unfolding spends_def by (metis snd_conv)

lemma spendsI:
  "(\<And>s a t. run_state m s = (a, t) \<Longrightarrow>
     \<exists>es. trace t = trace s @ es \<and> cost es + potential (world t) \<le> potential (world s) + n) \<Longrightarrow> spends n m"
  unfolding spends_def by (metis prod.collapse)

lemma cost_Nil [simp]: "cost [] = 0"
  by (simp add: cost_def)

lemma cost_append [simp]: "cost (es @ fs) = cost es + cost fs"
  by (simp add: cost_def)

lemma cost_single: "cost [ef] \<le> 1"
  by (simp add: cost_def)

lemma spends_silent:
  assumes "\<And>s. trace (snd (run_state m s)) = trace s"
    "\<And>s. potential (world (snd (run_state m s))) \<le> potential (world s)"
  shows "spends n m"
  unfolding spends_def using assms by (intro allI exI [of _ "[]"]) (simp add: trans_le_add1)

lemma spends_ret: "spends n (ret a)"
  by (rule spends_silent) simp_all

lemma spends_api: "keeps m \<Longrightarrow> spends n (api m)"
  by (rule spends_silent) (auto simp: keeps_def run_api split: prod.split dest: spec, metis snd_conv)

lemma spends_get_cache: "spends n get_cache"
  by (rule spends_silent) simp_all

lemma spends_put_cache: "spends n (put_cache c)"
  by (rule spends_silent) simp_all

lemma spends_emit: "\<not> counts ef \<Longrightarrow> spends n (emit ef)"
  unfolding spends_def by (intro allI exI [of _ "[ef]"]) (simp add: cost_def)

lemma spends_metric: "spends n (emit (Metric v ls m))"
  by (rule spends_emit) (use only_requests in blast)

lemma spends_event: "spends n (emit (Event i j k))"
  by (rule spends_emit) (use only_requests in blast)

lemma spends_request: "keeps m \<Longrightarrow> spends 1 (api_request a m)"
  by (rule spendsI) (auto simp: api_request_def run_prog keeps_def cost_def split: prod.splits, (metis le_SucI snd_conv)+)

lemma spends_bind_on:
  assumes "spends j m" "\<And>s a t. run_state m s = (a, t) \<Longrightarrow> spends k (f a)" "j + k \<le> n"
  shows "spends n (State_Monad.bind m f)"
proof (rule spendsI)
  fix s a t assume r: "run_state (State_Monad.bind m f) s = (a, t)"
  obtain b u where m: "run_state m s = (b, u)" by force
  with r have "run_state (f b) u = (a, t)" by simp
  from spendsD [OF assms(1) m] spendsD [OF assms(2) [OF m] this] obtain es fs where
    "trace u = trace s @ es" "cost es + potential (world u) \<le> potential (world s) + j"
    "trace t = trace u @ fs" "cost fs + potential (world t) \<le> potential (world u) + k" by blast
  with assms(3) show "\<exists>es. trace t = trace s @ es \<and> cost es + potential (world t) \<le> potential (world s) + n"
    by (intro exI [of _ "es @ fs"]) simp
qed

lemma spends_bind:
  "spends j m \<Longrightarrow> (\<And>a. spends k (f a)) \<Longrightarrow> j + k \<le> n \<Longrightarrow> spends n (State_Monad.bind m f)"
  by (rule spends_bind_on)

lemma spends_after: "spends 0 m \<Longrightarrow> (\<And>a. spends n (f a)) \<Longrightarrow> spends n (State_Monad.bind m f)"
  by (rule spends_bind [of 0 _ n]) simp_all

lemma spends_before: "spends n m \<Longrightarrow> (\<And>a. spends 0 (f a)) \<Longrightarrow> spends n (State_Monad.bind m f)"
  by (rule spends_bind [of n _ 0]) simp_all

lemma spends_sum:
  "(\<And>x. spends n (f x)) \<Longrightarrow> (\<And>x. spends n (g x)) \<Longrightarrow> spends n (case r of Inl x \<Rightarrow> f x | Inr x \<Rightarrow> g x)"
  by (cases r) auto

lemma spends_option:
  "spends n m \<Longrightarrow> (\<And>x. spends n (f x)) \<Longrightarrow> spends n (case p of None \<Rightarrow> m | Some x \<Rightarrow> f x)"
  by (cases p) auto

lemma spends_if: "(b \<Longrightarrow> spends k m) \<Longrightarrow> (\<not> b \<Longrightarrow> spends k n) \<Longrightarrow> spends k (if b then m else n)"
  by simp

lemma spends_prod: "(\<And>x y. spends n (f x y)) \<Longrightarrow> spends n (case p of (x, y) \<Rightarrow> f x y)"
  by (cases p) auto

lemma spends_let: "spends n (f a) \<Longrightarrow> spends n (Let a f)"
  by simp

lemma spends_bindE_on:
  assumes "spends j m" "\<And>s a t. run_state m s = (Inr a, t) \<Longrightarrow> spends k (f a)" "j + k \<le> n"
  shows "spends n (bindE m f)"
  unfolding bindE_def
  by (rule spends_bind_on [OF assms(1) _ assms(3)]) (auto intro: assms(2) spends_ret split: sum.split)

lemma spends_afterE: "spends 0 m \<Longrightarrow> (\<And>a. spends n (f a)) \<Longrightarrow> spends n (bindE m f)"
  by (rule spends_bindE_on [of 0 _ n]) simp_all

lemma spends_or_count: "spends 0 m \<Longrightarrow> (\<And>a. spends n (f a)) \<Longrightarrow> spends n (or_count st m f)"
  unfolding or_count_def by (intro spends_after spends_sum spends_ret)

lemmas spends_intros = spends_ret spends_get_cache spends_put_cache spends_metric spends_event spends_sum
  spends_option spends_if spends_prod spends_let spends_api spends_after spends_afterE

text \<open>What only reads spends nothing.\<close>

lemma spends_time_now: "calm E \<Longrightarrow> spends n (time_now E)"
  unfolding time_now_def by (intro spends_api calm_reads)

lemma spends_resolveOwnerWorkload: "calm E \<Longrightarrow> spends n (resolveOwnerWorkload E x)"
  unfolding resolveOwnerWorkload_def by (intro spends_intros calm_reads)

lemma spends_allReplicasFailing: "calm E \<Longrightarrow> spends n (allReplicasFailing E w p)"
  unfolding allReplicasFailing_def selected_pods_failing_def by (intro spends_intros spends_time_now calm_reads)

lemma spends_isWorkloadExcludedBySelector: "calm E \<Longrightarrow> spends n (isWorkloadExcludedBySelector E w sel)"
  unfolding isWorkloadExcludedBySelector_def labels_or_missing_def by (intro spends_intros calm_reads)

lemma spends_allowed: "calm E \<Longrightarrow> spends n (allowed E p)"
  unfolding allowed_def resolveNamespaces_def by (intro spends_intros calm_reads)

lemma spends_policyWouldAct: "calm E \<Longrightarrow> spends n (policyWouldAct E p x w)"
  unfolding policyWouldAct_def
  by (intro spends_intros spends_time_now spends_allowed spends_isWorkloadExcludedBySelector spends_allReplicasFailing)

lemma spends_winner_loop: "calm E \<Longrightarrow> spends n (winner_loop E x w cur ps)"
proof (induction ps arbitrary: cur)
  case (Cons p ps)
  then show ?case unfolding winner_loop.simps by (intro spends_afterE spends_if spends_policyWouldAct)
qed (simp add: spends_ret)

lemma spends_winningPolicy: "calm E \<Longrightarrow> spends n (winningPolicy E ps x w)"
  unfolding winningPolicy_def by (rule spends_winner_loop)

lemma spends_listCandidatePods: "calm E \<Longrightarrow> spends n (listCandidatePods E ws ts)"
proof -
  assume c: "calm E"
  have loop: "spends n (index_loop E index seen pods vs)" for n index seen pods vs
    by (induction vs arbitrary: seen pods) (auto intro!: spends_ret spends_afterE spends_api spends_prod calm_reads [OF c])
  show ?thesis unfolding listCandidatePods_def listPodsByIndex_def by (intro spends_intros loop)
qed

lemma spends_findActive: "calm E \<Longrightarrow> spends n (findActiveScaledDownWorkloads E a x t p)"
  unfolding findActiveScaledDownWorkloads_def append_held_def Let_def by (intro spends_intros calm_reads)

lemma spends_evaluation_status: "calm E \<Longrightarrow> spends n (evaluation_status E g st active k old)"
  unfolding evaluation_status_def by (intro spends_intros spends_time_now)

lemma spends_requeue_after: "calm E \<Longrightarrow> spends n (requeue_after E d e)"
  unfolding requeue_after_def by (intro spends_intros spends_time_now)

text \<open>
  The reconcile loop, for a stop that spends at most \<open>j\<close> and a status write that spends at most \<open>k\<close>:
  a pod costs a stop, an evaluation a status write.
\<close>

definition stops_within :: "nat \<Rightarrow> 'w env \<Rightarrow> bool" where
  "stops_within j E \<longleftrightarrow> (\<forall>w reason p dry. spends j (scaleDownWorkload E w reason p dry))"

definition writes_within :: "nat \<Rightarrow> 'w env \<Rightarrow> bool" where
  "writes_within k E \<longleftrightarrow> (\<forall>obj mutate. spends k (updateStatusWithRetry E obj mutate)) \<and>
     (\<forall>obj mutate. (\<forall>st. spends 0 (mutate st)) \<longrightarrow> spends k (updatePolicyStatusIfChanged E obj mutate))"

text \<open>Status writes nobody else interferes with: without conflicts a retry loop is its first attempt.\<close>

lemma spends_retry_once:
  assumes r: "retry_contract r" and f: "\<And>l. spends n (f l)"
    and c: "\<And>l s e l' s'. run_state (f l) s = ((Some e, l'), s') \<Longrightarrow> \<not> IsConflict e"
  shows "spends n (r f l)"
proof -
  have "run_state (r f l) s = run_state (f l) s" for s
    by (rule retry_run_once [of f l s]) (use r c in \<open>auto simp: retry_contract_def\<close>)
  with f [of l] show ?thesis by (simp add: spends_def)
qed

lemma status_writes_free:
  assumes calm: "calm E" and ok: "retriers_ok E" and u: "\<And>p. keeps (c_updateStatus (cl E) p)"
    and n: "\<And>p e. \<not> counts (ApiWrite (UpdatePolicyStatus p) e)"
    and g: "\<And>k w e. fst (run_state (c_getPolicy (cl E) k) w) = Inl e \<Longrightarrow> \<not> IsConflict e"
    and s: "\<And>p w e. fst (run_state (c_updateStatus (cl E) p) w) = Inl e \<Longrightarrow> \<not> IsConflict e"
  shows "writes_within 0 E"
proof -
  have g': "run_state (c_getPolicy (cl E) k) w = (Inl e, w') \<Longrightarrow> \<not> IsConflict e"
    and s': "run_state (c_updateStatus (cl E) p) w = (Inl e, w') \<Longrightarrow> \<not> IsConflict e" for k p w e w'
    using g s by (metis fst_conv)+
  have w: "spends 0 (api_request (UpdatePolicyStatus p) (c_updateStatus (cl E) q))" for p q
    unfolding api_request_def ret_def [symmetric] by (intro spends_after spends_api spends_emit spends_ret u n)
  note steps = spends_after spends_before spends_api calm_reads [OF calm] spends_sum spends_let spends_ret spends_if w
    spends_time_now [OF calm]
  have r: "retry_contract (retryPolicy (rt E))" using ok by (rule policy_retrier)
  have "spends 0 (updateStatusWithRetry E obj mutate)" for obj mutate
    unfolding updateStatusWithRetry_def
  proof (rule spends_retry_once [OF r])
    show "spends 0 (status_attempt E mutate l)" for l unfolding status_attempt_def by (intro steps)
    show "\<not> IsConflict e" if "run_state (status_attempt E mutate l) s = ((Some e, l'), s')" for l s e l' s'
      using that by (auto simp: status_attempt_def Let_def api_request_def run_prog dest: g' s' split: prod.splits sum.splits)
  qed
  moreover have "spends 0 (updatePolicyStatusIfChanged E obj mutate)" if m: "\<forall>st. spends 0 (mutate st)" for obj mutate
    unfolding updatePolicyStatusIfChanged_def
  proof (rule spends_retry_once [OF r])
    show "spends 0 (if_changed_attempt E mutate l)" for l unfolding if_changed_attempt_def by (intro steps m [rule_format])
    show "\<not> IsConflict e" if "run_state (if_changed_attempt E mutate l) s = ((Some e, l'), s')" for l s e l' s'
      using that by (auto simp: if_changed_attempt_def Let_def api_request_def run_prog dest: g' s'
          split: prod.splits sum.splits if_splits)
  qed
  ultimately show ?thesis by (simp add: writes_within_def)
qed

lemma spends_pod_step:
  assumes "calm E" "stops_within j E"
  shows "spends j (pod_step E policy policies a t x st)"
proof -
  have report: "spends 0 (do { emit (action_metric policy owner reason); emit (action_event policy owner r); ret st })"
    for owner reason r st
    unfolding action_metric_def action_event_def Let_def
    by (intro spends_after spends_metric spends_ret) (auto intro: spends_event split: prod.split)
  have stop: "spends j (stop_and_report E policy owner reason st)" for owner reason st
    unfolding stop_and_report_def or_count_def
    by (rule spends_before) (use assms(2) report in \<open>auto simp: stops_within_def intro!: spends_sum spends_ret spends_if\<close>)
  have act: "spends j (act_on E policy policies x owner reason st)" for owner reason st
    unfolding act_on_def
    by (intro spends_or_count spends_if spends_ret stop spends_isWorkloadExcludedBySelector spends_allReplicasFailing
        spends_winningPolicy assms(1))
  show ?thesis
    unfolding pod_step_def
    by (auto intro!: spends_if spends_ret spends_option spends_after [OF spends_time_now [OF assms(1)]]
        spends_or_count [OF spends_resolveOwnerWorkload [OF assms(1)]] act split: gate.split)
qed

lemma spends_pod_loop:
  "calm E \<Longrightarrow> stops_within j E \<Longrightarrow> spends (j * length xs) (pod_loop E policy policies a t xs st)"
proof (induction xs arbitrary: st)
  case (Cons x xs)
  then show ?case by (auto intro!: spends_bind [OF spends_pod_step])
qed (simp add: spends_ret)

lemma spends_finish:
  assumes "calm E" "writes_within k E"
  shows "spends k (finish E policy a st)"
proof -
  have w: "spends k (updatePolicyStatusIfChanged E policy (evaluation_status E g st active n))" for g st active n
    using assms by (simp add: writes_within_def spends_evaluation_status)
  have "spends k (report E policy st active n)" for st active n
    unfolding report_def
    by (intro spends_after spends_metric spends_if spends_ret spends_before [OF w] spends_prod spends_option
        spends_requeue_after assms(1))
  then show ?thesis
    unfolding finish_def Let_def by (intro spends_after [OF spends_findActive [OF assms(1)]] spends_prod)
qed

lemma spends_evaluate:
  assumes "calm E" "stops_within j E" "writes_within k E"
    and few: "\<And>s pods t. run_state (listCandidatePods E (effectiveWatchReasons policy) (effectiveTerminationReasons policy)) s =
      (Inr pods, t) \<Longrightarrow> j * length pods \<le> c"
  shows "spends (c + k) (evaluate E policy)"
proof -
  have loop: "spends (c + k) (do { st \<leftarrow> pod_loop E policy policies a rt pods loop_start; finish E policy a st })"
    if "j * length pods \<le> c" for policies a rt pods
    by (rule spends_bind [OF spends_pod_loop [OF assms(1,2)] spends_finish [OF assms(1,3)]]) (use that in simp)
  have listed: "spends (c + k) (bindE
      (listCandidatePods E (effectiveWatchReasons policy) (effectiveTerminationReasons policy)) (\<lambda>pods. do {
      st \<leftarrow> pod_loop E policy policies a rt pods loop_start; finish E policy a st }))" for policies a rt
    by (rule spends_bindE_on [OF spends_listCandidatePods [OF assms(1), of 0] loop [OF few]]) simp_all
  show ?thesis
    unfolding evaluate_def newNamespaceResolver_def
    by (intro spends_after spends_afterE spends_time_now spends_api calm_reads spends_put_cache spends_allowed listed assms(1))
qed

lemma spends_Reconcile:
  assumes "calm E" "stops_within j E" "writes_within k E"
    and few: "\<And>ws ts s pods t. run_state (listCandidatePods E ws ts) s = (Inr pods, t) \<Longrightarrow> j * length pods \<le> c"
  shows "spends (k + (c + k)) (Reconcile E req)"
proof -
  have pending: "spends k (set_pending E policy)" for policy
    using assms(3) unfolding set_pending_def writes_within_def
    by (intro spends_if spends_ret spends_before spends_prod spends_option) auto
  have found: "spends (k + (c + k)) (bindE (set_pending E policy) (evaluate E))" for policy
    by (rule spends_bindE_on [OF pending spends_evaluate [OF assms(1-3) few]]) simp_all
  show ?thesis
    unfolding Reconcile_def forgetPolicyMetrics_def
    by (intro spends_after spends_api calm_reads spends_sum spends_option spends_ret spends_if spends_metric found assms(1))
qed

end

end
