(* ===== verification/Effort.thy ===== *)
theory Effort
  imports Ledger
begin

text \<open>
  How much a reconcile sends. \<open>retry.DefaultRetry\<close> allows five attempts; with any bound on the
  attempts of the retry loops the number of write requests of a reconcile is bounded by the number of
  pods in the cluster, however often the API server answers with a conflict.
\<close>

section \<open>Retry loops with a bound\<close>

inductive retry_within :: "('w, 'l) closure \<Rightarrow> nat \<Rightarrow> 'l \<Rightarrow> 'w ost \<Rightarrow> (api_error option \<times> 'l) \<times> 'w ost \<Rightarrow> bool"
  for f where
  within_stop: "run_state (f l) s = out \<Longrightarrow> retry_within f (Suc n) l s out"
| within_again: "run_state (f l) s = ((Some e, l'), s') \<Longrightarrow> IsConflict e \<Longrightarrow>
    trace s'' = trace s' \<Longrightarrow> nsCache s'' = nsCache s' \<Longrightarrow> retry_within f n l' s'' out \<Longrightarrow> retry_within f (Suc n) l s out"

definition attempts :: "nat \<Rightarrow> (('w, 'l) closure \<Rightarrow> ('w, 'l) closure) \<Rightarrow> bool" where
  "attempts k r \<longleftrightarrow> (\<forall>f l s. retry_within f k l s (run_state (r f l) s))"

definition attempts_ok :: "nat \<Rightarrow> 'w env \<Rightarrow> bool" where
  "attempts_ok k E \<longleftrightarrow> attempts k (retryPolicy (rt E)) \<and> attempts k (retryObject (rt E)) \<and>
     attempts k (retryScale (rt E)) \<and> attempts k (retryCronJob (rt E))"

lemma retry_times_attempts: "attempts (Suc n) (retry_times n)"
  unfolding attempts_def
proof (intro allI)
  show "retry_within f (Suc n) l s (run_state (retry_times n f l) s)" for f :: "('w, 'l) closure" and l s
  proof (induction n arbitrary: l s)
    case 0
    then show ?case by (simp add: within_stop)
  next
    case (Suc n)
    obtain e l' s' where r: "run_state (f l) s = ((e, l'), s')" by (metis prod.exhaust)
    show ?case
    proof (cases "\<exists>err. e = Some err \<and> IsConflict err")
      case True
      then obtain err where e: "e = Some err" "IsConflict err" by blast
      then show ?thesis using within_again [of f l s err l' s' s'] r Suc.IH by simp
    next
      case False
      then show ?thesis using within_stop [of f l s, OF r] r by (auto split: option.split)
    qed
  qed
qed

section \<open>Counting writes\<close>

definition is_request :: "effect \<Rightarrow> bool" where
  "is_request ef = (case ef of ApiWrite a e \<Rightarrow> True | _ \<Rightarrow> False)"

lemma is_request_simps [simp]: "is_request (ApiWrite a e)" "\<not> is_request (Metric v ls m)" "\<not> is_request (Event i j k)"
  by (simp_all add: is_request_def)

definition requests :: "effect list \<Rightarrow> nat" where
  "requests es = length (filter is_request es)"

text \<open>A ledger without a potential counts what one run sends.\<close>

interpretation sent: ledger is_request "\<lambda>_. 0"
  by unfold_locales (auto simp: is_request_def split: effect.splits)

abbreviation sends :: "nat \<Rightarrow> ('w, 'a) prog \<Rightarrow> bool" where
  "sends \<equiv> sent.spends"

lemma sent_cost: "sent.cost es = requests es"
  by (simp add: sent.cost_def requests_def)

lemma sends_quiet: "emits (\<lambda>ef. \<not> is_request ef) m \<Longrightarrow> sends n m"
proof (rule sent.spendsI)
  fix s a t assume q: "emits (\<lambda>ef. \<not> is_request ef) m" and r: "run_state m s = (a, t)"
  from emitsD [OF q r] obtain es where "trace t = trace s @ es" "list_all (\<lambda>ef. \<not> is_request ef) es" by auto
  then show "\<exists>es. trace t = trace s @ es \<and> sent.cost es + 0 \<le> 0 + n"
    by (intro exI [of _ es]) (simp add: sent.cost_def list_all_iff filter_empty_conv)
qed

lemma sent_keeps: "sent.keeps m"
  by (simp add: sent.keeps_def)

lemma sent_calm: "sent.calm E"
  by (simp add: sent.calm_def sent_keeps)

text \<open>A retry loop of \<open>k\<close> attempts sends at most \<open>k\<close> times what one attempt sends.\<close>

lemma retry_within_sends:
  "retry_within f k l s out \<Longrightarrow> (\<And>l. sends n (f l)) \<Longrightarrow> \<exists>es. trace (snd out) = trace s @ es \<and> requests es \<le> k * n"
proof (induction rule: retry_within.induct)
  case (within_stop l s out m)
  then obtain es where "trace (snd out) = trace s @ es" "requests es \<le> n"
    using sent.spendsD [of n "f l" s "fst out" "snd out"] by (auto simp: sent_cost)
  then show ?case by (intro exI [of _ es]) simp
next
  case (within_again l s e l' s' s'' m out)
  from sent.spendsD [OF within_again.prems within_again.hyps(1)] obtain es where
    "trace s' = trace s @ es" "requests es \<le> n" by (auto simp: sent_cost)
  moreover from within_again.IH [OF within_again.prems] obtain fs where
    "trace (snd out) = trace s'' @ fs" "requests fs \<le> m * n" by blast
  ultimately show ?case using within_again.hyps(3) by (intro exI [of _ "es @ fs"]) (simp add: requests_def)
qed

lemma sends_retry: "attempts k r \<Longrightarrow> (\<And>l. sends 1 (f l)) \<Longrightarrow> sends k (r f l)"
proof (rule sent.spendsI)
  fix s a t assume "attempts k r" "run_state (r f l) s = (a, t)"
  then have "retry_within f k l s (a, t)" by (metis attempts_def)
  moreover assume "\<And>l. sends 1 (f l)"
  ultimately show "\<exists>es. trace t = trace s @ es \<and> sent.cost es + 0 \<le> 0 + k"
    using retry_within_sends [of f k l s "(a, t)" 1] by (simp add: sent_cost)
qed

section \<open>The operations\<close>

lemma sends_attempts:
  "sends 1 (status_attempt E mutate p)" "sends 1 (annotate_attempt E key reason by_policy now ob)"
  "sends 1 (scale_attempt E obj sc)" "sends 1 (suspend_attempt E key reason by_policy now cj)"
  unfolding status_attempt_def annotate_attempt_def scale_attempt_def suspend_attempt_def
  by (intro sent.spends_after [OF sends_quiet [OF getObject_emits]] sent.spends_after [OF sent.spends_api [OF sent_keeps]]
      sent.spends_sum sent.spends_prod sent.spends_if sent.spends_let sent.spends_ret
      sent.spends_before [OF sent.spends_request [OF sent_keeps]])+

lemma sends_if_changed: "(\<And>st. sends 0 (mutate st)) \<Longrightarrow> sends 1 (if_changed_attempt E mutate l)"
  unfolding if_changed_attempt_def
  by (intro sent.spends_after [OF sent.spends_api [OF sent_keeps]] sent.spends_after [OF sent.spends_time_now [OF sent_calm]]
      sent.spends_after [of "mutate _"] sent.spends_sum sent.spends_if sent.spends_let sent.spends_ret
      sent.spends_before [OF sent.spends_request [OF sent_keeps]])

lemma sends_writes:
  assumes "attempts_ok k E"
  shows "sent.writes_within k E"
  using assms unfolding sent.writes_within_def updateStatusWithRetry_def updatePolicyStatusIfChanged_def attempts_ok_def
  by (auto intro: sends_retry sends_attempts sends_if_changed)

lemma sends_after_retry:
  assumes "attempts k r" "\<And>l. sends 1 (f l)" "\<And>err l. sends j (g err l)" "k + j \<le> n"
  shows "sends n (do { (err, l) \<leftarrow> r f l; g err l })"
  by (rule sent.spends_bind [OF sends_retry [OF assms(1,2)] sent.spends_prod [OF assms(3)] assms(4)])

lemma sends_scaleWorkloadToZero:
  assumes "attempts_ok k E"
  shows "sends (2 * k) (scaleWorkloadToZero E ob key reason p now dry)"
proof -
  have r: "attempts k (retryObject (rt E))" "attempts k (retryScale (rt E))"
    using assms by (simp_all add: attempts_ok_def)
  have second: "sends k (do {
      (err, sc) \<leftarrow> retryScale (rt E) (scale_attempt E obj) \<lparr>sc_replicas = 0\<rparr>;
      (case err of Some e \<Rightarrow> ret (Inl e) | None \<Rightarrow> ret (Inr True)) })" for obj
    by (rule sends_after_retry [OF r(2) sends_attempts(3), of 0]) (auto intro: sent.spends_option sent.spends_ret)
  have first: "sends (2 * k) (do {
      (err, (obj, prevReplicas)) \<leftarrow> retryObject (rt E) (annotate_attempt E key reason p now) (obj, 0);
      (case err of
         Some e \<Rightarrow> ret (Inl e)
       | None \<Rightarrow>
           if prevReplicas = 0 then ret (Inr False)
           else do {
             (err, sc) \<leftarrow> retryScale (rt E) (scale_attempt E obj) \<lparr>sc_replicas = 0\<rparr>;
             (case err of Some e \<Rightarrow> ret (Inl e) | None \<Rightarrow> ret (Inr True)) }) })" for obj
    by (rule sends_after_retry [OF r(1) sends_attempts(2), of k])
      (auto intro!: sent.spends_option sent.spends_prod sent.spends_if sent.spends_ret second)
  show ?thesis
    unfolding scaleWorkloadToZero_def
    by (intro sent.spends_afterE [OF sends_quiet [OF getObject_emits]] sent.spends_prod sent.spends_if sent.spends_ret first)
qed

lemma sends_stops:
  assumes "attempts_ok k E"
  shows "sent.stops_within (2 * k) E"
proof -
  have r: "attempts k (retryCronJob (rt E))" using assms by (simp add: attempts_ok_def)
  have cj: "sends (2 * k) (do {
      (err, cj) \<leftarrow> retryCronJob (rt E) (suspend_attempt E key reason p now) cj;
      (case err of Some e \<Rightarrow> ret (Inl e) | None \<Rightarrow> ret (Inr True)) })" for key now cj reason p
    by (rule sends_after_retry [OF r sends_attempts(4), of 0]) (auto intro: sent.spends_option sent.spends_ret)
  show ?thesis
    unfolding sent.stops_within_def scaleDownWorkload_def Let_def
    by (intro allI sent.spends_after [OF sent.spends_time_now [OF sent_calm]] sent.spends_afterE [OF sent.spends_api [OF sent_keeps]]
        sent.spends_if sent.spends_ret cj sends_scaleWorkloadToZero assms)
qed

section \<open>A reconcile\<close>

lemma candidates_bounded:
  assumes "serves_index E IndexPodWaitingReason (\<lambda>p. podWaitingReasons (PodObj p)) store"
    and "serves_index E IndexPodTerminationReason (\<lambda>p. podTerminationReasons (PodObj p)) store"
    and "finite store" "run_state (listCandidatePods E ws ts) s = (Inr pods, t)"
  shows "length pods \<le> card store"
proof -
  have "set pods \<subseteq> store" using candidates_exact [OF assms(1,2), of ws ts s] assms(4) by auto
  then have "card (set pods) \<le> card store" using assms(3) by (rule card_mono [rotated])
  moreover have "distinct pods" using candidates_distinct [OF assms(4)] by (simp add: distinct_map)
  ultimately show ?thesis by (simp add: distinct_card)
qed

text \<open>
  C13: a reconcile sends a bounded number of write requests, even when the API server answers every one
  of them with a conflict: with \<open>N\<close> pods in the cluster and retry loops that give up after \<open>k\<close>
  attempts (\<open>retry.DefaultRetry\<close> has five) at most \<open>2 * k * (N + 1)\<close>, so no retry is nested in
  another and none restarts the pod loop.
\<close>

theorem reconcile_requests_bounded:
  assumes "attempts_ok k E" "finite store"
    and "serves_index E IndexPodWaitingReason (\<lambda>p. podWaitingReasons (PodObj p)) store"
    and "serves_index E IndexPodTerminationReason (\<lambda>p. podTerminationReasons (PodObj p)) store"
    and r: "run_state (Reconcile E req) s = (res, t)"
  shows "\<exists>es. trace t = trace s @ es \<and> requests es \<le> 2 * k * (card store + 1)"
proof -
  have "2 * k * length pods \<le> 2 * k * card store"
    if "run_state (listCandidatePods E ws ts) s = (Inr pods, t)" for ws ts s pods t
    using candidates_bounded [OF assms(3,4,2) that] by (rule mult_le_mono2)
  from sent.spends_Reconcile [OF sent_calm sends_stops [OF assms(1)] sends_writes [OF assms(1)] this]
  have "sends (k + (2 * k * card store + k)) (Reconcile E req)" .
  from sent.spendsD [OF this r] obtain es where
    "trace t = trace s @ es" "requests es \<le> k + (2 * k * card store + k)" by (auto simp: sent_cost)
  then show ?thesis by (intro exI [of _ es]) simp
qed

lemma five_attempts: "attempts 5 (retry_times 4)"
  using retry_times_attempts [of 4] by (simp add: eval_nat_numeral)

lemma static_env_attempts: "attempts_ok 5 (static_env pods)"
  by (simp add: attempts_ok_def static_env_def cluster_retriers_def five_attempts)

theorem reconcile_requests_bounded_witness:
  "\<exists>es. trace (snd (run_state (Reconcile (static_env [waiting_pod ''a'']) (nsname [] ''pol'')) (run_in policy_cluster))) = es \<and>
     requests es \<le> 20"
proof -
  let ?E = "static_env [waiting_pod ''a'']"
  obtain r t where r: "run_state (Reconcile ?E (nsname [] ''pol'')) (run_in policy_cluster) = (r, t)" by force
  have d: "distinct (map pod_uid [waiting_pod ''a''])" by simp
  from reconcile_requests_bounded [OF static_env_attempts _ static_env_serves [OF d] r] r
  show ?thesis by (simp add: run_in_def)
qed

end
