(* ===== verification/Settling.thy ===== *)
theory Settling
  imports Effort
begin

text \<open>
  The operator comes to rest: while nobody else changes workloads, every write to a workload uses up
  part of a potential, the running workloads, and nothing the operator does refills it. So over any
  sequence of reconciles, of any policies, it writes to workloads a bounded number of times, and from
  some reconcile on it leaves them alone.
\<close>

section \<open>Running workloads\<close>

text \<open>The stored objects of the three kinds, as functions of the world.\<close>

record 'w stores =
  st_deployments :: "'w \<Rightarrow> namespaced_name \<rightharpoonup> client_object"
  st_statefulsets :: "'w \<Rightarrow> namespaced_name \<rightharpoonup> client_object"
  st_cronjobs :: "'w \<Rightarrow> namespaced_name \<rightharpoonup> cronjob"

definition scaled_up :: "(namespaced_name \<rightharpoonup> client_object) \<Rightarrow> namespaced_name set" where
  "scaled_up st = {key. \<exists>obj. st key = Some obj \<and> fst (currentReplicas obj) \<noteq> 0}"

definition scheduling :: "(namespaced_name \<rightharpoonup> cronjob) \<Rightarrow> namespaced_name set" where
  "scheduling st = {key. \<exists>cj. st key = Some cj \<and> cj_suspend cj \<noteq> Some True}"

definition running :: "'w stores \<Rightarrow> 'w \<Rightarrow> nat" where
  "running V w = card (scaled_up (st_deployments V w)) + card (scaled_up (st_statefulsets V w)) +
     card (scheduling (st_cronjobs V w))"

lemma running_less:
  assumes "finite (dom st)" "st key = Some obj" "fst (currentReplicas obj) \<noteq> 0" "fst (currentReplicas obj') = 0"
  shows "Suc (card (scaled_up (st(key \<mapsto> obj')))) = card (scaled_up st)"
proof -
  have "scaled_up (st(key \<mapsto> obj')) = scaled_up st - {key}" using assms(4) by (auto simp: scaled_up_def)
  moreover have "key \<in> scaled_up st" using assms(2,3) by (auto simp: scaled_up_def)
  moreover have "finite (scaled_up st)"
    by (rule finite_subset [OF _ assms(1)]) (auto simp: scaled_up_def)
  ultimately show ?thesis by (metis card_Suc_Diff1)
qed

lemma scheduling_less:
  assumes "finite (dom st)" "st key = Some cj" "cj_suspend cj \<noteq> Some True" "cj_suspend cj' = Some True"
  shows "Suc (card (scheduling (st(key \<mapsto> cj')))) = card (scheduling st)"
proof -
  have "scheduling (st(key \<mapsto> cj')) = scheduling st - {key}" using assms(4) by (auto simp: scheduling_def)
  moreover have "key \<in> scheduling st" using assms(2,3) by (auto simp: scheduling_def)
  moreover have "finite (scheduling st)"
    by (rule finite_subset [OF _ assms(1)]) (auto simp: scheduling_def)
  ultimately show ?thesis by (metis card_Suc_Diff1)
qed

text \<open>A write to a workload is paid for by a workload that is running no more: at most two for each.\<close>

interpretation settling: ledger workload_write "\<lambda>w. 2 * running V w" for V
  by unfold_locales (auto simp: workload_write_def split: effect.splits)

section \<open>A cluster nobody else writes to\<close>

definition untouched :: "'w stores \<Rightarrow> ('w, 'a) state \<Rightarrow> bool" where
  "untouched V m \<longleftrightarrow> (\<forall>w. st_deployments V (snd (run_state m w)) = st_deployments V w \<and>
     st_statefulsets V (snd (run_state m w)) = st_statefulsets V w \<and> st_cronjobs V (snd (run_state m w)) = st_cronjobs V w)"

text \<open>A write changes the store of its own kind only.\<close>

definition own_kind :: "'w stores \<Rightarrow> client_object \<Rightarrow> ('w, 'a) state \<Rightarrow> bool" where
  "own_kind V obj m \<longleftrightarrow> (\<forall>w.
     (type_name obj \<noteq> ''*v1.Deployment'' \<longrightarrow> st_deployments V (snd (run_state m w)) = st_deployments V w) \<and>
     (type_name obj \<noteq> ''*v1.StatefulSet'' \<longrightarrow> st_statefulsets V (snd (run_state m w)) = st_statefulsets V w) \<and>
     (type_name obj \<noteq> ''*v1.CronJob'' \<longrightarrow> st_cronjobs V (snd (run_state m w)) = st_cronjobs V w))"

text \<open>
  Reads leave the stores alone, writes of workloads behave as in \<open>replica_store\<close> and \<open>cronjob_store\<close>,
  and with nobody else writing a policy, its status is never refused with a conflict.
\<close>

definition exclusive :: "'w env \<Rightarrow> 'w stores \<Rightarrow> bool" where
  "exclusive E V \<longleftrightarrow> retriers_ok E \<and>
     replica_store E (DeploymentObj zero_deployment) (st_deployments V) \<and>
     replica_store E (StatefulSetObj zero_statefulset) (st_statefulsets V) \<and> cronjob_store E (st_cronjobs V) \<and>
     (\<forall>w. finite (dom (st_deployments V w)) \<and> finite (dom (st_statefulsets V w)) \<and> finite (dom (st_cronjobs V w))) \<and>
     (\<forall>obj. own_kind V obj (c_update (cl E) obj) \<and> (\<forall>sc. own_kind V obj (c_updateScale (cl E) obj sc))) \<and>
     untouched V (c_now (cl E)) \<and> (\<forall>k. untouched V (c_getPolicy (cl E) k)) \<and> untouched V (c_listPolicies (cl E)) \<and>
     (\<forall>k. untouched V (c_getDeployment (cl E) k)) \<and> (\<forall>k. untouched V (c_getStatefulSet (cl E) k)) \<and>
     (\<forall>k. untouched V (c_getCronJob (cl E) k)) \<and> (\<forall>k. untouched V (c_getReplicaSet (cl E) k)) \<and>
     (\<forall>k. untouched V (c_getJob (cl E) k)) \<and> (\<forall>i v. untouched V (c_listPodsByField (cl E) i v)) \<and>
     (\<forall>ns sel. untouched V (c_listPodsBySelector (cl E) ns sel)) \<and> (\<forall>ns. untouched V (c_listPodsIn (cl E) ns)) \<and>
     (\<forall>ns. untouched V (c_listJobsIn (cl E) ns)) \<and> untouched V (c_listDeployments (cl E)) \<and>
     untouched V (c_listStatefulSets (cl E)) \<and> untouched V (c_listCronJobs (cl E)) \<and>
     (\<forall>sel. untouched V (c_listNamespaces (cl E) sel)) \<and> (\<forall>p. untouched V (c_updateStatus (cl E) p)) \<and>
     (\<forall>k w e. fst (run_state (c_getPolicy (cl E) k) w) = Inl e \<longrightarrow> \<not> IsConflict e) \<and>
     (\<forall>p w e. fst (run_state (c_updateStatus (cl E) p) w) = Inl e \<longrightarrow> \<not> IsConflict e)"

lemma exclusive_facts:
  assumes "exclusive E V"
  shows "retriers_ok E" "replica_store E (DeploymentObj zero_deployment) (st_deployments V)"
    "replica_store E (StatefulSetObj zero_statefulset) (st_statefulsets V)" "cronjob_store E (st_cronjobs V)"
    "finite (dom (st_deployments V w))" "finite (dom (st_statefulsets V w))" "finite (dom (st_cronjobs V w))"
    "own_kind V obj (c_update (cl E) obj)" "own_kind V obj (c_updateScale (cl E) obj sc)" "untouched V (c_now (cl E))"
  using assms by (simp_all add: exclusive_def)

lemma untouched_keeps: "untouched V m \<Longrightarrow> settling.keeps V m"
  unfolding settling.keeps_def by (simp add: untouched_def running_def)

lemma exclusive_calm: "exclusive E V \<Longrightarrow> settling.calm V E"
  by (simp add: exclusive_def settling.calm_def untouched_keeps)

section \<open>Stops\<close>

lemma stop_replicas_settles:
  assumes st: "replica_store E tmpl view" and ok: "retriers_ok E" and tm: "template kind = Some tmpl"
    and s: "run_state (scaleWorkloadToZero E tmpl key reason p now False) s = (r, t)"
  shows "t = s \<or> (\<exists>obj obj' ob. view (world s) key = Some obj \<and> fst (currentReplicas obj) \<noteq> 0 \<and>
     view (world t) = (view (world s))(key \<mapsto> obj') \<and> fst (currentReplicas obj') = 0 \<and> type_name ob = type_name tmpl \<and>
     trace t = trace s @ [ApiWrite (UpdateObject ob) None, ApiWrite (UpdateScale ob \<lparr>sc_replicas = 0\<rparr>) None] \<and>
     world t = snd (run_state (c_updateScale (cl E) ob \<lparr>sc_replicas = 0\<rparr>)
        (snd (run_state (c_update (cl E) ob) (world s)))) \<and> nsCache t = nsCache s)"
proof -
  have get: "run_state (getObject E tmpl key) s =
      (case view (world s) key of None \<Rightarrow> Inl NotFound | Some obj \<Rightarrow> Inr obj, s)"
    using st by (simp add: replica_store_def)
  show ?thesis
  proof (cases "view (world s) key")
    case None
    with s get show ?thesis by (simp add: scaleWorkloadToZero_def run_bindE)
  next
    case (Some obj)
    show ?thesis
    proof (cases "fst (currentReplicas obj) = 0")
      case True
      with s get Some show ?thesis
        by (auto simp: scaleWorkloadToZero_def run_bindE split: prod.splits if_splits)
    next
      case False
      let ?o = "map_meta (record_stop reason now p (fst (currentReplicas obj))) obj"
      have "like tmpl ?o key" using st Some by (intro like_map_meta) (simp_all add: replica_store_def)
      from set_replicas_facts(1) [OF tm this, of 0]
        store_stop [OF st ok tm Some refl False, where reason = reason and now = now and p = p] s Some False
      show ?thesis by auto
    qed
  qed
qed

text \<open>How a stop spends: the potential of the store it writes to falls by as much as it writes.\<close>

lemma stop_replicas_spends:
  assumes ex: "exclusive E V" and tm: "template kind = Some tmpl"
  shows "settling.spends V 0 (scaleWorkloadToZero E tmpl key reason p now False)"
proof (rule settling.spendsI)
  fix s r t assume run: "run_state (scaleWorkloadToZero E tmpl key reason p now False) s = (r, t)"
  note x = exclusive_facts [OF ex]
  let ?n = "\<lambda>w. 2 * running V w"
  obtain view where st: "replica_store E tmpl view"
    and v: "kind = ''Deployment'' \<and> view = st_deployments V \<or> kind = ''StatefulSet'' \<and> view = st_statefulsets V"
    and fin: "\<And>w. finite (dom (view w))"
    using x(2,3,5,6) tm by (auto simp: template_def split: if_splits)
  from stop_replicas_settles [OF st x(1) tm run] consider "t = s"
    | obj obj' ob where "view (world s) key = Some obj" "fst (currentReplicas obj) \<noteq> 0"
     "view (world t) = (view (world s))(key \<mapsto> obj')" "fst (currentReplicas obj') = 0" "type_name ob = type_name tmpl"
     "trace t = trace s @ [ApiWrite (UpdateObject ob) None, ApiWrite (UpdateScale ob \<lparr>sc_replicas = 0\<rparr>) None]"
     "world t = snd (run_state (c_updateScale (cl E) ob \<lparr>sc_replicas = 0\<rparr>) (snd (run_state (c_update (cl E) ob) (world s))))"
    by blast
  then show "\<exists>es. trace t = trace s @ es \<and> settling.cost es + ?n (world t) \<le> ?n (world s) + 0"
  proof cases
    case 2
    note own = x(8) [of ob, unfolded own_kind_def 2(5)] x(9) [of ob "\<lparr>sc_replicas = 0\<rparr>", unfolded own_kind_def 2(5)]
    have "st_cronjobs V (world t) = st_cronjobs V (world s)"
      "kind = ''Deployment'' \<longrightarrow> st_statefulsets V (world t) = st_statefulsets V (world s)"
      "kind = ''StatefulSet'' \<longrightarrow> st_deployments V (world t) = st_deployments V (world s)"
      using own tm unfolding 2(7) by (auto simp: template_def type_name_def split: if_splits)
    moreover have "Suc (card (scaled_up (view (world t)))) = card (scaled_up (view (world s)))"
      unfolding 2(3) by (rule running_less [OF fin 2(1,2,4)])
    ultimately have "Suc (running V (world t)) = running V (world s)" using v by (auto simp: running_def)
    then show ?thesis using 2(6) by (auto simp: settling.cost_def)
  qed simp
qed

lemma stop_dry_spends:
  assumes ex: "exclusive E V"
  shows "settling.spends V 0 (scaleDownWorkload E w reason p True)"
proof -
  note c = settling.calm_reads [OF exclusive_calm [OF ex]]
  have "settling.spends V 0 (getObject E obj key)"
    if "obj = DeploymentObj zero_deployment \<or> obj = StatefulSetObj zero_statefulset" for obj key
    unfolding getObject_def using that by (auto intro!: settling.spends_afterE settling.spends_api c settling.spends_ret)
  then have "settling.spends V 0 (scaleWorkloadToZero E obj key reason p now True)"
    if "obj = DeploymentObj zero_deployment \<or> obj = StatefulSetObj zero_statefulset" for obj key now
    unfolding scaleWorkloadToZero_def if_True using that
    by (intro settling.spends_afterE settling.spends_prod settling.spends_if settling.spends_ret) auto
  then show ?thesis
    unfolding scaleDownWorkload_def Let_def if_True
    by (intro settling.spends_after settling.spends_afterE settling.spends_time_now exclusive_calm [OF ex]
        settling.spends_if settling.spends_api c settling.spends_ret) simp_all
qed

lemma stop_cronjob_spends:
  assumes ex: "exclusive E V" and k: "ow_kind w = ''CronJob''"
  shows "settling.spends V 0 (scaleDownWorkload E w reason p False)"
proof (rule settling.spendsI)
  fix s r t assume run: "run_state (scaleDownWorkload E w reason p False) s = (r, t)"
  note x = exclusive_facts [OF ex]
  let ?n = "\<lambda>w. 2 * running V w" and ?key = "owner_key w"
  obtain n w1 where now: "run_state (c_now (cl E)) (world s) = (n, w1)" by force
  have same: "st_deployments V w1 = st_deployments V (world s)" "st_statefulsets V w1 = st_statefulsets V (world s)"
      "st_cronjobs V w1 = st_cronjobs V (world s)"
    using x(10) now unfolding untouched_def by (metis snd_conv)+
  have get: "run_state (c_getCronJob (cl E) ?key) w1 =
      (case st_cronjobs V w1 ?key of None \<Rightarrow> Inl NotFound | Some c \<Rightarrow> Inr c, w1)"
    using x(4) by (simp add: cronjob_store_def)
  show "\<exists>es. trace t = trace s @ es \<and> settling.cost es + ?n (world t) \<le> ?n (world s) + 0"
  proof (cases "\<exists>cj. st_cronjobs V (world s) ?key = Some cj \<and> cj_suspend cj \<noteq> Some True")
    case True
    then obtain cj where cj: "st_cronjobs V (world s) ?key = Some cj" "cj_suspend cj \<noteq> Some True" by blast
    obtain c now' t' where "run_state (scaleDownWorkload E w reason p False) s = (Inr True, t')"
      and c: "c = cj\<lparr>cj_suspend := Some True, cj_meta := attribute reason now' p (cj_meta cj)\<rparr>"
        "st_cronjobs V (world t') = (st_cronjobs V (world s))(?key \<mapsto> c)"
        "trace t' = trace s @ [ApiWrite (UpdateObject (CronJobObj c)) None]"
        "world t' = snd (run_state (c_update (cl E) (CronJobObj c)) (snd (run_state (c_now (cl E)) (world s))))"
      using store_suspend [OF x(4,1) k cj, of reason p] by blast
    with run have [simp]: "t' = t" by simp
    have su: "cj_suspend c = Some True" by (simp add: c(1))
    from x(8) [of "CronJobObj c"] have "st_deployments V (world t) = st_deployments V (world s)" "st_statefulsets V (world t) = st_statefulsets V (world s)"
      using same now unfolding own_kind_def c(4) [simplified] by (simp_all add: type_name_def)
    moreover have "Suc (card (scheduling (st_cronjobs V (world t)))) = card (scheduling (st_cronjobs V (world s)))"
      unfolding c(2) [simplified] by (rule scheduling_less [OF x(7) cj su])
    ultimately have "Suc (running V (world t)) = running V (world s)" by (simp add: running_def)
    then show ?thesis using c(3) by (auto simp: settling.cost_def)
  next
    case False
    then have "t = s\<lparr>world := w1\<rparr>"
      using run now get k same
      by (auto simp: scaleDownWorkload_def Let_def time_now_def run_prog split: option.splits if_splits)
    then show ?thesis using same by (simp add: running_def)
  qed
qed

lemma stop_settles:
  assumes ex: "exclusive E V"
  shows "settling.stops_within V 0 E"
  unfolding settling.stops_within_def
proof (intro allI)
  fix w reason p dry
  show "settling.spends V 0 (scaleDownWorkload E w reason p dry)"
  proof (cases "dry \<or> ow_kind w = ''CronJob''")
    case True
    then show ?thesis using stop_dry_spends [OF ex] stop_cronjob_spends [OF ex] by (cases dry) auto
  next
    case False
    have "settling.spends V 0 (scaleWorkloadToZero E (DeploymentObj zero_deployment) key reason p now False)"
      "settling.spends V 0 (scaleWorkloadToZero E (StatefulSetObj zero_statefulset) key reason p now False)" for key now
      by (rule stop_replicas_spends [OF ex, of "''Deployment''"], simp add: template_def)
        (rule stop_replicas_spends [OF ex, of "''StatefulSet''"], simp add: template_def)
    with False show ?thesis
      unfolding scaleDownWorkload_def Let_def
      by (auto intro!: settling.spends_after settling.spends_time_now exclusive_calm [OF ex] settling.spends_ret)
  qed
qed

section \<open>Status writes\<close>

lemma status_settles:
  assumes ex: "exclusive E V"
  shows "settling.writes_within V 0 E"
  by (rule settling.status_writes_free [OF exclusive_calm [OF ex] exclusive_facts(1) [OF ex]])
    (use ex in \<open>simp_all add: exclusive_def untouched_keeps\<close>)

section \<open>Any number of reconciles\<close>

text \<open>The reconciles of a work queue, one after the other; nobody changes workloads in between.\<close>

primrec after :: "'w env \<Rightarrow> (nat \<Rightarrow> namespaced_name) \<Rightarrow> nat \<Rightarrow> 'w ost \<Rightarrow> 'w ost" where
  "after E queue 0 s = s"
| "after E queue (Suc n) s = snd (run_state (Reconcile E (queue n)) (after E queue n s))"

definition workload_writes :: "effect list \<Rightarrow> nat" where
  "workload_writes es = length (filter workload_write es)"

lemma reconcile_settles:
  assumes "exclusive E V"
  shows "settling.spends V 0 (Reconcile E req)"
  using settling.spends_Reconcile [OF exclusive_calm stop_settles status_settles, OF assms assms assms, of 0] by simp

lemma after_step:
  assumes "exclusive E V"
  shows "\<exists>es. trace (after E queue (Suc n) s) = trace (after E queue n s) @ es \<and>
    workload_writes es + 2 * running V (world (after E queue (Suc n) s)) \<le> 2 * running V (world (after E queue n s))"
  using reconcile_settles [OF assms, of "queue n"]
  by (auto simp: settling.spends_def settling.cost_def workload_writes_def)

lemma after_total:
  assumes "exclusive E V"
  shows "\<exists>es. trace (after E queue n s) = trace s @ es \<and>
    workload_writes es + 2 * running V (world (after E queue n s)) \<le> 2 * running V (world s)"
proof (induction n)
  case 0
  show ?case by (simp add: workload_writes_def)
next
  case (Suc n)
  then obtain es where "trace (after E queue n s) = trace s @ es"
    "workload_writes es + 2 * running V (world (after E queue n s)) \<le> 2 * running V (world s)" by blast
  moreover obtain fs where "trace (after E queue (Suc n) s) = trace (after E queue n s) @ fs"
    "workload_writes fs + 2 * running V (world (after E queue (Suc n) s)) \<le> 2 * running V (world (after E queue n s))"
    using after_step [OF assms] by blast
  ultimately show ?case by (intro exI [of _ "es @ fs"]) (simp add: workload_writes_def)
qed

text \<open>
  C7: the operator comes to rest. While nobody else changes workloads, any sequence of reconciles, of
  any policies in any order and for pods that keep failing, sends at most two writes for every
  workload that was running at the start; so from some reconcile on none sends a write to a workload.
\<close>

theorem reconciles_come_to_rest:
  assumes "exclusive E V"
  shows "(\<forall>n. \<exists>es. trace (after E queue n s) = trace s @ es \<and> workload_writes es \<le> 2 * running V (world s)) \<and>
    (\<exists>N. \<forall>n \<ge> N. \<exists>es. trace (after E queue (Suc n) s) = trace (after E queue n s) @ es \<and> workload_writes es = 0)"
proof (intro conjI allI)
  show "\<exists>es. trace (after E queue n s) = trace s @ es \<and> workload_writes es \<le> 2 * running V (world s)" for n
    using after_total [OF assms, of queue n s] by (auto intro: le_trans [OF le_add1])
  define \<phi> where "\<phi> n = running V (world (after E queue n s))" for n
  obtain N where N: "\<phi> N \<le> \<phi> n" for n using ex_has_least_nat [of "\<lambda>_. True" 0 \<phi>] by auto
  have down: "\<phi> (Suc n) \<le> \<phi> n" for n using after_step [OF assms, of queue n s] by (auto simp: \<phi>_def)
  have "\<exists>es. trace (after E queue (Suc n) s) = trace (after E queue n s) @ es \<and> workload_writes es = 0" if "N \<le> n" for n
  proof -
    have "\<phi> n \<le> \<phi> N" using down that by (rule lift_Suc_antimono_le)
    with N [of "Suc n"] have "\<phi> n \<le> \<phi> (Suc n)" by simp
    with after_step [OF assms, of queue n s] show ?thesis by (auto simp: \<phi>_def)
  qed
  then show "\<exists>N. \<forall>n \<ge> N. \<exists>es. trace (after E queue (Suc n) s) = trace (after E queue n s) @ es \<and> workload_writes es = 0"
    by blast
qed

section \<open>The in-memory cluster\<close>

definition statefulset_view :: "cluster \<Rightarrow> namespaced_name \<rightharpoonup> client_object" where
  "statefulset_view w key = map_option StatefulSetObj (find (\<lambda>d. meta_key (sts_meta d) = key) (k_statefulsets w))"

lemma statefulset_view_put:
  "statefulset_view w key \<noteq> None \<Longrightarrow> meta_key (sts_meta d) = key \<Longrightarrow>
   statefulset_view (cluster_put (StatefulSetObj d) w) = (statefulset_view w)(key \<mapsto> StatefulSetObj d)"
  by (auto simp: statefulset_view_def cluster_put_def find_put fun_eq_iff)

lemma statefulset_view_Some:
  "statefulset_view w key = Some obj \<longleftrightarrow>
     (\<exists>d. obj = StatefulSetObj d \<and> fetch sts_meta (k_statefulsets w) key = Inr d \<and> meta_key (sts_meta d) = key)"
  by (auto simp: statefulset_view_def fetch_def split: option.splits dest: find_Some_member)

lemma like_statefulset:
  "like (StatefulSetObj zero_statefulset) obj key \<longleftrightarrow> (\<exists>d. obj = StatefulSetObj d \<and> meta_key (sts_meta d) = key)"
  by (cases obj) (auto simp: like_def type_name_def key_of_def object_meta_of_def)

lemma cluster_statefulset_store: "replica_store cluster_env (StatefulSetObj zero_statefulset) statefulset_view"
proof (unfold replica_store_def, intro conjI allI impI)
  fix w key obj stored and sc :: scale
  assume s: "statefulset_view w key = Some stored" and l: "like (StatefulSetObj zero_statefulset) obj key"
  obtain d where d: "obj = StatefulSetObj d" "meta_key (sts_meta d) = key" using l by (auto simp: like_statefulset)
  obtain d' where d': "stored = StatefulSetObj d'" "fetch sts_meta (k_statefulsets w) key = Inr d'" "meta_key (sts_meta d') = key"
    using s by (auto simp: statefulset_view_Some)
  show "\<exists>w'. run_state (c_update (cl cluster_env) obj) w = (Inr obj, w') \<and>
      statefulset_view w' = (statefulset_view w)(key \<mapsto> obj)"
    using statefulset_view_put [of w key d] s d by (auto simp: cluster_client_def)
  show "run_state (c_getScale (cl cluster_env) obj) w = (Inr \<lparr>sc_replicas = fst (currentReplicas stored)\<rparr>, w)"
    using d d' by (simp add: cluster_client_def cluster_scale_def currentReplicas_def replicas_or_1_def split: option.split)
  have "statefulset_view (cluster_put (StatefulSetObj (d'\<lparr>sts_replicas := Some (sc_replicas sc)\<rparr>)) w) =
      (statefulset_view w)(key \<mapsto> StatefulSetObj (d'\<lparr>sts_replicas := Some (sc_replicas sc)\<rparr>))"
    using s d' by (intro statefulset_view_put) auto
  then show "\<exists>w'. run_state (c_updateScale (cl cluster_env) obj sc) w = (Inr sc, w') \<and>
      statefulset_view w' = (statefulset_view w)(key \<mapsto> set_replicas (sc_replicas sc) stored)"
    using d d' by (simp add: cluster_client_def cluster_set_scale_def set_replicas_def)
next
  fix key and s :: "cluster ost"
  show "run_state (getObject cluster_env (StatefulSetObj zero_statefulset) key) s =
      (case statefulset_view (world s) key of None \<Rightarrow> Inl NotFound | Some obj \<Rightarrow> Inr obj, s)"
    by (auto simp: getObject_def run_prog cluster_client_def fetch_find statefulset_view_def split: option.splits)
qed (auto simp: cluster_client_def statefulset_view_Some like_statefulset)

definition cluster_stores :: "cluster stores" where
  "cluster_stores = \<lparr>st_deployments = deployment_view, st_statefulsets = statefulset_view, st_cronjobs = cronjob_view\<rparr>"

lemma finite_dom_find: "finite (dom (\<lambda>key. map_option g (find (\<lambda>x. k x = key) xs)))"
  by (rule finite_subset [of _ "k ` set xs"]) (auto dest: find_Some_member)

lemma finite_cluster_stores:
  "finite (dom (deployment_view w))" "finite (dom (statefulset_view w))" "finite (dom (cronjob_view w))"
  using finite_dom_find [of id] finite_dom_find
  by (simp_all add: deployment_view_def [abs_def] statefulset_view_def [abs_def] cronjob_view_def [abs_def] option.map_id)

lemma cluster_keeps:
  "deployment_view (w\<lparr>k_policies := ps\<rparr>) = deployment_view w" "statefulset_view (w\<lparr>k_policies := ps\<rparr>) = statefulset_view w"
  "cronjob_view (w\<lparr>k_policies := ps\<rparr>) = cronjob_view w"
  by (simp_all add: deployment_view_def statefulset_view_def cronjob_view_def fun_eq_iff)

lemma cluster_put_own_kind:
  "type_name obj \<noteq> ''*v1.Deployment'' \<Longrightarrow> deployment_view (cluster_put obj w) = deployment_view w"
  "type_name obj \<noteq> ''*v1.StatefulSet'' \<Longrightarrow> statefulset_view (cluster_put obj w) = statefulset_view w"
  "type_name obj \<noteq> ''*v1.CronJob'' \<Longrightarrow> cronjob_view (cluster_put obj w) = cronjob_view w"
  by (cases obj; simp add: type_name_def cluster_put_def deployment_view_def statefulset_view_def cronjob_view_def fun_eq_iff)+

lemma cluster_own_kind: "own_kind cluster_stores obj (c_update cluster_client obj)"
    "own_kind cluster_stores obj (c_updateScale cluster_client obj sc)"
  by (cases obj; auto simp: own_kind_def cluster_stores_def cluster_client_def cluster_set_scale_def
      cluster_put_own_kind type_name_def split: sum.split)+

lemma untouched_reads: "untouched V (reads f)"
  by (simp add: untouched_def)

lemma cluster_exclusive: "exclusive cluster_env cluster_stores"
proof -
  have "untouched cluster_stores (c_updateStatus cluster_client p)" for p
    by (simp add: untouched_def cluster_stores_def cluster_client_def cluster_keeps)
  moreover have "\<not> IsConflict e" if "fst (run_state (c_getPolicy cluster_client k) w) = Inl e" for k w e
    using that by (auto simp: cluster_client_def fetch_def split: option.splits)
  moreover have "\<not> IsConflict e" if "fst (run_state (c_updateStatus cluster_client p) w) = Inl e" for p w e
    using that by (simp add: cluster_client_def)
  moreover have "st_deployments cluster_stores = deployment_view" "st_statefulsets cluster_stores = statefulset_view"
    "st_cronjobs cluster_stores = cronjob_view" by (simp_all add: cluster_stores_def)
  ultimately show ?thesis
    unfolding exclusive_def
    by (simp add: cluster_retriers_ok cluster_replica_store cluster_statefulset_store cluster_cronjob_store
        finite_cluster_stores cluster_own_kind) (simp add: cluster_client_def untouched_reads)
qed

theorem reconciles_come_to_rest_witness:
  "running cluster_stores policy_cluster = 1 \<and>
   (\<forall>n. workload_writes (trace (after cluster_env (\<lambda>_. nsname [] ''pol'') n (run_in policy_cluster))) \<le> 2)"
proof -
  have "scaled_up (deployment_view policy_cluster) = {meta_key (dep_meta web_deployment)}"
    by (auto simp: scaled_up_def deployment_view_def policy_cluster_def web_cluster_def web_deployment_def currentReplicas_def)
  moreover have "scaled_up (statefulset_view policy_cluster) = {}" "scheduling (cronjob_view policy_cluster) = {}"
    by (auto simp: scaled_up_def scheduling_def statefulset_view_def cronjob_view_def policy_cluster_def web_cluster_def
        empty_cluster_def)
  ultimately have "running cluster_stores policy_cluster = 1" by (simp add: running_def cluster_stores_def)
  with reconciles_come_to_rest [OF cluster_exclusive, of "\<lambda>_. nsname [] ''pol''" "run_in policy_cluster"]
  show ?thesis by (auto simp: run_in_def)
qed

end
