(* ===== verification/Isolation.thy ===== *)
theory Isolation
  imports Settling
begin

text \<open>
  What the checks depend on and what a stop touches: while nobody else writes to workloads, stopping
  one workload leaves every answer about another workload as it was. So what a pass decides about a
  workload does not depend on what the pass did to others before.
\<close>

section \<open>Worlds in which a program answers the same\<close>

named_theorems agrees_intros \<open>programs whose answer is the same in two worlds, one rule per construct\<close>

definition agrees :: "'w \<Rightarrow> 'w \<Rightarrow> ('w, 'a) prog \<Rightarrow> bool" where
  "agrees W W' m \<longleftrightarrow> pure_read m \<and> answer m W = answer m W'"

lemma answer_bind: "pure_read m \<Longrightarrow> answer (State_Monad.bind m f) W = answer (f (answer m W)) W"
  by (simp add: answer_def [of "State_Monad.bind m f"] pure_run) (simp add: answer_def)

lemma agrees_ret [agrees_intros]: "agrees W W' (ret a)"
  by (simp add: agrees_def pure_ret answer_def)

lemma agrees_api [agrees_intros]: "still_read m \<Longrightarrow> fst (run_state m W) = fst (run_state m W') \<Longrightarrow> agrees W W' (api m)"
  by (simp add: agrees_def pure_api answer_def run_api split: prod.split) (metis fst_conv)

lemma agrees_bind [agrees_intros]:
  "agrees W W' m \<Longrightarrow> (\<And>a. agrees W W' (f a)) \<Longrightarrow> agrees W W' (State_Monad.bind m f)"
  by (simp add: agrees_def answer_bind pure_bind)

lemma agrees_sum [agrees_intros]:
  "(\<And>x. agrees W W' (f x)) \<Longrightarrow> (\<And>x. agrees W W' (g x)) \<Longrightarrow> agrees W W' (case r of Inl x \<Rightarrow> f x | Inr x \<Rightarrow> g x)"
  by (cases r) auto

lemma agrees_option [agrees_intros]:
  "agrees W W' m \<Longrightarrow> (\<And>x. agrees W W' (f x)) \<Longrightarrow> agrees W W' (case p of None \<Rightarrow> m | Some x \<Rightarrow> f x)"
  by (cases p) auto

lemma agrees_if [agrees_intros]:
  "(b \<Longrightarrow> agrees W W' m) \<Longrightarrow> (\<not> b \<Longrightarrow> agrees W W' n) \<Longrightarrow> agrees W W' (if b then m else n)"
  by simp

lemma agrees_let [agrees_intros]: "agrees W W' (f a) \<Longrightarrow> agrees W W' (Let a f)"
  by simp

lemma agrees_bindE [agrees_intros]:
  "agrees W W' m \<Longrightarrow> (\<And>a. agrees W W' (f a)) \<Longrightarrow> agrees W W' (bindE m f)"
  unfolding bindE_def by (intro agrees_intros)

text \<open>What is not about a workload a policy can stop: the clock, pods, jobs, replica sets, namespaces.\<close>

definition unmoved :: "'w env \<Rightarrow> 'w \<Rightarrow> 'w \<Rightarrow> bool" where
  "unmoved E W W' \<longleftrightarrow> fst (run_state (c_now (cl E)) W) = fst (run_state (c_now (cl E)) W') \<and>
     (\<forall>k. fst (run_state (c_getReplicaSet (cl E) k) W) = fst (run_state (c_getReplicaSet (cl E) k) W')) \<and>
     (\<forall>k. fst (run_state (c_getJob (cl E) k) W) = fst (run_state (c_getJob (cl E) k) W')) \<and>
     (\<forall>ns sel. fst (run_state (c_listPodsBySelector (cl E) ns sel) W) = fst (run_state (c_listPodsBySelector (cl E) ns sel) W')) \<and>
     (\<forall>ns. fst (run_state (c_listPodsIn (cl E) ns) W) = fst (run_state (c_listPodsIn (cl E) ns) W')) \<and>
     (\<forall>ns. fst (run_state (c_listJobsIn (cl E) ns) W) = fst (run_state (c_listJobsIn (cl E) ns) W')) \<and>
     (\<forall>sel. fst (run_state (c_listNamespaces (cl E) sel) W) = fst (run_state (c_listNamespaces (cl E) sel) W'))"

lemma unmoved_refl: "unmoved E W W"
  by (simp add: unmoved_def)

lemma unmoved_trans: "unmoved E W W' \<Longrightarrow> unmoved E W' W'' \<Longrightarrow> unmoved E W W''"
  by (simp add: unmoved_def)

text \<open>What the stores hold for a workload.\<close>

definition same_workload :: "'w stores \<Rightarrow> ownerWorkload \<Rightarrow> 'w \<Rightarrow> 'w \<Rightarrow> bool" where
  "same_workload V w W W' \<longleftrightarrow>
     (ow_kind w = ''Deployment'' \<longrightarrow> st_deployments V W (owner_key w) = st_deployments V W' (owner_key w)) \<and>
     (ow_kind w = ''StatefulSet'' \<longrightarrow> st_statefulsets V W (owner_key w) = st_statefulsets V W' (owner_key w)) \<and>
     (ow_kind w = ''CronJob'' \<longrightarrow> st_cronjobs V W (owner_key w) = st_cronjobs V W' (owner_key w))"

lemma same_workload_refl: "same_workload V w W W"
  by (simp add: same_workload_def)

lemma same_workload_trans: "same_workload V w W W' \<Longrightarrow> same_workload V w W' W'' \<Longrightarrow> same_workload V w W W''"
  by (auto simp: same_workload_def)

lemma map_sum_inject: "map_sum id f a = map_sum id f b \<Longrightarrow> inj f \<Longrightarrow> a = b"
  by (cases a; cases b) (auto dest: injD)

lemma store_reads:
  assumes "exclusive E V"
  shows "st_deployments V W key = st_deployments V W' key \<Longrightarrow>
      fst (run_state (c_getDeployment (cl E) key) W) = fst (run_state (c_getDeployment (cl E) key) W')"
    "st_statefulsets V W key = st_statefulsets V W' key \<Longrightarrow>
      fst (run_state (c_getStatefulSet (cl E) key) W) = fst (run_state (c_getStatefulSet (cl E) key) W')"
    "st_cronjobs V W key = st_cronjobs V W' key \<Longrightarrow>
      fst (run_state (c_getCronJob (cl E) key) W) = fst (run_state (c_getCronJob (cl E) key) W')"
proof -
  note x = exclusive_facts [OF assms]
  have d: "run_state (getObject E (DeploymentObj zero_deployment) key) (start_in U) =
      (case st_deployments V U key of None \<Rightarrow> Inl NotFound | Some obj \<Rightarrow> Inr obj, start_in U)" for U
    using x(2) by (simp add: replica_store_def)
  have s: "run_state (getObject E (StatefulSetObj zero_statefulset) key) (start_in U) =
      (case st_statefulsets V U key of None \<Rightarrow> Inl NotFound | Some obj \<Rightarrow> Inr obj, start_in U)" for U
    using x(3) by (simp add: replica_store_def)
  have dep: "map_sum id DeploymentObj (fst (run_state (c_getDeployment (cl E) key) U)) =
      (case st_deployments V U key of None \<Rightarrow> Inl NotFound | Some obj \<Rightarrow> Inr obj)" for U
    using d [of U] by (cases "run_state (c_getDeployment (cl E) key) U") (auto simp: getObject_def run_prog split: sum.splits)
  have sts: "map_sum id StatefulSetObj (fst (run_state (c_getStatefulSet (cl E) key) U)) =
      (case st_statefulsets V U key of None \<Rightarrow> Inl NotFound | Some obj \<Rightarrow> Inr obj)" for U
    using s [of U] by (cases "run_state (c_getStatefulSet (cl E) key) U") (auto simp: getObject_def run_prog split: sum.splits)
  show "fst (run_state (c_getDeployment (cl E) key) W) = fst (run_state (c_getDeployment (cl E) key) W')"
    if "st_deployments V W key = st_deployments V W' key"
    by (rule map_sum_inject [of DeploymentObj]) (simp_all add: dep that inj_def)
  show "fst (run_state (c_getStatefulSet (cl E) key) W) = fst (run_state (c_getStatefulSet (cl E) key) W')"
    if "st_statefulsets V W key = st_statefulsets V W' key"
    by (rule map_sum_inject [of StatefulSetObj]) (simp_all add: sts that inj_def)
  show "fst (run_state (c_getCronJob (cl E) key) W) = fst (run_state (c_getCronJob (cl E) key) W')"
    if "st_cronjobs V W key = st_cronjobs V W' key"
    using x(4) that by (simp add: cronjob_store_def)
qed

section \<open>What the checks depend on\<close>

lemma agrees_time_now: "still E \<Longrightarrow> unmoved E W W' \<Longrightarrow> agrees W W' (time_now E)"
  unfolding time_now_def by (intro agrees_intros still_reads) (simp_all add: unmoved_def)

lemma agrees_owner: "still E \<Longrightarrow> unmoved E W W' \<Longrightarrow> agrees W W' (resolveOwnerWorkload E x)"
  unfolding resolveOwnerWorkload_def by (intro agrees_intros still_reads) (simp_all add: unmoved_def)

lemma agrees_namespaces: "still E \<Longrightarrow> unmoved E W W' \<Longrightarrow> namespaces_of E p W = namespaces_of E p W'"
proof -
  assume a: "still E" "unmoved E W W'"
  then have "agrees W W' (resolveNamespaces E (NamespaceSelector (Spec p)))"
    unfolding resolveNamespaces_def by (intro agrees_intros still_reads) (simp_all add: unmoved_def)
  then show ?thesis by (simp add: namespaces_of_def agrees_def)
qed

lemma agrees_selector:
  assumes "exclusive E V" "still E" "same_workload V w W W'"
  shows "agrees W W' (selector_check E p w)"
  unfolding isWorkloadExcludedBySelector_def labels_or_missing_def
  by (intro agrees_intros still_reads store_reads [OF assms(1)] assms) (use assms(3) in \<open>simp_all add: same_workload_def\<close>)

lemma agrees_replicas:
  assumes "exclusive E V" "still E" "unmoved E W W'" "same_workload V w W W'"
  shows "agrees W W' (replicas_check E p w)"
  unfolding allReplicasFailing_def selected_pods_failing_def
  by (intro agrees_intros agrees_time_now still_reads store_reads [OF assms(1)] assms)
    (use assms(3,4) in \<open>simp_all add: same_workload_def unmoved_def\<close>)

text \<open>Whether a policy would act depends on the workload and on nothing a stop of another one changes.\<close>

lemma would_act_same:
  assumes "exclusive E V" "still E" "p \<in> ps" "inj_on pol_name ps" "unmoved E W W'" "same_workload V w W W'"
  shows "answer (policyWouldAct E p x w) W = answer (policyWouldAct E p x w) W'"
  using agrees_namespaces [OF assms(2,5), of p] agrees_time_now [OF assms(2,5)]
    agrees_selector [OF assms(1,2,6), of p] agrees_replicas [OF assms(1,2,5,6), of p]
  by (simp add: answer_would_act [OF assms(2-4)] agrees_def)

section \<open>What a stop touches\<close>

text \<open>Writes to workloads leave everything else alone.\<close>

definition workload_object :: "client_object \<Rightarrow> bool" where
  "workload_object obj \<longleftrightarrow> type_name obj \<in> {''*v1.Deployment'', ''*v1.StatefulSet'', ''*v1.CronJob''}"

definition isolated :: "'w env \<Rightarrow> bool" where
  "isolated E \<longleftrightarrow> (\<forall>W obj. workload_object obj \<longrightarrow> unmoved E W (snd (run_state (c_update (cl E) obj) W)) \<and>
     (\<forall>sc. unmoved E W (snd (run_state (c_updateScale (cl E) obj sc) W))))"

lemma workload_templates: "template kind = Some tmpl \<Longrightarrow> type_name obj = type_name tmpl \<Longrightarrow> workload_object obj"
  "workload_object (CronJobObj c)"
  by (auto simp: workload_object_def template_def type_name_def split: if_splits)

lemma still_clock: "still E \<Longrightarrow> snd (run_state (c_now (cl E)) W) = W"
  by (simp add: still_def still_read_def)

lemma pure_prod: "(\<And>x y. pure_read (f x y)) \<Longrightarrow> pure_read (case p of (x, y) \<Rightarrow> f x y)"
  by (cases p) auto

lemma pure_dry_stop:
  assumes "still E"
  shows "pure_read (scaleDownWorkload E w reason p True)"
proof -
  have get: "pure_read (getObject E (DeploymentObj zero_deployment) key)"
    "pure_read (getObject E (StatefulSetObj zero_statefulset) key)" for key
    unfolding getObject_def by (simp_all, intro pure_intros still_reads [OF assms], intro pure_intros still_reads [OF assms])
  then show ?thesis
    unfolding scaleDownWorkload_def scaleWorkloadToZero_def if_True
    by (intro pure_intros pure_prod pure_time_now still_reads get assms)
qed

text \<open>A step that works on \<open>w\<close> only.\<close>

definition touches_only :: "'w env \<Rightarrow> 'w stores \<Rightarrow> ownerWorkload \<Rightarrow> 'w ost \<Rightarrow> 'w ost \<Rightarrow> bool" where
  "touches_only E V w s t \<longleftrightarrow> unmoved E (world s) (world t) \<and>
     (\<forall>v. v \<noteq> w \<longrightarrow> same_workload V v (world s) (world t)) \<and> nsCache t = nsCache s"

lemma touches_nothing: "world t = world s \<Longrightarrow> nsCache t = nsCache s \<Longrightarrow> touches_only E V w s t"
  by (simp add: touches_only_def unmoved_refl same_workload_refl)

lemma owner_key_eq: "owner_key v = owner_key w \<longleftrightarrow> ow_namespace v = ow_namespace w \<and> ow_name v = ow_name w"
  by (simp add: nsname_def)

lemma isolated_stop:
  "isolated E \<Longrightarrow> workload_object ob \<Longrightarrow>
   unmoved E W (snd (run_state (c_updateScale (cl E) ob sc) (snd (run_state (c_update (cl E) ob) W))))"
  unfolding isolated_def by (blast intro: unmoved_trans)

lemma replicas_stop_touches:
  assumes ex: "exclusive E V" and iso: "isolated E" and tm: "template (ow_kind w) = Some tmpl"
    and zero: "run_state (scaleWorkloadToZero E tmpl (owner_key w) reason p now False) s = (r, t)"
  shows "touches_only E V w s t"
proof -
  note x = exclusive_facts [OF ex]
  let ?view = "if ow_kind w = ''Deployment'' then st_deployments V else st_statefulsets V"
  have store: "replica_store E tmpl ?view" using x(2,3) tm by (auto simp: template_def split: if_splits)
  from stop_replicas_settles [OF store x(1) tm zero] show ?thesis
  proof (elim disjE exE conjE)
    fix obj' ob
    assume v: "?view (world t) = (?view (world s))(owner_key w \<mapsto> obj')" and k: "type_name ob = type_name tmpl"
      and wt: "world t = snd (run_state (c_updateScale (cl E) ob \<lparr>sc_replicas = 0\<rparr>) (snd (run_state (c_update (cl E) ob) (world s))))"
      and ns: "nsCache t = nsCache s"
    note own = x(8) [of ob, unfolded own_kind_def k] x(9) [of ob "\<lparr>sc_replicas = 0\<rparr>", unfolded own_kind_def k]
    have rest: "st_cronjobs V (world t) = st_cronjobs V (world s)"
      "ow_kind w = ''Deployment'' \<longrightarrow> st_statefulsets V (world t) = st_statefulsets V (world s)"
      "ow_kind w = ''StatefulSet'' \<longrightarrow> st_deployments V (world t) = st_deployments V (world s)"
      using own tm unfolding wt by (auto simp: template_def type_name_def split: if_splits)
    have "same_workload V v (world s) (world t)" if "v \<noteq> w" for v
      using rest v tm owner_key_eq [of v w] that unfolding same_workload_def by (auto simp: template_def split: if_splits)
    moreover have "unmoved E (world s) (world t)" unfolding wt by (rule isolated_stop [OF iso workload_templates(1) [OF tm k]])
    ultimately show ?thesis using ns by (simp add: touches_only_def)
  qed (simp add: touches_nothing)
qed

lemma cronjob_stop_touches:
  assumes ex: "exclusive E V" and st: "still E" and iso: "isolated E" and k: "ow_kind w = ''CronJob''"
    and run: "run_state (scaleDownWorkload E w reason p False) s = (r, t)"
  shows "touches_only E V w s t"
proof (cases "\<exists>cj. st_cronjobs V (world s) (owner_key w) = Some cj \<and> cj_suspend cj \<noteq> Some True")
  note x = exclusive_facts [OF ex]
  case True
  then obtain cj where cj: "st_cronjobs V (world s) (owner_key w) = Some cj" "cj_suspend cj \<noteq> Some True" by blast
  obtain c t' where c: "run_state (scaleDownWorkload E w reason p False) s = (Inr True, t')"
      "st_cronjobs V (world t') = (st_cronjobs V (world s))(owner_key w \<mapsto> c)"
      "world t' = snd (run_state (c_update (cl E) (CronJobObj c)) (snd (run_state (c_now (cl E)) (world s))))" "nsCache t' = nsCache s"
    using store_suspend [OF x(4,1) k cj, of reason p] by blast
  have t': "t' = t" using c(1) run by simp
  note wt = c(3) [unfolded t' still_clock [OF st]]
  have "st_deployments V (world t) = st_deployments V (world s)" "st_statefulsets V (world t) = st_statefulsets V (world s)"
    using x(8) [of "CronJobObj c"] unfolding own_kind_def wt by (simp_all add: type_name_def)
  then have "same_workload V v (world s) (world t)" if "v \<noteq> w" for v
    using c(2) [unfolded t'] owner_key_eq [of v w] that k unfolding same_workload_def by auto
  moreover have "unmoved E (world s) (world t)" using iso workload_templates(2) unfolding wt isolated_def by blast
  ultimately show ?thesis using c(4) t' by (simp add: touches_only_def)
next
  note x = exclusive_facts [OF ex]
  case False
  have "run_state (c_getCronJob (cl E) (owner_key w)) (world s) =
      (case st_cronjobs V (world s) (owner_key w) of None \<Rightarrow> Inl NotFound | Some c \<Rightarrow> Inr c, world s)"
    using x(4) by (simp add: cronjob_store_def)
  with False have "world t = world s" "nsCache t = nsCache s"
    using run pure_run [OF pure_time_now [OF st], of s] k
    by (auto simp: scaleDownWorkload_def Let_def run_prog split: option.splits if_splits)+
  then show ?thesis by (rule touches_nothing)
qed

lemma stop_touches:
  assumes ex: "exclusive E V" and st: "still E" and iso: "isolated E"
    and run: "run_state (scaleDownWorkload E w reason p dry) s = (r, t)"
  shows "touches_only E V w s t"
proof -
  obtain n where now: "run_state (time_now E) s = (n, s)" using pure_run [OF pure_time_now [OF st]] by blast
  consider (dry) dry | (scaled) tmpl where "\<not> dry" "template (ow_kind w) = Some tmpl" | (cron) "\<not> dry" "ow_kind w = ''CronJob''"
    | (other) "\<not> dry" "template (ow_kind w) = None" "ow_kind w \<noteq> ''CronJob''"
    by (cases "template (ow_kind w)") auto
  then show ?thesis
  proof cases
    case dry
    then have "t = s" using run pure_run [OF pure_dry_stop [OF st], of w reason p s] by simp
    then show ?thesis by (simp add: touches_nothing)
  next
    case scaled
    then show ?thesis
      using run now by (intro replicas_stop_touches [OF ex iso scaled(2)]) (simp add: scaleDownWorkload_template [OF scaled(2)])
  next
    case cron
    then show ?thesis using run by (intro cronjob_stop_touches [OF ex st iso]) simp_all
  next
    case other
    then show ?thesis using run now
      by (intro touches_nothing) (auto simp: scaleDownWorkload_def template_def Let_def split: if_splits)
  qed
qed

section \<open>The in-memory cluster\<close>

lemma cluster_isolated: "isolated cluster_env"
proof -
  have "unmoved cluster_env W (cluster_put obj W)" if "workload_object obj" for obj W
    using that by (cases obj) (simp_all add: unmoved_def cluster_client_def cluster_put_def workload_object_def type_name_def)
  moreover have "unmoved cluster_env W (snd (run_state (c_updateScale cluster_client obj sc) W))" if "workload_object obj" for obj sc W
    using that by (cases obj)
      (auto simp: unmoved_def cluster_client_def cluster_set_scale_def cluster_put_def workload_object_def type_name_def split: sum.split)
  ultimately show ?thesis by (simp add: isolated_def) (simp add: cluster_client_def)
qed

end
