(* ===== verification/Completion.thy ===== *)
theory Completion
  imports Isolation
begin

text \<open>
  The other half of coming to rest: a failing workload does get stopped. A pass works on pods of many
  workloads and changes the world while it goes; the policy that is foremost for a workload still
  stops it, whatever happened before in the same pass, and what follows the pass leaves it stopped.
\<close>

section \<open>One pod\<close>

text \<open>
  A part of the loop body either ends with nothing changed but the cache, or comes to the rest \<open>k\<close> of
  it in a state that differs in the cache only.
\<close>

definition comes_to ::
  "'w env \<Rightarrow> CrashLoopPolicy set \<Rightarrow> loop_state \<Rightarrow> ('w, loop_state) prog \<Rightarrow> 'w ost \<Rightarrow> loop_state \<Rightarrow> 'w ost \<Rightarrow> bool" where
  "comes_to E ps ls k s ls' t \<longleftrightarrow> (recached E ps s t \<and> processed ls' = processed ls) \<or>
     (\<exists>u. recached E ps s u \<and> run_state k u = (ls', t))"

lemma comes_to_trans:
  assumes "comes_to E ps ls k s ls' t"
    and "\<And>u. coherent E ps u \<Longrightarrow> run_state k u = (ls', t) \<Longrightarrow> comes_to E ps ls k' u ls' t"
  shows "comes_to E ps ls k' s ls' t"
  using assms unfolding comes_to_def by (meson recached_trans recached_coherent)

lemma or_count_comes:
  assumes "run_state (or_count ls m f) s = (ls', t)" "answers E ps m" "coherent E ps s" "\<And>a. f a = ret ls \<or> f a = k"
  shows "comes_to E ps ls k s ls' t"
proof -
  obtain u where m: "run_state m s = (answer m (world s), u)" "recached E ps s u" using answersD [OF assms(2,3)] by blast
  show ?thesis
  proof (cases "answer m (world s)")
    case (Inl e)
    with m assms(1) show ?thesis by (auto simp: run_or_count comes_to_def)
  next
    case (Inr a)
    with m assms(1) have "run_state (f a) u = (ls', t)" by (simp add: run_or_count)
    with assms(4) [of a] m(2) show ?thesis unfolding comes_to_def by (metis run_ret prod.inject)
  qed
qed

lemma act_on_comes:
  assumes st: "still E" and inj: "inj_on pol_name (set policies)" and s: "coherent E (set policies) s"
    and r: "run_state (act_on E q policies x w reason ls) s = (ls', t)"
  shows "comes_to E (set policies) ls (stop_and_report E q w reason ls) s ls' t"
proof -
  let ?k2 = "or_count ls (winningPolicy E policies x w) (\<lambda>winner.
     if (case winner of None \<Rightarrow> False | Some p \<Rightarrow> pol_name p \<noteq> pol_name q) then ret ls
     else stop_and_report E q w reason ls)"
  let ?k1 = "or_count ls (replicas_check E q w) (\<lambda>b. if \<not> b then ret ls else ?k2)"
  have "comes_to E (set policies) ls ?k1 s ls' t"
    using r unfolding act_on_def by (rule or_count_comes [OF _ answers_pure [OF pure_checks(1) [OF st]] s]) auto
  moreover have "comes_to E (set policies) ls ?k2 u ls' t" if "coherent E (set policies) u" "run_state ?k1 u = (ls', t)" for u
    using that(2) by (rule or_count_comes [OF _ answers_pure [OF pure_checks(2) [OF st]] that(1)]) auto
  moreover have "comes_to E (set policies) ls (stop_and_report E q w reason ls) u ls' t"
    if "coherent E (set policies) u" "run_state ?k2 u = (ls', t)" for u
    using that(2) by (rule or_count_comes [OF _ answers_winningPolicy [OF st inj] that(1)]) auto
  ultimately show ?thesis by (meson comes_to_trans)
qed

text \<open>A step of a pass that works on workload \<open>v\<close> and leaves a coherent cache.\<close>

definition works_on ::
  "'w env \<Rightarrow> 'w stores \<Rightarrow> CrashLoopPolicy set \<Rightarrow> ownerWorkload \<Rightarrow> 'w ost \<Rightarrow> 'w ost \<Rightarrow> bool" where
  "works_on E V ps v s t \<longleftrightarrow> unmoved E (world s) (world t) \<and>
     (\<forall>w. w \<noteq> v \<longrightarrow> same_workload V w (world s) (world t)) \<and> coherent E ps t"

lemma works_on_recached: "recached E ps s t \<Longrightarrow> works_on E V ps v s t"
  by (simp add: works_on_def recached_def unmoved_refl same_workload_refl)

lemma works_on_after: "recached E ps s u \<Longrightarrow> works_on E V ps v u t \<Longrightarrow> works_on E V ps v s t"
  by (simp add: works_on_def recached_def)

lemma coherent_moved:
  assumes "still E" "coherent E ps s" "unmoved E (world s) (world t)" "nsCache t = nsCache s"
  shows "coherent E ps t"
  using assms agrees_namespaces [OF assms(1,3)] by (simp add: coherent_def)

lemma stop_and_report_works:
  assumes ex: "exclusive E V" and st: "still E" and iso: "isolated E" and s: "coherent E ps s"
    and r: "run_state (stop_and_report E q v reason ls) s = (ls', t)"
  shows "processed ls' = processed ls \<and> works_on E V ps v s t"
proof -
  obtain b u where u: "run_state (scaleDownWorkload E v (scale_reason reason q) (pol_name q) (effectiveDryRun q)) s = (b, u)" by force
  with r have t: "world t = world u" "nsCache t = nsCache u" "processed ls' = processed ls"
    by (cases b; auto simp: stop_and_report_def run_or_count split: if_splits)+
  with stop_touches [OF ex st iso u] coherent_moved [OF st s, of t] show ?thesis
    by (simp add: works_on_def touches_only_def)
qed

lemma act_on_works:
  assumes "exclusive E V" "still E" "isolated E" "inj_on pol_name (set policies)" "coherent E (set policies) s"
    and r: "run_state (act_on E q policies x v reason ls) s = (ls', t)"
  shows "processed ls' = processed ls \<and> works_on E V (set policies) v s t"
  using act_on_comes [OF assms(2,4,5) r] unfolding comes_to_def
  by (auto intro: works_on_recached works_on_after dest: stop_and_report_works [OF assms(1-3) recached_coherent])

text \<open>What a pod leaves: everything as it was, or one workload handled that was not handled before.\<close>

definition handles_one ::
  "'w env \<Rightarrow> 'w stores \<Rightarrow> CrashLoopPolicy set \<Rightarrow> pod \<Rightarrow> loop_state \<Rightarrow> 'w ost \<Rightarrow> loop_state \<Rightarrow> 'w ost \<Rightarrow> bool" where
  "handles_one E V ps x ls s ls' t \<longleftrightarrow>
     (\<exists>v. answer (resolveOwnerWorkload E x) (world s) = Inr (Some v) \<and> workloadKey v \<notin> processed ls \<and>
        processed ls' = insert (workloadKey v) (processed ls) \<and> works_on E V ps v s t)"

lemma pod_step_outcome:
  assumes ex: "exclusive E V" and st: "still E" and iso: "isolated E" and inj: "inj_on pol_name (set policies)"
    and s: "coherent E (set policies) s"
    and r: "run_state (pod_step E q policies a now x ls) s = (ls', t)"
  shows "(recached E (set policies) s t \<and> processed ls' = processed ls) \<or> handles_one E V (set policies) x ls s ls' t"
proof -
  note clock = pure_run [OF pure_time_now [OF st], of s]
    and owner = pure_run [OF pure_resolveOwnerWorkload [OF st], of x s]
  consider (acts) reason v where "answer (resolveOwnerWorkload E x) (world s) = Inr (Some v)" "workloadKey v \<notin> processed ls"
      "run_state (act_on E q policies x v reason (ls\<lparr>processed := insert (workloadKey v) (processed ls)\<rparr>)) s = (ls', t)"
    | (passes) "t = s" "processed ls' = processed ls"
    using r clock owner by (auto simp: pod_step_def run_or_count split: if_splits gate.splits sum.splits option.splits)
  then show ?thesis
  proof cases
    case acts
    from act_on_works [OF ex st iso inj s acts(3)] acts(1,2) show ?thesis by (auto simp: handles_one_def)
  next
    case passes
    then show ?thesis using recached_refl [OF s] by simp
  qed
qed

section \<open>A pass over pods of many workloads\<close>

lemma owner_of_pod:
  assumes "still E" "answer (resolveOwnerWorkload E x) W = Inr (Some v)"
  shows "ow_namespace v = om_namespace (pod_meta x) \<and> CHR ''/'' \<notin> set (ow_kind v)"
proof -
  have "fst (run_state (resolveOwnerWorkload E x) (start_in W)) = Inr (Some v)" using assms(2) by (simp add: answer_def)
  then show ?thesis
    by (auto simp: resolveOwnerWorkload_def owner_if_kind_def run_prog Let_def split: if_splits option.splits sum.splits prod.splits)
qed

text \<open>
  Pods that cannot make the pass stop \<open>w\<close>: it was handled, or the pod is another workload's, or the
  policy would not act for the pod.
\<close>

definition passes_by ::
  "'w env \<Rightarrow> CrashLoopPolicy \<Rightarrow> ownerWorkload \<Rightarrow> 'w \<Rightarrow> loop_state \<Rightarrow> pod \<Rightarrow> bool" where
  "passes_by E q w W ls x \<longleftrightarrow> workloadKey w \<in> processed ls \<or>
     answer (resolveOwnerWorkload E x) W \<noteq> Inr (Some w) \<and> CHR ''/'' \<notin> set (om_namespace (pod_meta x)) \<and>
       CHR ''/'' \<notin> set (ow_namespace w) \<and> CHR ''/'' \<notin> set (ow_kind w) \<or>
     answer (policyWouldAct E q x w) W \<noteq> Inr True \<and> (\<exists>x0. answer (policyWouldAct E q x0 w) W = Inr True)"

text \<open>States of a pass that agree with world \<open>W\<close> on everything said about \<open>w\<close>.\<close>

definition about ::
  "'w env \<Rightarrow> 'w stores \<Rightarrow> CrashLoopPolicy set \<Rightarrow> ownerWorkload \<Rightarrow> 'w \<Rightarrow> 'w ost \<Rightarrow> bool" where
  "about E V ps w W s \<longleftrightarrow> coherent E ps s \<and> unmoved E W (world s) \<and> same_workload V w W (world s)"

lemma passes_by_other:
  assumes "still E" "passes_by E q w W ls x" "answer (resolveOwnerWorkload E x) W = Inr (Some v)" "workloadKey v \<notin> processed ls"
    and "\<not> (answer (policyWouldAct E q x w) W \<noteq> Inr True \<and> (\<exists>x0. answer (policyWouldAct E q x0 w) W = Inr True))"
  shows "v \<noteq> w \<and> workloadKey v \<noteq> workloadKey w"
proof (cases "workloadKey w \<in> processed ls")
  case True
  then show ?thesis using assms(4) by auto
next
  case False
  then have "v \<noteq> w" "CHR ''/'' \<notin> set (om_namespace (pod_meta x))" "CHR ''/'' \<notin> set (ow_namespace w)" "CHR ''/'' \<notin> set (ow_kind w)"
    using assms(2,3,5) by (auto simp: passes_by_def)
  with workloadKey_injective [of v w] owner_of_pod [OF assms(1,3)] show ?thesis by auto
qed

lemma about_works: "about E V ps w W s \<Longrightarrow> works_on E V ps v s t \<Longrightarrow> v \<noteq> w \<Longrightarrow> about E V ps w W t"
  unfolding about_def works_on_def by (metis unmoved_trans same_workload_trans)

lemma about_recached: "about E V ps w W s \<Longrightarrow> recached E ps s t \<Longrightarrow> about E V ps w W t"
  by (simp add: about_def recached_def)

lemma pass_by_step:
  assumes ex: "exclusive E V" and st: "still E" and iso: "isolated E" and inj: "inj_on pol_name (set policies)"
    and q: "q \<in> set policies" "namespaces_of E q W = Inr a"
    and s: "about E V (set policies) w W s" and x: "passes_by E q w W ls x"
    and r: "run_state (pod_step E q policies a (answer (time_now E) W) x ls) s = (ls', t)"
  shows "about E V (set policies) w W t \<and> (workloadKey w \<in> processed ls' \<longleftrightarrow> workloadKey w \<in> processed ls)"
proof -
  have c: "coherent E (set policies) s" and u: "unmoved E W (world s)" and sw: "same_workload V w W (world s)"
    using s by (simp_all add: about_def)
  have now: "answer (time_now E) W = answer (time_now E) (world s)"
    and owner: "answer (resolveOwnerWorkload E x) W = answer (resolveOwnerWorkload E x) (world s)"
    and ns: "namespaces_of E q (world s) = Inr a"
    using agrees_time_now [OF st u] agrees_owner [OF st u] agrees_namespaces [OF st u, of q] q(2) by (simp_all add: agrees_def)
  note same = would_act_same [OF ex st q(1) inj u sw]
  show ?thesis
  proof (cases "answer (policyWouldAct E q x w) W \<noteq> Inr True \<and> (\<exists>x0. answer (policyWouldAct E q x0 w) W = Inr True)")
    case True
    then obtain x0 where yes: "answer (policyWouldAct E q x0 w) (world s) = Inr True"
      and no: "answer (policyWouldAct E q x w) (world s) \<noteq> Inr True" using same by auto
    from other_pod_passed_over [OF st inj q(1) yes no ns refl, of ls] r s show ?thesis by (auto simp: now)
  next
    case False
    from pod_step_outcome [OF ex st iso inj c r] passes_by_other [OF st x _ _ False] s show ?thesis
      unfolding handles_one_def owner by (auto intro: about_recached about_works)
  qed
qed

lemma pass_by_loop:
  assumes "exclusive E V" "still E" "isolated E" "inj_on pol_name (set policies)"
    and "q \<in> set policies" "namespaces_of E q W = Inr a"
  shows "about E V (set policies) w W s \<Longrightarrow> \<forall>x \<in> set xs. passes_by E q w W ls x \<Longrightarrow>
    run_state (pod_loop E q policies a (answer (time_now E) W) xs ls) s = (ls', t) \<Longrightarrow>
    about E V (set policies) w W t \<and> (workloadKey w \<in> processed ls' \<longleftrightarrow> workloadKey w \<in> processed ls)"
proof (induction xs arbitrary: ls s)
  case (Cons x xs)
  obtain l u where step: "run_state (pod_step E q policies a (answer (time_now E) W) x ls) s = (l, u)" by force
  from pass_by_step [OF assms Cons.prems(1) _ step] Cons.prems(2)
  have l: "about E V (set policies) w W u" "workloadKey w \<in> processed l \<longleftrightarrow> workloadKey w \<in> processed ls" by auto
  have "\<forall>x \<in> set xs. passes_by E q w W l x" using Cons.prems(2) l(2) by (auto simp: passes_by_def)
  from Cons.IH [OF l(1) this] Cons.prems(3) step l(2) show ?case by simp
qed simp

text \<open>The workload is there and runs; it is stopped with policy \<open>p\<close> named on it.\<close>

definition runs :: "'w stores \<Rightarrow> ownerWorkload \<Rightarrow> 'w \<Rightarrow> bool" where
  "runs V w W \<longleftrightarrow>
     (ow_kind w = ''Deployment'' \<and>
        (\<exists>obj. st_deployments V W (owner_key w) = Some obj \<and> 0 <s fst (currentReplicas obj))) \<or>
     (ow_kind w = ''StatefulSet'' \<and>
        (\<exists>obj. st_statefulsets V W (owner_key w) = Some obj \<and> 0 <s fst (currentReplicas obj))) \<or>
     (ow_kind w = ''CronJob'' \<and> (\<exists>cj. st_cronjobs V W (owner_key w) = Some cj \<and> cj_suspend cj \<noteq> Some True))"

definition stopped :: "'w stores \<Rightarrow> string \<Rightarrow> ownerWorkload \<Rightarrow> 'w \<Rightarrow> bool" where
  "stopped V p w W \<longleftrightarrow>
     (ow_kind w = ''Deployment'' \<and> (\<exists>obj. st_deployments V W (owner_key w) = Some obj \<and>
        fst (currentReplicas obj) = 0 \<and> ann obj AnnotationScaledDownBy = Some p)) \<or>
     (ow_kind w = ''StatefulSet'' \<and> (\<exists>obj. st_statefulsets V W (owner_key w) = Some obj \<and>
        fst (currentReplicas obj) = 0 \<and> ann obj AnnotationScaledDownBy = Some p)) \<or>
     (ow_kind w = ''CronJob'' \<and> (\<exists>cj. st_cronjobs V W (owner_key w) = Some cj \<and>
        cj_suspend cj = Some True \<and> ann (CronJobObj cj) AnnotationScaledDownBy = Some p))"

lemma same_runs: "same_workload V w W W' \<Longrightarrow> runs V w W = runs V w W'"
  by (simp add: same_workload_def runs_def cong: conj_cong)

lemma same_stopped: "same_workload V w W W' \<Longrightarrow> stopped V p w W = stopped V p w W'"
  by (simp add: same_workload_def stopped_def cong: conj_cong)

text \<open>Stopping a workload that runs, whatever its kind.\<close>

lemma stop_running:
  assumes ex: "exclusive E V" and w: "runs V w (world s)"
  shows "\<exists>t. run_state (scaleDownWorkload E w reason p False) s = (Inr True, t) \<and> stopped V p w (world t)"
proof -
  note x = exclusive_facts [OF ex]
  consider (dep) obj where "ow_kind w = ''Deployment''" "st_deployments V (world s) (owner_key w) = Some obj" "0 <s fst (currentReplicas obj)"
    | (sts) obj where "ow_kind w = ''StatefulSet''" "st_statefulsets V (world s) (owner_key w) = Some obj" "0 <s fst (currentReplicas obj)"
    | (cron) cj where "ow_kind w = ''CronJob''" "st_cronjobs V (world s) (owner_key w) = Some cj" "cj_suspend cj \<noteq> Some True"
    using w unfolding runs_def by blast
  then show ?thesis
  proof cases
    case dep
    from store_stop_workload [OF x(2,1) _ dep(2) refl dep(3), of reason p] dep(1)
    show ?thesis by (fastforce simp: stopped_def template_def)
  next
    case sts
    from store_stop_workload [OF x(3,1) _ sts(2) refl sts(3), of reason p] sts(1)
    show ?thesis by (fastforce simp: stopped_def template_def)
  next
    case cron
    from store_suspend [OF x(4,1) cron, of reason p] cron(1)
    show ?thesis by (fastforce simp: stopped_def ann_def object_meta_of_def attribute_def)
  qed
qed

definition pods_of :: "'w env \<Rightarrow> 'w \<Rightarrow> ownerWorkload \<Rightarrow> pod list \<Rightarrow> pod list" where
  "pods_of E W w xs = filter (\<lambda>x. answer (resolveOwnerWorkload E x) W = Inr (Some w)) xs"

lemma still_foremost:
  assumes ex: "exclusive E V" and st: "still E" and inj: "inj_on pol_name (set policies)"
    and u: "about E V (set policies) w W u"
    and f: "foremost E policies (pods_of E W w xs) w W q" "all_checkable E policies (pods_of E W w xs) w W"
    and x: "x \<in> set (pods_of E W w xs)" "answer (policyWouldAct E q x w) W = Inr True"
  shows "answer (winningPolicy E policies x w) (world u) = Inr (Some q)"
    "answer (resolveOwnerWorkload E x) (world u) = Inr (Some w)"
proof -
  have um: "unmoved E W (world u)" and sw: "same_workload V w W (world u)" using u by (simp_all add: about_def)
  have q: "q \<in> set policies" using f(1) by (simp add: foremost_def)
  note same = would_act_same [OF ex st _ inj um sw]
  have acts: "acts_for E (pods_of E W w xs) w (world u) p \<longleftrightarrow> acts_for E (pods_of E W w xs) w W p" if "p \<in> set policies" for p
    by (simp add: acts_for_def same [OF that])
  have "foremost E policies (pods_of E W w xs) w (world u) q" using f(1) q by (simp add: foremost_def acts)
  moreover have "all_checkable E policies (pods_of E W w xs) w (world u)"
    using f(2) by (simp add: all_checkable_def same [symmetric])
  moreover have "answer (policyWouldAct E q x w) (world u) = Inr True" using same [OF q] x(2) by simp
  ultimately show "answer (winningPolicy E policies x w) (world u) = Inr (Some q)"
    using foremost_wins [OF st inj] x(1) by blast
  show "answer (resolveOwnerWorkload E x) (world u) = Inr (Some w)"
    using agrees_owner [OF st um, of x] x(1) by (simp add: agrees_def pods_of_def)
qed

text \<open>The pass of the foremost policy stops the workload, whatever else it does.\<close>

lemma pass_stops_workload:
  assumes ex: "exclusive E V" and st: "still E" and iso: "isolated E" and inj: "inj_on pol_name (set policies)"
    and f: "foremost E policies (pods_of E W w xs) w W q" "all_checkable E policies (pods_of E W w xs) w W"
    and live: "\<not> effectiveDryRun q" and a: "namespaces_of E q W = Inr a" and v: "runs V w W"
    and slash: "CHR ''/'' \<notin> set (ow_namespace w)" "\<forall>x \<in> set xs. CHR ''/'' \<notin> set (om_namespace (pod_meta x))"
    and s: "coherent E (set policies) s" "world s = W" "workloadKey w \<notin> processed ls"
    and r: "run_state (pod_loop E q policies a (answer (time_now E) W) xs ls) s = (ls', t)"
  shows "stopped V (pol_name q) w (world t)"
proof -
  let ?now = "answer (time_now E) W"
  let ?P = "\<lambda>x. answer (resolveOwnerWorkload E x) W = Inr (Some w) \<and> answer (policyWouldAct E q x w) W = Inr True"
  have q: "q \<in> set policies" and "\<exists>x \<in> set xs. ?P x" using f(1) by (auto simp: foremost_def acts_for_def pods_of_def)
  then obtain ys x zs where xs: "xs = ys @ x # zs" "?P x" "\<forall>y \<in> set ys. \<not> ?P y"
    using split_list_first_prop [of xs ?P] by blast
  have kind: "CHR ''/'' \<notin> set (ow_kind w)" using v by (auto simp: runs_def)
  note by_loop = pass_by_loop [OF ex st iso inj q]
  obtain l u where 1: "run_state (pod_loop E q policies a ?now ys ls) s = (l, u)" by force
  obtain l2 u2 where 2: "run_state (pod_step E q policies a ?now x l) u = (l2, u2)" by force
  have 3: "run_state (pod_loop E q policies a ?now zs l2) u2 = (ls', t)" using r 1 2 by (simp add: xs(1) pod_loop_append)
  have "about E V (set policies) w W s" using s by (simp add: about_def unmoved_refl same_workload_refl)
  moreover have "\<forall>y \<in> set ys. passes_by E q w W ls y" using xs slash kind by (auto simp: passes_by_def)
  ultimately have u: "about E V (set policies) w W u" "workloadKey w \<notin> processed l" using by_loop [OF a] 1 s(3) by blast+
  have now: "answer (time_now E) (world u) = ?now" and ns: "namespaces_of E q (world u) = Inr a"
    and c: "coherent E (set policies) u"
    using u(1) agrees_time_now [OF st, of W "world u"] agrees_namespaces [OF st, of W "world u" q] a
    by (simp_all add: about_def agrees_def)
  have win: "answer (winningPolicy E policies x w) (world u) = Inr (Some q)"
    and owner: "answer (resolveOwnerWorkload E x) (world u) = Inr (Some w)"
    using still_foremost [OF ex st inj u(1) f] xs by (auto simp: pods_of_def)
  obtain u1 reason where step: "recached E (set policies) u u1"
      "run_state (stop_and_report E q w reason (l\<lparr>processed := insert (workloadKey w) (processed l)\<rparr>)) u1 = (l2, u2)"
    using winner_stops [OF st inj win owner c refl u(2) ns] 2 now by metis
  have "runs V w (world u1)" using same_runs u(1) v step(1) unfolding about_def recached_def by metis
  from stop_running [OF ex this] obtain y where
    y: "run_state (scaleDownWorkload E w (scale_reason reason q) (pol_name q) (effectiveDryRun q)) u1 = (Inr True, y)"
      "stopped V (pol_name q) w (world y)" using live by auto
  from stop_and_report_acted [OF y(1), of "l\<lparr>processed := insert (workloadKey w) (processed l)\<rparr>"] y(2) step(2)
  have stop: "workloadKey w \<in> processed l2" "stopped V (pol_name q) w (world u2)" by auto
  have u2: "coherent E (set policies) u2" "unmoved E W (world u2)"
    using pod_step_outcome [OF ex st iso inj c 2] c u(1)
    by (auto simp: about_def handles_one_def works_on_def recached_def intro: unmoved_trans)
  have "about E V (set policies) w (world u2) u2" "\<forall>x \<in> set zs. passes_by E q w (world u2) l2 x"
    using u2(1) stop(1) by (auto simp: about_def passes_by_def unmoved_refl same_workload_refl)
  note rest = this
  have now2: "?now = answer (time_now E) (world u2)" and ns2: "namespaces_of E q (world u2) = Inr a"
    using agrees_time_now [OF st u2(2)] agrees_namespaces [OF st u2(2), of q] a by (simp_all add: agrees_def)
  from by_loop [OF ns2 rest 3 [unfolded now2]] have "same_workload V w (world u2) (world t)" by (simp add: about_def)
  from same_stopped [OF this] stop(2) show ?thesis by simp
qed

section \<open>What follows the pass\<close>

text \<open>That a workload is stopped is a potential that costs nothing to keep.\<close>

interpretation holding: ledger "\<lambda>_. False" "\<lambda>W. if stopped V p w W then 0 else 1" for V p w
  by unfold_locales simp

lemma untouched_holds: "untouched V m \<Longrightarrow> holding.keeps V p w m"
  unfolding holding.keeps_def by (simp add: untouched_def stopped_def)

lemma finish_keeps_stopped:
  assumes ex: "exclusive E V" and s: "stopped V p w (world s)" and r: "run_state (finish E q a st) s = (d, t)"
  shows "stopped V p w (world t)"
proof -
  have calm: "holding.calm V p w E" using ex by (simp add: exclusive_def holding.calm_def untouched_holds)
  have "holding.writes_within V p w 0 E"
    by (rule holding.status_writes_free [OF calm exclusive_facts(1) [OF ex]])
      (use ex in \<open>simp_all add: exclusive_def untouched_holds\<close>)
  from holding.spendsD [OF holding.spends_finish [OF calm this] r] s show ?thesis by (auto split: if_splits)
qed

section \<open>A reconcile\<close>

text \<open>What a reconcile of a policy that has been seen before reads in world \<open>W\<close>.\<close>

definition reads_pass ::
  "'w env \<Rightarrow> namespaced_name \<Rightarrow> 'w \<Rightarrow> CrashLoopPolicy \<Rightarrow> CrashLoopPolicy list \<Rightarrow> string set option \<Rightarrow> pod list \<Rightarrow> bool" where
  "reads_pass E req W q policies a xs \<longleftrightarrow>
     fst (run_state (c_getPolicy (cl E) req) W) = Inr q \<and> Phase (Status q) \<noteq> PhaseUnset \<and>
     fst (run_state (c_listPolicies (cl E)) W) = Inr policies \<and> namespaces_of E q W = Inr a \<and>
     answer (listCandidatePods E (effectiveWatchReasons q) (effectiveTerminationReasons q)) W = Inr xs"

lemma pure_listCandidatePods: "still E \<Longrightarrow> pure_read (listCandidatePods E ws ts)"
proof -
  assume st: "still E"
  have "pure_read (index_loop E index seen pods vs)" for index seen pods vs
    by (induction vs arbitrary: seen pods) (auto intro!: pure_intros pure_prod still_reads [OF st])
  then show ?thesis unfolding listCandidatePods_def listPodsByIndex_def by (intro pure_intros)
qed

lemma Reconcile_pass:
  assumes st: "still E" and inj: "inj_on pol_name (set policies)" and q: "q \<in> set policies"
    and r: "reads_pass E req W q policies a xs" and s: "world s = W"
  shows "\<exists>u. coherent E (set policies) u \<and> world u = W \<and> run_state (Reconcile E req) s =
    run_state (do { st \<leftarrow> pod_loop E q policies a (answer (time_now E) W) xs loop_start; finish E q a st }) u"
proof -
  let ?cands = "listCandidatePods E (effectiveWatchReasons q) (effectiveTerminationReasons q)"
  have api: "run_state (api m) v = (fst (run_state m (world v)), v)" if "still_read m" for m :: "('w, 'b) state" and v
    using pure_run [OF pure_api [OF that], of v] by (simp add: answer_def run_api split: prod.splits)
  let ?v = "s\<lparr>nsCache := Map.empty\<rparr>"
  have v: "coherent E (set policies) ?v" by (simp add: coherent_def)
  obtain u where u: "run_state (allowed E q) ?v = (Inr a, u)" "world u = W" "coherent E (set policies) u"
    using answersD [OF answers_allowed(1) [OF st q inj] v] answers_allowed(2) [OF st q inj, of W] r s
    by (auto simp: reads_pass_def recached_def)
  have "run_state (evaluate E q) s =
      run_state (do { st \<leftarrow> pod_loop E q policies a (answer (time_now E) W) xs loop_start; finish E q a st }) u"
    using pure_run [OF pure_time_now [OF st], of s] pure_run [OF pure_listCandidatePods [OF st], of _ _ u] u r s
    by (simp add: evaluate_def run_bindE api still_reads [OF st] newNamespaceResolver_def reads_pass_def)
  moreover have "run_state (Reconcile E req) s = run_state (evaluate E q) s"
    using r s by (simp add: Reconcile_def api still_reads [OF st] set_pending_def reads_pass_def run_bindE)
  ultimately show ?thesis using u by auto
qed

text \<open>
  C6: a crash looping workload is stopped. While nobody else writes to workloads, a reconcile of the policy
  that is foremost among those that would act for the workload's candidate pods ends with the stored
  workload at zero replicas, or suspended, and marked with that policy: whatever other pods and
  workloads the pass works on before and after, whatever fails for them, and whatever the reconcile
  itself returns.
\<close>

theorem failing_workload_is_stopped:
  assumes "exclusive E V" "still E" "isolated E" "inj_on pol_name (set policies)"
    and "reads_pass E req (world s) q policies a xs"
    and "foremost E policies (pods_of E (world s) w xs) w (world s) q"
    and "all_checkable E policies (pods_of E (world s) w xs) w (world s)"
    and "\<not> effectiveDryRun q" "runs V w (world s)"
    and "CHR ''/'' \<notin> set (ow_namespace w)" "\<forall>x \<in> set xs. CHR ''/'' \<notin> set (om_namespace (pod_meta x))"
  shows "stopped V (pol_name q) w (world (snd (run_state (Reconcile E req) s)))"
proof -
  have q: "q \<in> set policies" using assms(6) by (simp add: foremost_def)
  have a: "namespaces_of E q (world s) = Inr a" using assms(5) by (simp add: reads_pass_def)
  obtain u where u: "coherent E (set policies) u" "world u = world s" "run_state (Reconcile E req) s = run_state (do {
      st \<leftarrow> pod_loop E q policies a (answer (time_now E) (world s)) xs loop_start; finish E q a st }) u"
    using Reconcile_pass [OF assms(2,4) q assms(5) refl] by blast
  obtain ls t where l: "run_state (pod_loop E q policies a (answer (time_now E) (world s)) xs loop_start) u = (ls, t)" by force
  obtain d t' where f: "run_state (finish E q a ls) t = (d, t')" by force
  have "workloadKey w \<notin> processed loop_start" by (simp add: loop_start_def)
  from pass_stops_workload [OF assms(1-4,6-8) a assms(9-11) u(1,2) this l] f
  have "stopped V (pol_name q) w (world t')" by (rule finish_keeps_stopped [OF assms(1)])
  then show ?thesis using u(3) l f by simp
qed

section \<open>The in-memory cluster\<close>

theorem failing_workload_is_stopped_witness:
  "stopped cluster_stores ''pol'' web_workload
     (world (snd (run_state (Reconcile cluster_env (nsname [] ''pol'')) (run_in crash_cluster))))"
proof -
  let ?xs = "[web_pod ''web-1-a'', web_pod ''web-1-b'']" and ?s = "run_in crash_cluster"
  have s: "world ?s = crash_cluster" and start: "start_in crash_cluster = run_in crash_cluster" by (simp_all add: run_in_def start_in_def)
  have k: "k_policies crash_cluster = [active_policy]" "k_policies policy_cluster = [active_policy]"
    by (simp_all add: crash_cluster_def policy_cluster_def)
  have reads: "reads_pass cluster_env (nsname [] ''pol'') (world ?s) active_policy [active_policy] None ?xs"
    using stored_active_policy k crash_namespaces unfolding s
    by (simp add: reads_pass_def cluster_client_def answer_def start crash_candidates)
  have pods: "pods_of cluster_env (world ?s) web_workload ?xs = ?xs" by (simp add: pods_of_def crash_owner s)
  have acts: "answer (policyWouldAct cluster_env active_policy (web_pod n) web_workload) (world ?s) = Inr True" for n
    using crash_would_act [of active_policy n] s by simp
  have f: "foremost cluster_env [active_policy] (pods_of cluster_env (world ?s) web_workload ?xs) web_workload (world ?s) active_policy"
    and c: "all_checkable cluster_env [active_policy] (pods_of cluster_env (world ?s) web_workload ?xs) web_workload (world ?s)"
    unfolding pods by (auto simp: foremost_def acts_for_def all_checkable_def acts isMoreRestrictive_key)
  have slash: "CHR ''/'' \<notin> set (ow_namespace web_workload)" "\<forall>x \<in> set ?xs. CHR ''/'' \<notin> set (om_namespace (pod_meta x))"
    by (simp_all add: web_workload_def web_pod_def example_defs)
  have inj: "inj_on pol_name (set [active_policy])" and live: "\<not> effectiveDryRun active_policy" by simp_all
  have "runs cluster_stores web_workload (world ?s)"
    using crash_view web_runs s by (simp add: runs_def cluster_stores_def) (simp add: web_workload_def)
  from failing_workload_is_stopped [OF cluster_exclusive cluster_still cluster_isolated inj reads f c live this slash]
  show ?thesis by simp
qed

end
