(* ===== verification/Flags.thy ===== *)
theory Flags
  imports Prelude
begin

text \<open>
  The command line of the operator (\<open>cmd/main.go\<close>): its five flags over a model of the parser of Go's
  package \<open>flag\<close>. Flags that libraries register on the same command line (zap's logging options, the
  kubeconfig of controller-runtime) are a parameter.
\<close>

section \<open>Flags\<close>

record flag_values =
  metricsAddr :: string
  probeAddr :: string
  enableLeaderElection :: bool
  watchNamespace :: string
  showVersion :: bool

definition flag_defaults :: flag_values where
  "flag_defaults =
     \<lparr>metricsAddr = '':8080'', probeAddr = '':8081'', enableLeaderElection = False, watchNamespace = [],
      showVersion = False\<rparr>"

text \<open>What \<open>flag.StringVar\<close> and \<open>flag.BoolVar\<close> register: the variable a value is stored in.\<close>

datatype flag_var = StringVar "string \<Rightarrow> flag_values \<Rightarrow> flag_values" | BoolVar "bool \<Rightarrow> flag_values \<Rightarrow> flag_values"

definition own_flag :: "string \<Rightarrow> flag_var option" where
  "own_flag name =
     (if name = ''metrics-bind-address'' then Some (StringVar (\<lambda>v fl. fl\<lparr>metricsAddr := v\<rparr>))
      else if name = ''health-probe-bind-address'' then Some (StringVar (\<lambda>v fl. fl\<lparr>probeAddr := v\<rparr>))
      else if name = ''leader-elect'' then Some (BoolVar (\<lambda>b fl. fl\<lparr>enableLeaderElection := b\<rparr>))
      else if name = ''watch-namespace'' then Some (StringVar (\<lambda>v fl. fl\<lparr>watchNamespace := v\<rparr>))
      else if name = ''version'' then Some (BoolVar (\<lambda>b fl. fl\<lparr>showVersion := b\<rparr>))
      else None)"

text \<open>Flags of libraries: whether a name is one and a boolean flag, and \<open>Value.Set\<close>, which may fail.\<close>

record 'x other_flags =
  IsBoolFlag :: "string \<Rightarrow> bool option"
  SetFlag :: "string \<Rightarrow> string \<Rightarrow> 'x \<Rightarrow> 'x option"
  other_defaults :: 'x

section \<open>Package flag\<close>

definition ParseBool :: "string \<Rightarrow> bool option" where
  "ParseBool s =
     (if s \<in> {''1'', ''t'', ''T'', ''true'', ''TRUE'', ''True''} then Some True
      else if s \<in> {''0'', ''f'', ''F'', ''false'', ''FALSE'', ''False''} then Some False else None)"

text \<open>\<open>formal\<close>: is the named flag boolean, and how is it set.\<close>

definition formal ::
  "'x other_flags \<Rightarrow> string \<Rightarrow> (bool \<times> (string \<Rightarrow> flag_values \<times> 'x \<Rightarrow> (flag_values \<times> 'x) option)) option" where
  "formal X name =
     (case own_flag name of
        Some (StringVar f) \<Rightarrow> Some (False, \<lambda>v (fl, x). Some (f v fl, x))
      | Some (BoolVar f) \<Rightarrow> Some (True, \<lambda>v (fl, x). map_option (\<lambda>b. (f b fl, x)) (ParseBool v))
      | None \<Rightarrow> map_option (\<lambda>isBool. (isBool, \<lambda>v (fl, x). map_option (Pair fl) (SetFlag X name v x))) (IsBoolFlag X name))"

text \<open>A name up to its first \<open>=\<close>, and the value after it, if any.\<close>

definition split_value :: "string \<Rightarrow> string \<times> string option" where
  "split_value name = (takeWhile (\<lambda>c. c \<noteq> CHR ''='') name,
     case dropWhile (\<lambda>c. c \<noteq> CHR ''='') name of [] \<Rightarrow> None | _ # v \<Rightarrow> Some v)"

datatype 'x parsed = More "string list" "flag_values \<times> 'x" | NoFlag | BadFlag | HelpFlag

definition set_flag :: "(flag_values \<times> 'x) option \<Rightarrow> string list \<Rightarrow> 'x parsed" where
  "set_flag st args = (case st of None \<Rightarrow> BadFlag | Some st' \<Rightarrow> More args st')"

definition parseFlag :: "'x other_flags \<Rightarrow> string \<Rightarrow> string list \<Rightarrow> flag_values \<times> 'x \<Rightarrow> 'x parsed" where
  "parseFlag X body args st =
     (case split_value body of (name, value) \<Rightarrow>
        case formal X name of
          None \<Rightarrow> if name = ''help'' \<or> name = ''h'' then HelpFlag else BadFlag
        | Some (isBool, setv) \<Rightarrow>
            if isBool then set_flag (setv (case value of Some v \<Rightarrow> v | None \<Rightarrow> ''true'') st) args
            else (case value of
                    Some v \<Rightarrow> set_flag (setv v st) args
                  | None \<Rightarrow> (case args of [] \<Rightarrow> BadFlag | v # args' \<Rightarrow> set_flag (setv v st) args')))"

definition parseOne :: "'x other_flags \<Rightarrow> string list \<Rightarrow> flag_values \<times> 'x \<Rightarrow> 'x parsed" where
  "parseOne X args st =
     (case args of
        [] \<Rightarrow> NoFlag
      | s # args \<Rightarrow>
          if length s < 2 \<or> hd s \<noteq> CHR ''-'' then NoFlag
          else if s = ''--'' then NoFlag
          else let body = drop (if s ! 1 = CHR ''-'' then 2 else 1) s
               in if body = [] \<or> hd body = CHR ''-'' \<or> hd body = CHR ''='' then BadFlag
                  else parseFlag X body args st)"

lemma set_flag_More [simp]: "set_flag r args = More args' st' \<longleftrightarrow> r = Some st' \<and> args' = args"
  by (auto simp: set_flag_def split: option.split)

lemma parseOne_shorter: "parseOne X args st = More args' st' \<Longrightarrow> length args' < length args"
  by (auto simp: parseOne_def parseFlag_def Let_def split: list.splits if_splits option.splits prod.splits)

text \<open>
  \<open>flag.Parse\<close>: one flag after the other, up to the first argument that is none. The command line's
  error handling is \<open>ExitOnError\<close>: \<open>Inl\<close> is the status the process exits with.
\<close>

function flag_Parse :: "'x other_flags \<Rightarrow> string list \<Rightarrow> flag_values \<times> 'x \<Rightarrow> nat + flag_values \<times> 'x" where
  "flag_Parse X args st =
     (case parseOne X args st of
        More args' st' \<Rightarrow> flag_Parse X args' st'
      | NoFlag \<Rightarrow> Inr st
      | HelpFlag \<Rightarrow> Inl 0
      | BadFlag \<Rightarrow> Inl 2)"
  by pat_completeness auto

termination
  by (relation "measure (\<lambda>(X, args, st). length args)") (auto dest: parseOne_shorter)

declare flag_Parse.simps [simp del]

section \<open>Reading back what was spelled\<close>

text \<open>What a user can set, independent of the parser, with its effect on the values.\<close>

datatype setting = MetricsAddrIs string | ProbeAddrIs string | LeaderElectIs bool | WatchNamespaceIs string | ShowVersionIs bool

fun apply_setting :: "setting \<Rightarrow> flag_values \<Rightarrow> flag_values" where
  "apply_setting (MetricsAddrIs v) fl = fl\<lparr>metricsAddr := v\<rparr>"
| "apply_setting (ProbeAddrIs v) fl = fl\<lparr>probeAddr := v\<rparr>"
| "apply_setting (LeaderElectIs b) fl = fl\<lparr>enableLeaderElection := b\<rparr>"
| "apply_setting (WatchNamespaceIs v) fl = fl\<lparr>watchNamespace := v\<rparr>"
| "apply_setting (ShowVersionIs b) fl = fl\<lparr>showVersion := b\<rparr>"

inductive string_setting :: "string \<Rightarrow> string \<Rightarrow> setting \<Rightarrow> bool" where
  "string_setting ''metrics-bind-address'' v (MetricsAddrIs v)"
| "string_setting ''health-probe-bind-address'' v (ProbeAddrIs v)"
| "string_setting ''watch-namespace'' v (WatchNamespaceIs v)"

inductive bool_setting :: "string \<Rightarrow> bool \<Rightarrow> setting \<Rightarrow> bool" where
  "bool_setting ''leader-elect'' b (LeaderElectIs b)"
| "bool_setting ''version'' b (ShowVersionIs b)"

text \<open>The ways to write a setting on the command line.\<close>

inductive spells :: "string list \<Rightarrow> setting \<Rightarrow> bool" where
  joined: "d \<in> {''-'', ''--''} \<Longrightarrow> string_setting n v x \<Longrightarrow> spells [d @ n @ ''='' @ v] x"
| separate: "d \<in> {''-'', ''--''} \<Longrightarrow> string_setting n v x \<Longrightarrow> spells [d @ n, v] x"
| assigned: "d \<in> {''-'', ''--''} \<Longrightarrow> bool_setting n b x \<Longrightarrow> ParseBool v = Some b \<Longrightarrow> spells [d @ n @ ''='' @ v] x"
| bare: "d \<in> {''-'', ''--''} \<Longrightarrow> bool_setting n True x \<Longrightarrow> spells [d @ n] x"

lemma string_setting_flag:
  "string_setting n v x \<Longrightarrow> \<exists>f. own_flag n = Some (StringVar f) \<and> f v = apply_setting x"
  by (erule string_setting.cases) (auto simp: own_flag_def fun_eq_iff)

lemma bool_setting_flag:
  "bool_setting n b x \<Longrightarrow> \<exists>f. own_flag n = Some (BoolVar f) \<and> f b = apply_setting x"
  by (erule bool_setting.cases) (auto simp: own_flag_def fun_eq_iff)

lemma own_flag_name:
  assumes "own_flag n = Some var"
  shows "n \<noteq> []" "hd n \<noteq> CHR ''-''" "hd n \<noteq> CHR ''=''" "CHR ''='' \<notin> set n"
  using assms by (auto simp: own_flag_def split: if_splits)

lemma split_value_plain: "CHR ''='' \<notin> set n \<Longrightarrow> split_value n = (n, None)"
  by (induction n) (auto simp: split_value_def)

lemma split_value_joined: "CHR ''='' \<notin> set n \<Longrightarrow> split_value (n @ CHR ''='' # v) = (n, Some v)"
  by (induction n) (auto simp: split_value_def)

lemma parseOne_dashed:
  assumes "d \<in> {''-'', ''--''}" "body \<noteq> []" "hd body \<noteq> CHR ''-''" "hd body \<noteq> CHR ''=''"
  shows "parseOne X ((d @ body) # args) st = parseFlag X body args st"
  using assms by (cases body) (auto simp: parseOne_def)

lemma spells_parsed:
  assumes "spells args y"
  shows "parseOne X (args @ rest) (fl, x) = More rest (apply_setting y fl, x)"
  using assms
proof cases
  case (joined d n v)
  obtain f where f: "own_flag n = Some (StringVar f)" "f v = apply_setting y" using string_setting_flag [OF joined(3)] by blast
  note n = own_flag_name [OF f(1)]
  have "parseOne X ((d @ n @ ''='' @ v) # rest) (fl, x) = parseFlag X (n @ ''='' @ v) rest (fl, x)"
    using joined(2) n by (intro parseOne_dashed) auto
  with joined n f show ?thesis by (simp add: parseFlag_def split_value_joined formal_def set_flag_def)
next
  case (separate d n v)
  obtain f where f: "own_flag n = Some (StringVar f)" "f v = apply_setting y" using string_setting_flag [OF separate(3)] by blast
  note n = own_flag_name [OF f(1)]
  have "parseOne X ((d @ n) # v # rest) (fl, x) = parseFlag X n (v # rest) (fl, x)"
    using separate(2) n by (intro parseOne_dashed)
  with separate n f show ?thesis by (simp add: parseFlag_def split_value_plain formal_def set_flag_def)
next
  case (assigned d n b v)
  obtain f where f: "own_flag n = Some (BoolVar f)" "f b = apply_setting y" using bool_setting_flag [OF assigned(3)] by blast
  note n = own_flag_name [OF f(1)]
  have "parseOne X ((d @ n @ ''='' @ v) # rest) (fl, x) = parseFlag X (n @ ''='' @ v) rest (fl, x)"
    using assigned(2) n by (intro parseOne_dashed) auto
  with assigned n f show ?thesis by (simp add: parseFlag_def split_value_joined formal_def set_flag_def)
next
  case (bare d n)
  obtain f where f: "own_flag n = Some (BoolVar f)" "f True = apply_setting y" using bool_setting_flag [OF bare(3)] by blast
  note n = own_flag_name [OF f(1)]
  have "parseOne X ((d @ n) # rest) (fl, x) = parseFlag X n rest (fl, x)"
    using bare(2) n by (intro parseOne_dashed)
  with bare n f show ?thesis by (simp add: parseFlag_def split_value_plain formal_def set_flag_def ParseBool_def)
qed

text \<open>
  C40: a command line that spells settings of the operator's flags, in any of the forms the parser
  knows and in any order, is read as those settings applied one after the other, so the last one of a
  flag counts; a separate value is taken as it is, even if it looks like a flag. Parsing goes on with
  the arguments after them, whatever flags the libraries have registered.
\<close>

theorem flags_read_as_spelled:
  "list_all2 spells argss settings \<Longrightarrow>
   flag_Parse X (concat argss @ rest) (fl, x) = flag_Parse X rest (fold apply_setting settings fl, x)"
proof (induction argss settings arbitrary: fl rule: list_all2_induct)
  case (Cons args argss y ys)
  then show ?case using spells_parsed [OF Cons.hyps(1), of X "concat argss @ rest"]
    by (subst flag_Parse.simps) simp
qed simp

text \<open>The flags of no library.\<close>

definition no_other_flags :: "unit other_flags" where
  "no_other_flags = \<lparr>IsBoolFlag = (\<lambda>_. None), SetFlag = (\<lambda>_ _ _. None), other_defaults = ()\<rparr>"

lemma flag_Parse_Nil [simp]: "flag_Parse X [] st = Inr st"
  by (simp add: flag_Parse.simps parseOne_def)

theorem flags_read_as_spelled_witness:
  "flag_Parse no_other_flags [''--watch-namespace'', ''-prod'', ''-leader-elect''] (flag_defaults, ()) =
   Inr (flag_defaults\<lparr>watchNamespace := ''-prod'', enableLeaderElection := True\<rparr>, ())"
proof -
  have "spells [''--watch-namespace'', ''-prod''] (WatchNamespaceIs ''-prod'')" "spells [''-leader-elect''] (LeaderElectIs True)"
    using separate [OF _ string_setting.intros(3), of "''--''"] bare [OF _ bool_setting.intros(1), of "''-''"] by simp_all
  then have "list_all2 spells [[''--watch-namespace'', ''-prod''], [''-leader-elect'']]
      [WatchNamespaceIs ''-prod'', LeaderElectIs True]" by simp
  from flags_read_as_spelled [OF this, of no_other_flags "[]" flag_defaults "()"]
  show ?thesis by simp
qed

text \<open>
  An argument that is no flag ends the flags; an unknown flag ends the process with status 2, before
  anything else of \<open>main\<close> runs.
\<close>

lemma unknown_flag_exits:
  assumes "own_flag n = None" "IsBoolFlag X n = None" "n \<notin> {''help'', ''h''}"
    and "n \<noteq> []" "hd n \<noteq> CHR ''-''" "CHR ''='' \<notin> set n"
  shows "flag_Parse X ((''--'' @ n) # rest) st = Inl 2"
proof -
  have "hd n \<noteq> CHR ''=''" using assms(4,6) by (cases n) auto
  with assms have "parseOne X ((''--'' @ n) # rest) st = parseFlag X n rest st" by (intro parseOne_dashed) auto
  with assms show ?thesis
    by (subst flag_Parse.simps) (simp add: parseFlag_def split_value_plain formal_def)
qed

end
