(* ===== verification/Scheme.thy ===== *)
theory Scheme
  imports Prelude
begin

text \<open>
  Registration of the API types: the package variables of \<open>api/v1alpha1/groupversion_info.go\<close>, the
  \<open>init\<close> function of \<open>api/v1alpha1/crashlooppolicy_types.go\<close> and that of \<open>cmd/main.go\<close>, in the order
  Go runs them: a package's variables, then its \<open>init\<close> functions, imported packages first. The scheme
  and the scheme builder of apimachinery are parameters.
\<close>

record group_version =
  gv_group :: string
  gv_version :: string

definition GroupVersion :: group_version where
  "GroupVersion = \<lparr>gv_group = ''crashloop-operator.lauger.de'', gv_version = ''v1alpha1''\<rparr>"

text \<open>The Go types this program registers.\<close>

datatype go_type = CrashLoopPolicy_type | CrashLoopPolicyList_type

text \<open>A function that adds to a scheme; it may fail.\<close>

type_synonym 'sc add_func = "'sc \<Rightarrow> string option \<times> 'sc"

record 'sc scheme_ops =
  NewScheme :: 'sc
  AddToGroupVersion :: "'sc \<Rightarrow> group_version \<Rightarrow> 'sc"
  AddKnownTypes :: "'sc \<Rightarrow> group_version \<Rightarrow> go_type list \<Rightarrow> 'sc"
  ClientGoAddToScheme :: "'sc add_func"

text \<open>\<open>runtime.SchemeBuilder\<close>: \<open>NewSchemeBuilder\<close>, and the methods \<open>Register\<close> and \<open>AddToScheme\<close>.\<close>

record ('b, 'sc) builder_ops =
  NewSchemeBuilder :: "'sc add_func \<Rightarrow> 'b"
  Register :: "'b \<Rightarrow> 'sc add_func \<Rightarrow> 'b"
  ApplyBuilder :: "'b \<Rightarrow> 'sc add_func"

definition SchemeBuilder :: "'sc scheme_ops \<Rightarrow> ('b, 'sc) builder_ops \<Rightarrow> 'b" where
  "SchemeBuilder S B = NewSchemeBuilder B (\<lambda>s. (None, AddToGroupVersion S s GroupVersion))"

text \<open>
  \<open>AddToScheme = SchemeBuilder.AddToScheme\<close> is a method value with a pointer receiver: it is bound to
  the variable, so it applies what the variable holds when it is called.
\<close>

definition AddToScheme :: "('b, 'sc) builder_ops \<Rightarrow> 'b \<Rightarrow> 'sc add_func" where
  "AddToScheme B var = ApplyBuilder B var"

definition types_init :: "'sc scheme_ops \<Rightarrow> ('b, 'sc) builder_ops \<Rightarrow> 'b \<Rightarrow> 'b" where
  "types_init S B var =
     Register B var (\<lambda>s. (None, AddKnownTypes S s GroupVersion [CrashLoopPolicy_type, CrashLoopPolicyList_type]))"

text \<open>\<open>init\<close> of package main; \<open>utilruntime.Must\<close> panics on an error (\<open>Inl\<close>).\<close>

definition main_init :: "'sc scheme_ops \<Rightarrow> ('b, 'sc) builder_ops \<Rightarrow> 'b \<Rightarrow> 'sc \<Rightarrow> string + 'sc" where
  "main_init S B var scheme =
     (case ClientGoAddToScheme S scheme of
        (Some err, _) \<Rightarrow> Inl err
      | (None, scheme) \<Rightarrow>
          (case AddToScheme B var scheme of
             (Some err, _) \<Rightarrow> Inl err
           | (None, scheme) \<Rightarrow> Inr scheme))"

definition package_init :: "'sc scheme_ops \<Rightarrow> ('b, 'sc) builder_ops \<Rightarrow> string + 'sc" where
  "package_init S B = main_init S B (types_init S B (SchemeBuilder S B)) (NewScheme S)"

section \<open>What gets registered\<close>

text \<open>
  The documented behaviour of the builder: applying it runs the functions it was given, in order, and
  stops at the first error.
\<close>

definition builder_ok :: "('b, 'sc) builder_ops \<Rightarrow> bool" where
  "builder_ok B \<longleftrightarrow> (\<forall>f. ApplyBuilder B (NewSchemeBuilder B f) = f) \<and>
     (\<forall>b f s. ApplyBuilder B (Register B b f) s =
        (case ApplyBuilder B b s of (Some err, s') \<Rightarrow> (Some err, s') | (None, s') \<Rightarrow> f s'))"

text \<open>The scheme \<open>main\<close> starts with knows both types of the group version, unless client-go's do not load.\<close>

lemma package_init_registers:
  "builder_ok B \<Longrightarrow> package_init S B =
     (case ClientGoAddToScheme S (NewScheme S) of
        (Some err, _) \<Rightarrow> Inl err
      | (None, s) \<Rightarrow> Inr (AddKnownTypes S (AddToGroupVersion S s GroupVersion) GroupVersion
          [CrashLoopPolicy_type, CrashLoopPolicyList_type]))"
  by (simp add: builder_ok_def package_init_def main_init_def AddToScheme_def types_init_def SchemeBuilder_def
      split: prod.split option.split)

text \<open>A builder as a list of functions, and a scheme as the list of what it was told.\<close>

definition list_builder :: "('sc add_func list, 'sc) builder_ops" where
  "list_builder = \<lparr>NewSchemeBuilder = (\<lambda>f. [f]), Register = (\<lambda>b f. b @ [f]),
     ApplyBuilder = (\<lambda>b s. fold (\<lambda>f r. case r of (Some e, s) \<Rightarrow> (Some e, s) | (None, s) \<Rightarrow> f s) b (None, s))\<rparr>"

definition log_scheme :: "(group_version \<times> go_type list) list scheme_ops" where
  "log_scheme = \<lparr>NewScheme = [], AddToGroupVersion = (\<lambda>s gv. s @ [(gv, [])]),
     AddKnownTypes = (\<lambda>s gv ts. s @ [(gv, ts)]), ClientGoAddToScheme = Pair None\<rparr>"

lemma list_builder_ok: "builder_ok list_builder"
  by (simp add: builder_ok_def list_builder_def split: prod.split option.split)

end
