(* ===== verification/Startup.thy ===== *)
theory Startup
  imports Completion Flags Scheme
begin

text \<open>
  The process entry point, \<open>cmd/main.go\<close>: manager options and the start-up sequence, from package
  initialization to the run. The manager of controller-runtime is a parameter, one operation per
  call. Logging is left out.
\<close>

text \<open>\<open>ctrl.Options\<close>; a nil \<open>DefaultNamespaces\<close> is \<open>None\<close> and means all namespaces.\<close>

record 'sc manager_options =
  ManagerScheme :: 'sc
  MetricsBindAddress :: string
  HealthProbeBindAddress :: string
  LeaderElection :: bool
  LeaderElectionID :: string
  LeaderElectionNamespace :: string
  DefaultNamespaces :: "string set option"

definition mgrOptions :: "'sc \<Rightarrow> flag_values \<Rightarrow> 'sc manager_options" where
  "mgrOptions scheme fl =
     (let opts = \<lparr>ManagerScheme = scheme, MetricsBindAddress = metricsAddr fl, HealthProbeBindAddress = probeAddr fl,
            LeaderElection = enableLeaderElection fl, LeaderElectionID = ''crashloop-operator.lauger.de'',
            LeaderElectionNamespace = [], DefaultNamespaces = None\<rparr>
      in if watchNamespace fl \<noteq> []
         then opts\<lparr>DefaultNamespaces := Some {watchNamespace fl}, LeaderElectionNamespace := watchNamespace fl\<rparr>
         else opts)"

text \<open>Build metadata, set at link time; \<open>plain_build\<close> is what a plain build has.\<close>

record build_info =
  version :: string
  commit :: string
  buildDate :: string

definition plain_build :: build_info where
  "plain_build = \<lparr>version = ''dev'', commit = ''unknown'', buildDate = ''unknown''\<rparr>"

definition version_line :: "build_info \<Rightarrow> string \<Rightarrow> string" where
  "version_line build goVersion =
     ''crashloop-operator '' @ version build @ '' (commit '' @ commit build @ '', built '' @ buildDate build @ '', '' @
     goVersion @ '')'' @ [CHR 0x0A]"

text \<open>The manager: creation (with the configuration it loads), registration, health checks, the run.\<close>

record ('w, 'sc) manager_ops =
  NewManager :: "'sc manager_options \<Rightarrow> ('w, api_error option) prog"
  IndexField :: "string \<Rightarrow> (client_object \<Rightarrow> string list) \<Rightarrow> ('w, api_error option) prog"
  Complete :: "(client_object \<Rightarrow> bool) \<Rightarrow> (client_object \<Rightarrow> ('w, namespaced_name list) prog) \<Rightarrow>
     (namespaced_name \<Rightarrow> ('w, api_error + duration) prog) \<Rightarrow> ('w, api_error option) prog"
  AddHealthzCheck :: "string \<Rightarrow> ('w, api_error option) prog"
  AddReadyzCheck :: "string \<Rightarrow> ('w, api_error option) prog"
  StartManager :: "('w, api_error option) prog"

text \<open>
  How the process ends: \<open>main\<close> returns, with what it printed; \<open>os.Exit\<close> is called; or it panics.
\<close>

datatype outcome = Returned string | Exited nat | Panicked string

definition or_exit :: "('w, api_error option) prog \<Rightarrow> ('w, outcome) prog \<Rightarrow> ('w, outcome) prog" where
  "or_exit m k = do { err \<leftarrow> m; case err of Some e \<Rightarrow> ret (Exited 1) | None \<Rightarrow> k }"

definition main ::
  "('w, 'sc) manager_ops \<Rightarrow> 'w env \<Rightarrow> 'x other_flags \<Rightarrow> build_info \<Rightarrow> string \<Rightarrow> 'sc \<Rightarrow> string list \<Rightarrow> ('w, outcome) prog" where
  "main M E X build goVersion scheme args =
     (case flag_Parse X args (flag_defaults, other_defaults X) of
        Inl status \<Rightarrow> ret (Exited status)
      | Inr (fl, _) \<Rightarrow>
          if showVersion fl then ret (Returned (version_line build goVersion))
          else or_exit (NewManager M (mgrOptions scheme fl))
              (or_exit (SetupWithManager (IndexField M) (Complete M) E)
              (or_exit (AddHealthzCheck M ''healthz'')
              (or_exit (AddReadyzCheck M ''readyz'')
              (or_exit (StartManager M)
              (ret (Returned [])))))))"

text \<open>The process: package initialization, then \<open>main\<close>.\<close>

definition process ::
  "('w, 'sc) manager_ops \<Rightarrow> 'w env \<Rightarrow> 'x other_flags \<Rightarrow> 'sc scheme_ops \<Rightarrow> ('b, 'sc) builder_ops \<Rightarrow> build_info \<Rightarrow> string \<Rightarrow>
   string list \<Rightarrow> ('w, outcome) prog" where
  "process M E X S B build goVersion args =
     (case package_init S B of
        Inl err \<Rightarrow> ret (Panicked err)
      | Inr scheme \<Rightarrow> main M E X build goVersion scheme args)"

section \<open>The start-up sequence\<close>

text \<open>Runs the steps in order up to the first that fails.\<close>

fun first_error :: "('w, api_error option) prog list \<Rightarrow> ('w, api_error option) prog" where
  "first_error [] = ret None"
| "first_error (m # ms) = do { err \<leftarrow> m; case err of Some e \<Rightarrow> ret (Some e) | None \<Rightarrow> first_error ms }"

definition startup_steps ::
  "('w, 'sc) manager_ops \<Rightarrow> 'w env \<Rightarrow> 'sc \<Rightarrow> flag_values \<Rightarrow> ('w, api_error option) prog list" where
  "startup_steps M E scheme fl =
     [NewManager M (mgrOptions scheme fl),
      IndexField M IndexPodWaitingReason podWaitingReasons,
      IndexField M IndexPodTerminationReason podTerminationReasons,
      Complete M podIsInteresting (mapPodToPolicy E) (Reconcile E),
      AddHealthzCheck M ''healthz'', AddReadyzCheck M ''readyz'',
      StartManager M]"

lemma run_or_exit: "run_state (or_exit m k) s =
    (case run_state m s of (Some e, t) \<Rightarrow> (Exited 1, t) | (None, t) \<Rightarrow> run_state k t)"
  by (simp add: or_exit_def split: prod.split option.split)

lemma run_first_error: "run_state (first_error (m # ms)) s =
    (case run_state m s of (Some e, t) \<Rightarrow> (Some e, t) | (None, t) \<Rightarrow> run_state (first_error ms) t)"
  by (simp split: prod.split option.split)

declare first_error.simps(2) [simp del]

lemma run_SetupWithManager:
  "run_state (SetupWithManager IF CO E) s =
   run_state (first_error [IF IndexPodWaitingReason podWaitingReasons, IF IndexPodTerminationReason podTerminationReasons,
     CO podIsInteresting (mapPodToPolicy E) (Reconcile E)]) s"
  by (simp add: SetupWithManager_def run_first_error split: prod.split option.split)

lemma main_runs_startup_in_order:
  "run_state (main M E X build goVersion scheme args) s =
     (case flag_Parse X args (flag_defaults, other_defaults X) of
        Inl status \<Rightarrow> (Exited status, s)
      | Inr (fl, _) \<Rightarrow>
          if showVersion fl then (Returned (version_line build goVersion), s)
          else case run_state (first_error (startup_steps M E scheme fl)) s of
            (None, t) \<Rightarrow> (Returned [], t) | (Some e, t) \<Rightarrow> (Exited 1, t))"
  by (simp add: main_def startup_steps_def run_or_exit run_SetupWithManager run_first_error
      split: sum.split prod.split option.split)


text \<open>A manager whose second index cannot be registered.\<close>

definition failing_manager :: "('w, 'sc) manager_ops" where
  "failing_manager = \<lparr>NewManager = (\<lambda>_. ret None),
     IndexField = (\<lambda>name _. ret (if name = IndexPodTerminationReason then Some (Failed ''index'') else None)),
     Complete = (\<lambda>_ _ _. ret None), AddHealthzCheck = (\<lambda>_. ret None), AddReadyzCheck = (\<lambda>_. ret None),
     StartManager = ret None\<rparr>"


text \<open>
  A namespace given with \<open>--watch-namespace\<close> restricts the cache to it and is where the leader is
  elected; without one the operator sees all namespaces. Nothing else depends on the flag.
\<close>

lemma watch_namespace_options:
  "DefaultNamespaces (mgrOptions scheme fl) = (if watchNamespace fl = [] then None else Some {watchNamespace fl})"
  "LeaderElectionNamespace (mgrOptions scheme fl) = watchNamespace fl"
  "(mgrOptions scheme fl)\<lparr>DefaultNamespaces := d, LeaderElectionNamespace := n\<rparr> =
     (mgrOptions scheme (fl\<lparr>watchNamespace := ns\<rparr>))\<lparr>DefaultNamespaces := d, LeaderElectionNamespace := n\<rparr>"
  by (simp_all add: mgrOptions_def Let_def)

end
