(* ===== verification/DeepCopy.thy ===== *)
theory DeepCopy
  imports ScaleDown
begin

text \<open>
  The deep copies of \<open>api/v1alpha1/zz_generated.deepcopy.go\<close> over an explicit store. Everywhere else a
  policy is a value; here its slices and pointers are addresses, so that sharing shows. The status
  writer depends on it: it keeps \<open>policy.Status.DeepCopy()\<close>, changes the status in place (a condition
  is overwritten in its array) and compares; a copy that shared an array would hide the change.

  A struct is a record whose slice and pointer fields are addresses of cells; a cell is an array
  behind a slice or the target of a pointer. \<open>metav1\<close> values (object metadata, label selectors, times)
  are one cell each, with everything they own; their \<open>DeepCopyInto\<close> is a parameter. Conditions have
  no references, so copying one is copying its value. \<open>TypeMeta\<close> is not modelled.
\<close>

section \<open>Store\<close>

type_synonym pointer = "nat option"

record spec_mem =
  s_WatchReasons :: pointer
  s_WatchTerminationReasons :: pointer
  s_RestartWindow :: string
  s_RestartThreshold :: int32
  s_DurationThreshold :: string
  s_AllReplicasFailing :: pointer
  s_FailureCorrelation :: string
  s_Targets :: pointer
  s_NamespaceSelector :: pointer
  s_ExcludeNamespaces :: pointer
  s_ExcludeWorkloadSelector :: pointer
  s_ReconcileInterval :: string
  s_DryRun :: pointer

record status_mem =
  t_Phase :: CrashLoopPolicyPhase
  t_ObservedGeneration :: int64
  t_Conditions :: pointer
  t_ScaledDownWorkloads :: int32
  t_ActiveScaledDown :: pointer
  t_ActiveScaledDownTruncated :: int32
  t_LastEvaluationTime :: pointer

record policy_mem =
  p_ObjectMeta :: pointer
  p_Spec :: spec_mem
  p_Status :: status_mem

datatype cell =
    StringArray "string list"
  | BoolCell bool
  | SelectorCell label_selector
  | ConditionArray "condition list"
  | RefArray "ScaledDownWorkloadRef list"
  | TimeCell time
  | MetaCell object_meta
  | ItemArray "policy_mem list"

type_synonym store = "cell list"

definition load :: "store \<Rightarrow> pointer \<Rightarrow> cell option" where
  "load st p = (case p of None \<Rightarrow> None | Some a \<Rightarrow> if a < length st then Some (st ! a) else None)"

definition new_cell :: "cell \<Rightarrow> (store, pointer) state" where
  "new_cell c = State (\<lambda>st. (Some (length st), st @ [c]))"

text \<open>
  The shape of most field copies: when the field is not nil, \<open>make\<close> and \<open>copy\<close>, or \<open>new\<close> and an
  assignment.
\<close>

definition copy_cell :: "pointer \<Rightarrow> (store, pointer) state" where
  "copy_cell p = State (\<lambda>st. case load st p of None \<Rightarrow> (None, st) | Some c \<Rightarrow> (Some (length st), st @ [c]))"

text \<open>The deep copies of \<open>metav1\<close>: of metadata, selectors and times.\<close>

record copiers =
  copyMeta :: "pointer \<Rightarrow> (store, pointer) state"
  copySelector :: "pointer \<Rightarrow> (store, pointer) state"
  copyTime :: "pointer \<Rightarrow> (store, pointer) state"

section \<open>The generated functions\<close>

definition ScaledDownWorkloadRef_DeepCopyInto :: "ScaledDownWorkloadRef \<Rightarrow> (store, ScaledDownWorkloadRef) state" where
  "ScaledDownWorkloadRef_DeepCopyInto inp = State_Monad.return inp"

definition CrashLoopPolicySpec_DeepCopyInto :: "copiers \<Rightarrow> spec_mem \<Rightarrow> (store, spec_mem) state" where
  "CrashLoopPolicySpec_DeepCopyInto D inp = do {
     watchReasons \<leftarrow> copy_cell (s_WatchReasons inp);
     watchTerminationReasons \<leftarrow> copy_cell (s_WatchTerminationReasons inp);
     allReplicas \<leftarrow> copy_cell (s_AllReplicasFailing inp);
     targets \<leftarrow> copy_cell (s_Targets inp);
     namespaceSelector \<leftarrow> copySelector D (s_NamespaceSelector inp);
     excludeNamespaces \<leftarrow> copy_cell (s_ExcludeNamespaces inp);
     excludeWorkloadSelector \<leftarrow> copySelector D (s_ExcludeWorkloadSelector inp);
     dryRun \<leftarrow> copy_cell (s_DryRun inp);
     State_Monad.return (inp\<lparr>s_WatchReasons := watchReasons, s_WatchTerminationReasons := watchTerminationReasons,
       s_AllReplicasFailing := allReplicas, s_Targets := targets, s_NamespaceSelector := namespaceSelector,
       s_ExcludeNamespaces := excludeNamespaces, s_ExcludeWorkloadSelector := excludeWorkloadSelector,
       s_DryRun := dryRun\<rparr>) }"

definition CrashLoopPolicyStatus_DeepCopyInto :: "copiers \<Rightarrow> status_mem \<Rightarrow> (store, status_mem) state" where
  "CrashLoopPolicyStatus_DeepCopyInto D inp = do {
     conditions \<leftarrow> copy_cell (t_Conditions inp);
     activeScaledDown \<leftarrow> copy_cell (t_ActiveScaledDown inp);
     lastEvaluationTime \<leftarrow> copyTime D (t_LastEvaluationTime inp);
     State_Monad.return (inp\<lparr>t_Conditions := conditions, t_ActiveScaledDown := activeScaledDown,
       t_LastEvaluationTime := lastEvaluationTime\<rparr>) }"

definition CrashLoopPolicy_DeepCopyInto :: "copiers \<Rightarrow> policy_mem \<Rightarrow> (store, policy_mem) state" where
  "CrashLoopPolicy_DeepCopyInto D inp = do {
     objectMeta \<leftarrow> copyMeta D (p_ObjectMeta inp);
     spec \<leftarrow> CrashLoopPolicySpec_DeepCopyInto D (p_Spec inp);
     status \<leftarrow> CrashLoopPolicyStatus_DeepCopyInto D (p_Status inp);
     State_Monad.return \<lparr>p_ObjectMeta = objectMeta, p_Spec = spec, p_Status = status\<rparr> }"

text \<open>\<open>DeepCopy\<close>: nil for a nil receiver, else a new object and \<open>DeepCopyInto\<close>; one for every type.\<close>

definition DeepCopy :: "('a \<Rightarrow> (store, 'a) state) \<Rightarrow> 'a option \<Rightarrow> (store, 'a option) state" where
  "DeepCopy into inp =
     (case inp of
        None \<Rightarrow> State_Monad.return None
      | Some x \<Rightarrow> do { out \<leftarrow> into x; State_Monad.return (Some out) })"

text \<open>The items of a \<open>CrashLoopPolicyList\<close>: a new array, every element copied.\<close>

fun copy_items :: "copiers \<Rightarrow> policy_mem list \<Rightarrow> (store, policy_mem list) state" where
  "copy_items D [] = State_Monad.return []"
| "copy_items D (x # xs) = do {
     y \<leftarrow> CrashLoopPolicy_DeepCopyInto D x;
     ys \<leftarrow> copy_items D xs;
     State_Monad.return (y # ys) }"

definition CrashLoopPolicyList_DeepCopyInto :: "copiers \<Rightarrow> pointer \<Rightarrow> (store, pointer) state" where
  "CrashLoopPolicyList_DeepCopyInto D items = do {
     st \<leftarrow> State_Monad.get;
     (case load st items of
        Some (ItemArray xs) \<Rightarrow> do { ys \<leftarrow> copy_items D xs; new_cell (ItemArray ys) }
      | _ \<Rightarrow> State_Monad.return None) }"

definition ScaledDownWorkloadRef_DeepCopy :: "ScaledDownWorkloadRef option \<Rightarrow> (store, ScaledDownWorkloadRef option) state" where
  "ScaledDownWorkloadRef_DeepCopy = DeepCopy ScaledDownWorkloadRef_DeepCopyInto"

definition CrashLoopPolicySpec_DeepCopy :: "copiers \<Rightarrow> spec_mem option \<Rightarrow> (store, spec_mem option) state" where
  "CrashLoopPolicySpec_DeepCopy D = DeepCopy (CrashLoopPolicySpec_DeepCopyInto D)"

definition CrashLoopPolicyStatus_DeepCopy :: "copiers \<Rightarrow> status_mem option \<Rightarrow> (store, status_mem option) state" where
  "CrashLoopPolicyStatus_DeepCopy D = DeepCopy (CrashLoopPolicyStatus_DeepCopyInto D)"

definition CrashLoopPolicy_DeepCopy :: "copiers \<Rightarrow> policy_mem option \<Rightarrow> (store, policy_mem option) state" where
  "CrashLoopPolicy_DeepCopy D = DeepCopy (CrashLoopPolicy_DeepCopyInto D)"

definition CrashLoopPolicyList_DeepCopy :: "copiers \<Rightarrow> pointer option \<Rightarrow> (store, pointer option) state" where
  "CrashLoopPolicyList_DeepCopy D = DeepCopy (CrashLoopPolicyList_DeepCopyInto D)"

text \<open>\<open>DeepCopyObject\<close> gives the copy as a \<open>runtime.Object\<close>, a nil interface for a nil copy.\<close>

datatype runtime_object = PolicyObject policy_mem | PolicyListObject pointer

definition CrashLoopPolicy_DeepCopyObject :: "copiers \<Rightarrow> policy_mem option \<Rightarrow> (store, runtime_object option) state" where
  "CrashLoopPolicy_DeepCopyObject D inp = do {
     c \<leftarrow> CrashLoopPolicy_DeepCopy D inp;
     State_Monad.return (case c of Some c \<Rightarrow> Some (PolicyObject c) | None \<Rightarrow> None) }"

definition CrashLoopPolicyList_DeepCopyObject :: "copiers \<Rightarrow> pointer option \<Rightarrow> (store, runtime_object option) state" where
  "CrashLoopPolicyList_DeepCopyObject D inp = do {
     c \<leftarrow> CrashLoopPolicyList_DeepCopy D inp;
     State_Monad.return (case c of Some c \<Rightarrow> Some (PolicyListObject c) | None \<Rightarrow> None) }"

section \<open>The values in a store\<close>

definition strings :: "cell option \<Rightarrow> string list" where
  "strings c = (case c of Some (StringArray xs) \<Rightarrow> xs | _ \<Rightarrow> [])"

definition bool_at :: "cell option \<Rightarrow> bool option" where
  "bool_at c = (case c of Some (BoolCell b) \<Rightarrow> Some b | _ \<Rightarrow> None)"

definition selector_at :: "cell option \<Rightarrow> label_selector option" where
  "selector_at c = (case c of Some (SelectorCell s) \<Rightarrow> Some s | _ \<Rightarrow> None)"

definition conditions_at :: "cell option \<Rightarrow> condition list" where
  "conditions_at c = (case c of Some (ConditionArray xs) \<Rightarrow> xs | _ \<Rightarrow> [])"

definition refs_at :: "cell option \<Rightarrow> ScaledDownWorkloadRef list" where
  "refs_at c = (case c of Some (RefArray xs) \<Rightarrow> xs | _ \<Rightarrow> [])"

definition time_at :: "cell option \<Rightarrow> time option" where
  "time_at c = (case c of Some (TimeCell t) \<Rightarrow> Some t | _ \<Rightarrow> None)"

definition meta_at :: "cell option \<Rightarrow> object_meta" where
  "meta_at c = (case c of Some (MetaCell m) \<Rightarrow> m | _ \<Rightarrow> zero_meta)"

definition spec_in :: "store \<Rightarrow> spec_mem \<Rightarrow> CrashLoopPolicySpec" where
  "spec_in st m =
     \<lparr>WatchReasons = strings (load st (s_WatchReasons m)),
      WatchTerminationReasons = strings (load st (s_WatchTerminationReasons m)),
      RestartWindow = s_RestartWindow m, RestartThreshold = s_RestartThreshold m,
      DurationThreshold = s_DurationThreshold m,
      AllReplicasFailing = bool_at (load st (s_AllReplicasFailing m)),
      FailureCorrelation = s_FailureCorrelation m,
      Targets = strings (load st (s_Targets m)),
      NamespaceSelector = selector_at (load st (s_NamespaceSelector m)),
      ExcludeNamespaces = strings (load st (s_ExcludeNamespaces m)),
      ExcludeWorkloadSelector = selector_at (load st (s_ExcludeWorkloadSelector m)),
      ReconcileInterval = s_ReconcileInterval m,
      DryRun = bool_at (load st (s_DryRun m))\<rparr>"

definition status_in :: "store \<Rightarrow> status_mem \<Rightarrow> CrashLoopPolicyStatus" where
  "status_in st m =
     \<lparr>Phase = t_Phase m, ObservedGeneration = t_ObservedGeneration m,
      Conditions = conditions_at (load st (t_Conditions m)),
      ScaledDownWorkloads = t_ScaledDownWorkloads m,
      ActiveScaledDown = refs_at (load st (t_ActiveScaledDown m)),
      ActiveScaledDownTruncated = t_ActiveScaledDownTruncated m,
      LastEvaluationTime = time_at (load st (t_LastEvaluationTime m))\<rparr>"

definition policy_in :: "store \<Rightarrow> policy_mem \<Rightarrow> CrashLoopPolicy" where
  "policy_in st p =
     \<lparr>pol_meta = meta_at (load st (p_ObjectMeta p)), Spec = spec_in st (p_Spec p), Status = status_in st (p_Status p)\<rparr>"

definition spec_pointers :: "spec_mem \<Rightarrow> pointer list" where
  "spec_pointers m =
     [s_WatchReasons m, s_WatchTerminationReasons m, s_AllReplicasFailing m, s_Targets m, s_NamespaceSelector m,
      s_ExcludeNamespaces m, s_ExcludeWorkloadSelector m, s_DryRun m]"

definition status_pointers :: "status_mem \<Rightarrow> pointer list" where
  "status_pointers m = [t_Conditions m, t_ActiveScaledDown m, t_LastEvaluationTime m]"

definition policy_pointers :: "policy_mem \<Rightarrow> pointer list" where
  "policy_pointers p = p_ObjectMeta p # spec_pointers (p_Spec p) @ status_pointers (p_Status p)"

text \<open>Go has no dangling pointers: a pointer is nil or leads into the store.\<close>

definition valid :: "store \<Rightarrow> pointer \<Rightarrow> bool" where
  "valid st p \<longleftrightarrow> (\<forall>a. p = Some a \<longrightarrow> a < length st)"

section \<open>A copy and what it owns\<close>

text \<open>
  \<open>owns n st p c\<close>: behind \<open>p\<close> there is \<open>c\<close>, in a cell allocated since the store had \<open>n\<close> cells; so it is
  still there in every store in which the cells from \<open>n\<close> on are as in \<open>st\<close>.
\<close>

definition keeps :: "nat \<Rightarrow> store \<Rightarrow> store \<Rightarrow> bool" where
  "keeps n st st' \<longleftrightarrow> length st \<le> length st' \<and> (\<forall>a. n \<le> a \<longrightarrow> a < length st \<longrightarrow> st' ! a = st ! a)"

definition owns :: "nat \<Rightarrow> store \<Rightarrow> pointer \<Rightarrow> cell option \<Rightarrow> bool" where
  "owns n st p c \<longleftrightarrow> load st p = c \<and> (\<forall>a. p = Some a \<longrightarrow> n \<le> a \<and> a < length st)"

lemma owns_keeps: "owns n st p c \<Longrightarrow> keeps n st st' \<Longrightarrow> load st' p = c"
  by (auto simp: owns_def keeps_def load_def split: option.splits)

lemma keeps_append: "keeps n st (st @ e)"
  by (simp add: keeps_def nth_append)

lemma keeps_trans: "keeps n st st1 \<Longrightarrow> keeps n st1 st2 \<Longrightarrow> keeps n st st2"
  by (simp add: keeps_def)

lemma owns_append: "owns n st p c \<Longrightarrow> owns n (st @ e) p c"
  by (auto simp: owns_def load_def nth_append split: option.splits)

text \<open>The contract of a deep copy of one cell: new cells only, the copy among them.\<close>

definition copier :: "(pointer \<Rightarrow> (store, pointer) state) \<Rightarrow> bool" where
  "copier copy \<longleftrightarrow> (\<forall>st p. valid st p \<longrightarrow>
     (\<exists>p' e. run_state (copy p) st = (p', st @ e) \<and> owns (length st) (st @ e) p' (load st p)))"

definition copiers_ok :: "copiers \<Rightarrow> bool" where
  "copiers_ok D \<longleftrightarrow> copier (copyMeta D) \<and> copier (copySelector D) \<and> copier (copyTime D)"

lemma copier_copy_cell: "copier copy_cell"
  by (auto simp: copier_def copy_cell_def valid_def load_def owns_def split: option.splits)

section \<open>Programs that allocate\<close>

text \<open>
  \<open>settled n st f v\<close>: \<open>f\<close> reads \<open>v\<close> from every store with the cells from \<open>n\<close> on as in \<open>st\<close>.
  \<open>makes st m Q\<close>: run in \<open>st\<close>, possibly extended, \<open>m\<close> only adds cells, and \<open>Q\<close> holds of its result
  in every further extension.
\<close>

definition settled :: "nat \<Rightarrow> store \<Rightarrow> (store \<Rightarrow> 'a) \<Rightarrow> 'a \<Rightarrow> bool" where
  "settled n st f v \<longleftrightarrow> (\<forall>st'. keeps n st st' \<longrightarrow> f st' = v)"

definition makes :: "store \<Rightarrow> (store, 'a) state \<Rightarrow> ('a \<Rightarrow> store \<Rightarrow> bool) \<Rightarrow> bool" where
  "makes st m Q \<longleftrightarrow> (\<forall>x. \<exists>r e. run_state m (st @ x) = (r, st @ (x @ e)) \<and> (\<forall>e'. Q r (st @ (x @ e @ e'))))"

lemma settled_now: "settled n st f v \<Longrightarrow> f st = v"
  by (simp add: settled_def keeps_def)

lemma settled_append: "settled n st f v \<Longrightarrow> settled n (st @ e) f v"
  unfolding settled_def using keeps_trans keeps_append by blast

lemma settled_owns: "owns n st p c \<Longrightarrow> settled n st (\<lambda>s. load s p) c"
  by (simp add: settled_def owns_keeps)

lemma makes_return: "(\<And>s. Q v s) \<Longrightarrow> makes st (State_Monad.return v) Q"
  by (auto simp: makes_def intro: exI [of _ "[]"])

lemma makes_bind:
  assumes "makes st m P" "\<And>r. makes st (f r) (\<lambda>r' s. P r s \<longrightarrow> Q r' s)"
  shows "makes st (State_Monad.bind m f) Q"
  unfolding makes_def
proof
  fix x
  from assms(1) obtain r e where m: "run_state m (st @ x) = (r, st @ (x @ e))" "\<forall>e'. P r (st @ (x @ e @ e'))"
    unfolding makes_def by blast
  from assms(2) [of r] obtain r' d where f: "run_state (f r) (st @ (x @ e)) = (r', st @ ((x @ e) @ d))"
    "\<forall>e'. P r (st @ ((x @ e) @ d @ e')) \<longrightarrow> Q r' (st @ ((x @ e) @ d @ e'))"
    unfolding makes_def by blast
  have "Q r' (st @ (x @ (e @ d) @ e'))" for e'
    using m(2) [rule_format, of "d @ e'"] f(2) [rule_format, of e'] by simp
  then show "\<exists>r e. run_state (State_Monad.bind m f) (st @ x) = (r, st @ (x @ e)) \<and> (\<forall>e'. Q r (st @ (x @ e @ e')))"
    using m(1) f(1) by (intro exI [of _ r'] exI [of _ "e @ d"]) auto
qed

lemma makes_copy:
  assumes "copier copy" "valid st p"
  shows "makes st (copy p) (\<lambda>r s. settled (length st) s (\<lambda>t. load t r) (load st p))"
  unfolding makes_def
proof
  fix x
  have "valid (st @ x) p" "load (st @ x) p = load st p"
    using assms(2) by (auto simp: valid_def load_def nth_append split: option.splits)
  with assms(1) obtain r e where r: "run_state (copy p) (st @ x) = (r, (st @ x) @ e)"
    "owns (length (st @ x)) ((st @ x) @ e) r (load st p)"
    unfolding copier_def by metis
  then have "owns (length st) ((st @ x) @ e) r (load st p)" by (auto simp: owns_def)
  then have "settled (length st) ((st @ x) @ e) (\<lambda>t. load t r) (load st p)" by (rule settled_owns)
  then have "settled (length st) (((st @ x) @ e) @ e') (\<lambda>t. load t r) (load st p)" for e' by (rule settled_append)
  with r(1) show "\<exists>r e. run_state (copy p) (st @ x) = (r, st @ (x @ e)) \<and>
      (\<forall>e'. settled (length st) (st @ (x @ e @ e')) (\<lambda>t. load t r) (load st p))"
    by (intro exI [of _ r] exI [of _ e]) simp
qed

lemmas makes_bind_copy = makes_bind [OF makes_copy]

lemmas makes_bind_cell = makes_bind_copy [OF copier_copy_cell]

section \<open>Copies have their own cells\<close>

text \<open>A copy \<open>into\<close> whose result reads as the original did, now and later.\<close>

abbreviation snapshots :: "(store \<Rightarrow> 'a \<Rightarrow> 'b) \<Rightarrow> ('a \<Rightarrow> (store, 'a) state) \<Rightarrow> store \<Rightarrow> 'a \<Rightarrow> bool" where
  "snapshots view into st m \<equiv> makes st (into m) (\<lambda>r s. settled (length st) s (\<lambda>t. view t r) (view st m))"

lemma makes_spec:
  assumes D: "copiers_ok D" and v: "list_all (valid st) (spec_pointers m)"
  shows "snapshots spec_in (CrashLoopPolicySpec_DeepCopyInto D) st m"
proof -
  have d: "copier (copySelector D)" using D by (simp add: copiers_ok_def)
  have p: "valid st (s_WatchReasons m)" "valid st (s_WatchTerminationReasons m)" "valid st (s_AllReplicasFailing m)"
    "valid st (s_Targets m)" "valid st (s_NamespaceSelector m)" "valid st (s_ExcludeNamespaces m)"
    "valid st (s_ExcludeWorkloadSelector m)" "valid st (s_DryRun m)"
    using v by (simp_all add: spec_pointers_def)
  show ?thesis
    unfolding CrashLoopPolicySpec_DeepCopyInto_def
    by (intro makes_bind_cell makes_bind_copy [OF d] p makes_return) (simp add: settled_def spec_in_def)
qed

lemma makes_status:
  assumes D: "copiers_ok D" and v: "list_all (valid st) (status_pointers m)"
  shows "snapshots status_in (CrashLoopPolicyStatus_DeepCopyInto D) st m"
proof -
  have d: "copier (copyTime D)" using D by (simp add: copiers_ok_def)
  have p: "valid st (t_Conditions m)" "valid st (t_ActiveScaledDown m)" "valid st (t_LastEvaluationTime m)"
    using v by (simp_all add: status_pointers_def)
  show ?thesis
    unfolding CrashLoopPolicyStatus_DeepCopyInto_def
    by (intro makes_bind_cell makes_bind_copy [OF d] p makes_return) (simp add: settled_def status_in_def)
qed

lemma makes_policy:
  assumes D: "copiers_ok D" and v: "list_all (valid st) (policy_pointers p)"
  shows "snapshots policy_in (CrashLoopPolicy_DeepCopyInto D) st p"
proof -
  have d: "copier (copyMeta D)" using D by (simp add: copiers_ok_def)
  have p: "valid st (p_ObjectMeta p)" "list_all (valid st) (spec_pointers (p_Spec p))"
    "list_all (valid st) (status_pointers (p_Status p))"
    using v by (simp_all add: policy_pointers_def)
  show ?thesis
    unfolding CrashLoopPolicy_DeepCopyInto_def
    by (intro makes_bind_copy [OF d] p(1) makes_bind [OF makes_spec [OF D p(2)]]
        makes_bind [OF makes_status [OF D p(3)]] makes_return)
      (simp add: settled_def policy_in_def)
qed

lemma makes_items:
  assumes D: "copiers_ok D"
  shows "list_all (\<lambda>p. list_all (valid st) (policy_pointers p)) xs \<Longrightarrow>
    snapshots (\<lambda>t. map (policy_in t)) (copy_items D) st xs"
proof (induction xs)
  case Nil
  show ?case unfolding copy_items.simps by (rule makes_return) (simp add: settled_def)
next
  case (Cons x xs)
  then have x: "list_all (valid st) (policy_pointers x)"
    and xs: "snapshots (\<lambda>t. map (policy_in t)) (copy_items D) st xs" by simp_all
  show ?case
    unfolding copy_items.simps
    by (intro makes_bind [OF makes_policy [OF D x]] makes_bind [OF xs] makes_return) (simp add: settled_def)
qed

lemma makes_DeepCopy:
  assumes "snapshots view into st m"
  shows "makes st (DeepCopy into (Some m)) (\<lambda>r s. \<exists>y. r = Some y \<and> settled (length st) s (\<lambda>t. view t y) (view st m))"
  unfolding DeepCopy_def option.case by (intro makes_bind [OF assms] makes_return) simp

lemma makesD: "makes st m Q \<Longrightarrow> run_state m st = (r, st') \<Longrightarrow> (\<exists>e. st' = st @ e) \<and> Q r st'"
  unfolding makes_def by (metis append.right_neutral append_Nil prod.inject append_assoc)

text \<open>The items of a list, as values.\<close>

definition items_in :: "store \<Rightarrow> pointer \<Rightarrow> CrashLoopPolicy list" where
  "items_in st p = (case load st p of Some (ItemArray xs) \<Rightarrow> map (policy_in st) xs | _ \<Rightarrow> [])"

lemma list_copy_reads_same:
  assumes "copiers_ok D" "load st items = Some (ItemArray xs)"
    and "list_all (\<lambda>p. list_all (valid st) (policy_pointers p)) xs"
    and "run_state (CrashLoopPolicyList_DeepCopyInto D items) st = (r, st')" "keeps (length st) st' later"
  shows "items_in later r = items_in st items \<and> (\<exists>e. st' = st @ e)"
proof -
  obtain ys s1 where c: "run_state (copy_items D xs) st = (ys, s1)" by force
  from makesD [OF makes_items [OF assms(1,3)] c] obtain e where
    e: "s1 = st @ e" "settled (length st) s1 (\<lambda>t. map (policy_in t) ys) (map (policy_in st) xs)" by blast
  have r: "r = Some (length s1)" "st' = s1 @ [ItemArray ys]"
    using assms(2,4) c by (auto simp: CrashLoopPolicyList_DeepCopyInto_def new_cell_def)
  have "keeps (length st) s1 later" using assms(5) keeps_append r(2) keeps_trans by blast
  then have "map (policy_in later) ys = map (policy_in st) xs" using e(2) by (simp add: settled_def)
  moreover have "load later r = Some (ItemArray ys)"
    using assms(5) r e(1) by (auto simp: keeps_def load_def nth_append)
  ultimately show ?thesis using r(2) e(1) assms(2) by (simp add: items_in_def)
qed

text \<open>
  C34: a deep copy of a policy is a snapshot: the copy reads as the original did, and still does after
  anything at all is written to the cells that existed when it was made, or allocated later; making it
  changes no existing cell. The same holds for the copy of a status, which the status writer compares
  with the status after changing that one in place.
\<close>

theorem deep_copy_is_snapshot:
  assumes "copiers_ok D" "list_all (valid st) (policy_pointers p)"
    and "run_state (CrashLoopPolicy_DeepCopy D (Some p)) st = (q, st1)" "keeps (length st) st1 later"
    and "run_state (CrashLoopPolicyStatus_DeepCopy D (Some (p_Status p))) st = (before, st2)" "keeps (length st) st2 later2"
  shows "(\<exists>c. q = Some c \<and> policy_in later c = policy_in st p) \<and> (\<exists>e. st1 = st @ e) \<and>
     (\<exists>c. before = Some c \<and> status_in later2 c = status_in st (p_Status p)) \<and> (\<exists>e. st2 = st @ e)"
proof -
  have s: "list_all (valid st) (status_pointers (p_Status p))" using assms(2) by (simp add: policy_pointers_def)
  note policy = makes_DeepCopy [where view = policy_in and into = "CrashLoopPolicy_DeepCopyInto D", OF makes_policy [OF assms(1,2)]]
  note status = makes_DeepCopy [where view = status_in and into = "CrashLoopPolicyStatus_DeepCopyInto D",
      OF makes_status [OF assms(1) s]]
  from makesD [OF policy assms(3) [unfolded CrashLoopPolicy_DeepCopy_def]] assms(4)
    makesD [OF status assms(5) [unfolded CrashLoopPolicyStatus_DeepCopy_def]] assms(6)
  show ?thesis by (auto simp: settled_def)
qed

section \<open>A shared array\<close>

text \<open>
  A status whose Ready condition is overwritten in its array. The deep copy made before still says
  True; a copy of the struct alone would follow the change, and the status writer would see none.
\<close>

definition ready_array :: "string \<Rightarrow> cell" where
  "ready_array s = ConditionArray [\<lparr>cond_type = ConditionReady, cond_status = s, cond_observedGeneration = 1,
     cond_lastTransitionTime = 0, cond_reason = [], cond_message = []\<rparr>]"

definition some_status :: status_mem where
  "some_status = \<lparr>t_Phase = CrashLoopPolicyPhaseActive, t_ObservedGeneration = 1, t_Conditions = Some 0,
     t_ScaledDownWorkloads = 0, t_ActiveScaledDown = None, t_ActiveScaledDownTruncated = 0, t_LastEvaluationTime = None\<rparr>"

definition some_policy :: policy_mem where
  "some_policy = \<lparr>p_ObjectMeta = None,
     p_Spec = \<lparr>s_WatchReasons = None, s_WatchTerminationReasons = None, s_RestartWindow = [], s_RestartThreshold = 0,
       s_DurationThreshold = [], s_AllReplicasFailing = None, s_FailureCorrelation = [], s_Targets = None,
       s_NamespaceSelector = None, s_ExcludeNamespaces = None, s_ExcludeWorkloadSelector = None,
       s_ReconcileInterval = [], s_DryRun = None\<rparr>,
     p_Status = some_status\<rparr>"

definition plain_copiers :: copiers where
  "plain_copiers = \<lparr>copyMeta = copy_cell, copySelector = copy_cell, copyTime = copy_cell\<rparr>"

lemma shared_array_shows: "status_in [ready_array ''False''] some_status \<noteq> status_in [ready_array ''True''] some_status"
  by (simp add: status_in_def some_status_def ready_array_def load_def conditions_at_def)

theorem deep_copy_is_snapshot_witness:
  "\<exists>c st2. run_state (CrashLoopPolicyStatus_DeepCopy plain_copiers (Some some_status)) [ready_array ''True''] = (Some c, st2) \<and>
     status_in (st2[0 := ready_array ''False'']) c = status_in [ready_array ''True''] some_status"
proof -
  let ?st = "[ready_array ''True'']"
  have D: "copiers_ok plain_copiers" by (simp add: copiers_ok_def plain_copiers_def copier_copy_cell)
  have v: "list_all (valid ?st) (policy_pointers some_policy)"
    by (simp add: policy_pointers_def spec_pointers_def status_pointers_def some_policy_def some_status_def valid_def)
  obtain q st1 where 1: "run_state (CrashLoopPolicy_DeepCopy plain_copiers (Some some_policy)) ?st = (q, st1)" by force
  obtain before st2 where 2: "run_state (CrashLoopPolicyStatus_DeepCopy plain_copiers (Some (p_Status some_policy))) ?st = (before, st2)"
    by force
  have "keeps (length ?st) st1 st1" "keeps (length ?st) st2 (st2[0 := ready_array ''False''])"
    by (auto simp: keeps_def)
  from deep_copy_is_snapshot [OF D v 1 this(1) 2 this(2)] 2 show ?thesis by (auto simp: some_policy_def)
qed

end
